theory Spec2Isabelle
  imports Complex_Main "HOL-Library.Product_Lexorder" "HOL-Library.Multiset"
begin

section \<open>Data model\<close>

text \<open>
  The program (\<^verbatim>\<open>main.py\<close>) reads a collection of line features, finds the lines
  whose end point (start point) meets no other line, and connects them with artificial
  lines in rounds. Coordinates are Python floats; they are modelled as reals, so the
  theory speaks about the selection logic and not about rounding. A point is the pair
  of its coordinates; the program keeps points as WKT strings and compares the strings,
  which is modelled as equality of the coordinates.
\<close>

type_synonym point = "real \<times> real"

text \<open>The exceptions the modelled code can raise.\<close>

datatype error = IndexError | KeyError | ValueError | TypeError

text \<open>
  A row of the data frame after \<^verbatim>\<open>get_lines\<close> has added the columns
  \<^verbatim>\<open>b_point\<close> and \<^verbatim>\<open>e_point\<close>; \<open>ident\<close> is the index column \<^verbatim>\<open>id\<close>.
\<close>

record line_row =
  ident :: int
  geometry :: "point list"
  b_point :: point
  e_point :: point

text \<open>
  A row of \<^verbatim>\<open>artificial_lines\<close>: the index \<^verbatim>\<open>(e_idx, b_idx)\<close> and the geometry
  of the connector. A row of \<^verbatim>\<open>filtered_lines\<close> has the columns \<^verbatim>\<open>angle\<close> and
  \<^verbatim>\<open>angle_art\<close> in addition.
\<close>

record art_line =
  e_idx :: int
  b_idx :: int
  line_geom :: "point list"

record filtered_line = art_line +
  angle :: real
  angle_art :: real

text \<open>The state of the \<^verbatim>\<open>while 1\<close> loop of \<^verbatim>\<open>main\<close>.\<close>

record loop_state =
  result_lines :: "filtered_line list"
  previous_result_length :: nat
  lines_no_end :: "line_row list"
  lines_no_begin :: "line_row list"

text \<open>\<^verbatim>\<open>np.inf\<close> as the initial value of a running minimum or index.\<close>

datatype 'a or_inf = Inf | Fin 'a

fun lt_inf :: "real \<Rightarrow> real or_inf \<Rightarrow> bool" where
  "lt_inf x Inf = True"
| "lt_inf x (Fin m) = (x < m)"

text \<open>Applying a function that may raise to every element; the first exception wins.\<close>

fun mapE :: "('a \<Rightarrow> error + 'b) \<Rightarrow> 'a list \<Rightarrow> error + 'b list" where
  "mapE f [] = Inr []"
| "mapE f (x # xs) =
     (case f x of
        Inl e \<Rightarrow> Inl e
      | Inr y \<Rightarrow> (case mapE f xs of Inl e \<Rightarrow> Inl e | Inr ys \<Rightarrow> Inr (y # ys)))"

section \<open>Library functions the program calls\<close>

text \<open>
  \<^verbatim>\<open>math.atan2\<close> and \<^verbatim>\<open>math.degrees\<close>. \<open>atan2 y x\<close> is the angle of the vector
  \<open>(x, y)\<close> in \<open>(-\<pi>, \<pi>]\<close>, and \<open>atan2 0 0 = 0\<close> as in Python.
\<close>

definition atan2 :: "real \<Rightarrow> real \<Rightarrow> real" where
  "atan2 y x =
     (if 0 < x then arctan (y / x)
      else if x < 0 then (if 0 \<le> y then arctan (y / x) + pi else arctan (y / x) - pi)
      else if 0 < y then pi / 2
      else if y < 0 then - (pi / 2)
      else 0)"

definition degrees :: "real \<Rightarrow> real" where
  "degrees x = x * (180 / pi)"

text \<open>
  \<^verbatim>\<open>geometry.boundary\<close> of a line string: no point when the line is empty or closed,
  otherwise its first and its last coordinate.
\<close>

definition boundary :: "point list \<Rightarrow> point list" where
  "boundary cs = (if cs = [] \<or> hd cs = last cs then [] else [hd cs, last cs])"

text \<open>
  \<^verbatim>\<open>NearestNeighbors(n_neighbors).fit(X).kneighbors(Q)\<close>: for every query point the
  positions in \<open>X\<close> of its \<open>n_neighbors\<close> nearest points, nearest first. It raises
  \<^verbatim>\<open>ValueError\<close> when \<open>X\<close> or \<open>Q\<close> has no sample and when \<open>X\<close> has fewer than
  \<open>n_neighbors\<close> samples. Points at the same distance are taken in the order of \<open>X\<close>.
\<close>

definition euclidean :: "point \<Rightarrow> point \<Rightarrow> real" where
  "euclidean p q = sqrt ((fst p - fst q)\<^sup>2 + (snd p - snd q)\<^sup>2)"

definition kneighbors :: "nat \<Rightarrow> point list \<Rightarrow> point list \<Rightarrow> error + nat list list" where
  "kneighbors n_neighbors X Q =
     (if X = [] then Inl ValueError
      else if Q = [] then Inl ValueError
      else if length X < n_neighbors then Inl ValueError
      else Inr (map (\<lambda>q. take n_neighbors
                  (sort_key (\<lambda>i. euclidean (X ! i) q) [0..<length X])) Q))"

text \<open>\<^verbatim>\<open>df.loc[i]\<close> on a frame with unique index: the row with that id, or \<^verbatim>\<open>KeyError\<close>.\<close>

definition loc :: "line_row list \<Rightarrow> int \<Rightarrow> error + line_row" where
  "loc df i = (case find (\<lambda>r. ident r = i) df of None \<Rightarrow> Inl KeyError | Some r \<Rightarrow> Inr r)"

text \<open>\<^verbatim>\<open>df.drop(labels, inplace=True)\<close>: \<^verbatim>\<open>KeyError\<close> when a label is not in the index.\<close>

definition drop_rows :: "int list \<Rightarrow> line_row list \<Rightarrow> error + line_row list" where
  "drop_rows labels df =
     (if \<forall>i \<in> set labels. i \<in> ident ` set df
      then Inr (filter (\<lambda>r. ident r \<notin> set labels) df)
      else Inl KeyError)"

text \<open>
  \<^verbatim>\<open>groupby(level=0)\<close> on \<^verbatim>\<open>artificial_lines\<close>: one group per value of \<^verbatim>\<open>e_idx\<close>,
  the groups in increasing order of that value, the rows of a group in the order of the
  frame.
\<close>

definition groupby :: "art_line list \<Rightarrow> (int \<times> art_line list) list" where
  "groupby df =
     map (\<lambda>name. (name, filter (\<lambda>r. e_idx r = name) df)) (sort (remdups (map e_idx df)))"

section \<open>The program\<close>

text \<open>\<^verbatim>\<open>read_shp\<close>: the features of the file, indexed by id and sorted by it.\<close>

definition read_shp :: "(int \<times> point list) list \<Rightarrow> (int \<times> point list) list" where
  "read_shp features = sort_key fst features"

definition get_begin :: "point list \<Rightarrow> error + point" where
  "get_begin points = (if 0 < length points then Inr (points ! 0) else Inl IndexError)"

definition get_end :: "point list \<Rightarrow> error + point" where
  "get_end points = (if 1 < length points then Inr (points ! 1) else Inl IndexError)"

definition get_lines ::
  "(int \<times> point list) list \<Rightarrow> error + (line_row list \<times> line_row list)" where
  "get_lines df =
     (case mapE (\<lambda>(i, g). get_begin (boundary g)) df of
        Inl e \<Rightarrow> Inl e
      | Inr bs \<Rightarrow>
         (case mapE (\<lambda>(i, g). get_end (boundary g)) df of
            Inl e \<Rightarrow> Inl e
          | Inr es \<Rightarrow>
              let rows = map (\<lambda>((i, g), (b, e)).
                               \<lparr>ident = i, geometry = g, b_point = b, e_point = e\<rparr>)
                             (zip df (zip bs es));
                  no_end = filter (\<lambda>r. e_point r \<notin> set (map b_point rows)) rows;
                  no_begin = filter (\<lambda>r. b_point r \<notin> set (map e_point rows)) rows
              in Inr (no_end, no_begin)))"

definition AngleBtw2Points :: "point \<Rightarrow> point \<Rightarrow> real" where
  "AngleBtw2Points point_a point_b =
     (let change_x = fst point_b - fst point_a;
          change_y = snd point_b - snd point_a
      in degrees (atan2 change_y change_x))"

definition calculate_neighbors :: "line_row list \<Rightarrow> line_row list \<Rightarrow> error + nat list list" where
  "calculate_neighbors no_end no_begin =
     (let n_a = map e_point no_end;
          n_b = map b_point no_begin
      in kneighbors 3 n_a n_b)"

text \<open>\<^verbatim>\<open>indices[:, 0]\<close>: the first column of the result of the search.\<close>

definition first_column :: "nat list list \<Rightarrow> error + nat list" where
  "first_column indices =
     mapE (\<lambda>row. if 0 < length row then Inr (row ! 0) else Inl IndexError) indices"

definition convert_to_id :: "nat list \<Rightarrow> line_row list \<Rightarrow> error + int list" where
  "convert_to_id column df =
     mapE (\<lambda>x. if x < length df then Inr (ident (df ! x)) else Inl IndexError) column"

text \<open>
  \<^verbatim>\<open>generate_artificial_lines\<close>. Its first argument is \<^verbatim>\<open>lines_no_begin\<close> with the
  column \<^verbatim>\<open>first\<close>, here the second component of each pair.
\<close>

definition generate_artificial_lines ::
  "(line_row \<times> int) list \<Rightarrow> line_row list \<Rightarrow> error + art_line list" where
  "generate_artificial_lines no_begin no_end =
     (let begin_points = map (\<lambda>(r, f). (ident r, b_point r)) no_begin
      in case mapE (\<lambda>(r, f). case loc no_end f of
                                Inl e \<Rightarrow> Inl e
                              | Inr t \<Rightarrow> Inr (f, e_point t)) no_begin of
           Inl e \<Rightarrow> Inl e
         | Inr end_points \<Rightarrow>
             let artificial_lines =
                   map (\<lambda>((bi, bp), (ei, ep)). \<lparr>e_idx = ei, b_idx = bi, line_geom = [ep, bp]\<rparr>)
                       (zip begin_points end_points)
             in Inr (sort_key (\<lambda>a. (e_idx a, b_idx a)) artificial_lines))"

text \<open>
  The body of the inner loop of \<^verbatim>\<open>calculate_cos\<close> up to the comparison: the two
  angle differences \<^verbatim>\<open>degree\<close> and \<^verbatim>\<open>degree_art\<close> of one candidate.
\<close>

definition candidate_angles ::
  "line_row list \<Rightarrow> line_row list \<Rightarrow> 'a art_line_scheme \<Rightarrow> error + (real \<times> real)" where
  "candidate_angles no_begin no_end c =
     (case loc no_end (e_idx c) of
        Inl e \<Rightarrow> Inl e
      | Inr t \<Rightarrow>
         (case loc no_begin (b_idx c) of
            Inl e \<Rightarrow> Inl e
          | Inr d \<Rightarrow>
              let line1 = drop (length (geometry t) - 2) (geometry t);
                  line2 = take 2 (geometry d);
                  art = line_geom c
              in if length line1 < 2 \<or> length line2 < 2 \<or> length art < 2 then Inl IndexError
                 else
                   let angle1 = AngleBtw2Points (line1 ! 0) (line1 ! 1);
                       angle2 = AngleBtw2Points (line2 ! 0) (line2 ! 1);
                       art_angle = AngleBtw2Points (art ! 0) (art ! 1);
                       degree = \<bar>angle1 - angle2\<bar>;
                       degree_art = \<bar>art_angle - angle2\<bar>
                   in Inr (degree, degree_art)))"

text \<open>
  The inner loop of \<^verbatim>\<open>calculate_cos\<close> over the enumerated rows of a group; the state
  is \<^verbatim>\<open>(min_degree, min_degree_art, max_idx)\<close>.
\<close>

fun cos_loop ::
  "line_row list \<Rightarrow> line_row list \<Rightarrow> (nat \<times> art_line) list \<Rightarrow>
   real or_inf \<times> real or_inf \<times> nat or_inf \<Rightarrow> error + (real or_inf \<times> real or_inf \<times> nat or_inf)" where
  "cos_loop no_begin no_end [] st = Inr st"
| "cos_loop no_begin no_end ((idx, line) # rest) (min_degree, min_degree_art, max_idx) =
     (case candidate_angles no_begin no_end line of
        Inl e \<Rightarrow> Inl e
      | Inr (degree, degree_art) \<Rightarrow>
          if lt_inf degree min_degree
          then cos_loop no_begin no_end rest (Fin degree, Fin degree_art, Fin idx)
          else cos_loop no_begin no_end rest (min_degree, min_degree_art, max_idx))"

text \<open>The row that \<^verbatim>\<open>calculate_cos\<close> appends for one group.\<close>

definition group_row ::
  "line_row list \<Rightarrow> line_row list \<Rightarrow> art_line list \<Rightarrow> error + filtered_line" where
  "group_row no_begin no_end grp =
     (case cos_loop no_begin no_end (enumerate 0 grp) (Inf, Inf, Inf) of
        Inl e \<Rightarrow> Inl e
      | Inr (Fin min_degree, Fin min_degree_art, Fin max_idx) \<Rightarrow>
          if max_idx < length grp
          then Inr \<lparr>e_idx = e_idx (grp ! max_idx), b_idx = b_idx (grp ! max_idx),
                    line_geom = line_geom (grp ! max_idx),
                    angle = min_degree, angle_art = min_degree_art\<rparr>
          else Inl IndexError
      | Inr _ \<Rightarrow> Inl TypeError)"

definition accepted :: "real \<Rightarrow> filtered_line \<Rightarrow> bool" where
  "accepted angle_treshold r \<longleftrightarrow>
     angle r < angle_treshold \<and> \<not> (e_idx r = b_idx r) \<and> angle_art r < angle_treshold"

definition calculate_cos ::
  "line_row list \<Rightarrow> art_line list \<Rightarrow> line_row list \<Rightarrow> real \<Rightarrow> error + filtered_line list" where
  "calculate_cos no_begin artificial_lines no_end angle_treshold =
     (case mapE (\<lambda>(name, grp). group_row no_begin no_end grp) (groupby artificial_lines) of
        Inl e \<Rightarrow> Inl e
      | Inr filtered_lines \<Rightarrow>
          if filtered_lines = [] then Inl KeyError
          else Inr (filter (accepted angle_treshold)
                     (sort_key (\<lambda>r. (e_idx r, b_idx r)) filtered_lines)))"

text \<open>
  The first half of the body of the \<^verbatim>\<open>while 1\<close> loop of \<^verbatim>\<open>main\<close>: the search
  for the nearest line, the column \<^verbatim>\<open>first\<close> and the artificial lines.
\<close>

definition round_candidates :: "line_row list \<Rightarrow> line_row list \<Rightarrow> error + art_line list" where
  "round_candidates no_end no_begin =
     (case calculate_neighbors no_end no_begin of
        Inl e \<Rightarrow> Inl e
      | Inr indices \<Rightarrow>
     (case first_column indices of
        Inl e \<Rightarrow> Inl e
      | Inr column \<Rightarrow>
     (case convert_to_id column no_end of
        Inl e \<Rightarrow> Inl e
      | Inr first \<Rightarrow> generate_artificial_lines (zip no_begin first) no_end)))"

text \<open>
  One pass through the body of the loop: the state after the pass, the connectors the
  pass accepted, and whether the loop breaks.
\<close>

definition loop_body ::
  "real \<Rightarrow> loop_state \<Rightarrow> error + (loop_state \<times> filtered_line list \<times> bool)" where
  "loop_body angle_threshold s =
     (case round_candidates (lines_no_end s) (lines_no_begin s) of
        Inl e \<Rightarrow> Inl e
      | Inr artificial_lines \<Rightarrow>
     (case calculate_cos (lines_no_begin s) artificial_lines (lines_no_end s) angle_threshold of
        Inl e \<Rightarrow> Inl e
      | Inr filtered_lines \<Rightarrow>
     (case drop_rows (map b_idx filtered_lines) (lines_no_begin s) of
        Inl e \<Rightarrow> Inl e
      | Inr no_begin \<Rightarrow>
     (case drop_rows (map e_idx filtered_lines) (lines_no_end s) of
        Inl e \<Rightarrow> Inl e
      | Inr no_end \<Rightarrow>
          let result = result_lines s @ filtered_lines;
              stop = \<bar>int (previous_result_length s) - int (length result)\<bar> < 5
          in Inr (\<lparr>result_lines = result,
                    previous_result_length =
                      (if stop then previous_result_length s else length result),
                    lines_no_end = no_end, lines_no_begin = no_begin\<rparr>,
                  filtered_lines, stop)))))"

text \<open>
  The loop. \<open>None\<close> stands for a loop that never leaves; \<open>Some (Inl e)\<close> for an
  exception that ends the run; \<open>Some (Inr s)\<close> for the state at the \<^verbatim>\<open>break\<close>.
\<close>

partial_function (option) main_loop :: "real \<Rightarrow> loop_state \<Rightarrow> (error + loop_state) option" where
  "main_loop angle_threshold s =
     (case loop_body angle_threshold s of
        Inl e \<Rightarrow> Some (Inl e)
      | Inr (s', filtered_lines, stop) \<Rightarrow>
          if stop then Some (Inr s') else main_loop angle_threshold s')"

text \<open>
  \<^verbatim>\<open>main\<close> up to the end of the loop: the accumulated connectors and the two pools
  that are left. Writing the shapefile is outside of the model.
\<close>

definition initial_state :: "line_row list \<Rightarrow> line_row list \<Rightarrow> loop_state" where
  "initial_state no_end no_begin =
     \<lparr>result_lines = [], previous_result_length = 0,
      lines_no_end = no_end, lines_no_begin = no_begin\<rparr>"

definition main :: "(int \<times> point list) list \<Rightarrow> real \<Rightarrow> (error + loop_state) option" where
  "main features angle_threshold =
     (case get_lines (read_shp features) of
        Inl e \<Rightarrow> Some (Inl e)
      | Inr (no_end, no_begin) \<Rightarrow> main_loop angle_threshold (initial_state no_end no_begin))"

section \<open>Notions used in the statements\<close>

text \<open>
  The three bearings that \<^verbatim>\<open>calculate_cos\<close> computes for a candidate: of the last
  segment of the line without end, of the first segment of the line without begin, and
  of the artificial line.
\<close>

definition target_bearing :: "line_row \<Rightarrow> real" where
  "target_bearing t =
     AngleBtw2Points (geometry t ! (length (geometry t) - 2))
                     (geometry t ! (length (geometry t) - 1))"

definition destination_bearing :: "line_row \<Rightarrow> real" where
  "destination_bearing d = AngleBtw2Points (geometry d ! 0) (geometry d ! 1)"

definition connector_bearing :: "'a art_line_scheme \<Rightarrow> real" where
  "connector_bearing c = AngleBtw2Points (line_geom c ! 0) (line_geom c ! 1)"

text \<open>
  \<open>connector t r\<close>: the artificial line from the end point of the line \<open>t\<close> to the start
  point of the line \<open>r\<close>. \<open>nearest_pos no_end r\<close>: the position in the pool of the
  first of the three neighbours that the search returns for the line \<open>r\<close>.
\<close>

definition connector :: "line_row \<Rightarrow> line_row \<Rightarrow> art_line" where
  "connector t r = \<lparr>e_idx = ident t, b_idx = ident r, line_geom = [e_point t, b_point r]\<rparr>"

definition nearest_pos :: "line_row list \<Rightarrow> line_row \<Rightarrow> nat" where
  "nearest_pos no_end r =
     take 3 (sort_key (\<lambda>i. euclidean (e_point (no_end ! i)) (b_point r)) [0..<length no_end]) ! 0"

text \<open>
  \<open>least_min no_begin no_end grp k d\<close>: every candidate of the group has its angles
  computed, none has an angle difference below \<open>d\<close>, and none before position \<open>k\<close> has
  the angle difference \<open>d\<close>.
\<close>

definition least_min ::
  "line_row list \<Rightarrow> line_row list \<Rightarrow> art_line list \<Rightarrow> nat \<Rightarrow> real \<Rightarrow> bool" where
  "least_min no_begin no_end grp k d \<longleftrightarrow>
     (\<forall>j<length grp. \<exists>d' a'. candidate_angles no_begin no_end (grp ! j) = Inr (d', a') \<and>
        d \<le> d' \<and> (d' = d \<longrightarrow> k \<le> j))"

text \<open>
  The pools of a well-formed input: the ids are unique within each pool and every line
  has at least two coordinates.
\<close>

definition well_formed_pools :: "line_row list \<Rightarrow> line_row list \<Rightarrow> bool" where
  "well_formed_pools no_end no_begin \<longleftrightarrow>
     distinct (map ident no_end) \<and> distinct (map ident no_begin) \<and>
     (\<forall>r \<in> set no_end \<union> set no_begin. 2 \<le> length (geometry r))"

text \<open>
  \<open>matched_once s\<close>: the pools are well formed, no id is the source of two accepted
  connectors or the destination of two, and no source (destination) of an accepted
  connector is left in the pool of lines without end (without begin).
\<close>

definition matched_once :: "loop_state \<Rightarrow> bool" where
  "matched_once s \<longleftrightarrow>
     well_formed_pools (lines_no_end s) (lines_no_begin s) \<and>
     distinct (map e_idx (result_lines s)) \<and> distinct (map b_idx (result_lines s)) \<and>
     e_idx ` set (result_lines s) \<inter> ident ` set (lines_no_end s) = {} \<and>
     b_idx ` set (result_lines s) \<inter> ident ` set (lines_no_begin s) = {}"

text \<open>
  \<open>next_round\<close>: the state in which the next pass of the loop starts, when the pass from
  \<open>s\<close> neither raises nor breaks. \<open>round_start t s0 s\<close>: a run of the loop from \<open>s0\<close>
  starts a pass in state \<open>s\<close>.
\<close>

definition next_round :: "real \<Rightarrow> loop_state \<Rightarrow> loop_state option" where
  "next_round angle_threshold s =
     (case loop_body angle_threshold s of
        Inl e \<Rightarrow> None
      | Inr (s', filtered_lines, stop) \<Rightarrow> if stop then None else Some s')"

inductive round_start :: "real \<Rightarrow> loop_state \<Rightarrow> loop_state \<Rightarrow> bool"
  for angle_threshold :: real and s0 :: loop_state where
  first_round: "round_start angle_threshold s0 s0"
| later_round: "round_start angle_threshold s0 s \<Longrightarrow> next_round angle_threshold s = Some s' \<Longrightarrow>
     round_start angle_threshold s0 s'"

section \<open>Example inputs\<close>

text \<open>
  Four lines: \<open>P\<close> runs north into the start of \<open>A\<close>; \<open>A\<close> and \<open>B\<close> run east with
  a gap between the end of \<open>A\<close> and the start of \<open>B\<close>; \<open>C\<close> is an isolated line that
  runs north.
\<close>

definition ex_P :: line_row where
  "ex_P = \<lparr>ident = 0, geometry = [(0, -5), (0, 0)], b_point = (0, -5), e_point = (0, 0)\<rparr>"

definition ex_A :: line_row where
  "ex_A = \<lparr>ident = 1, geometry = [(0, 0), (1, 0)], b_point = (0, 0), e_point = (1, 0)\<rparr>"

definition ex_B :: line_row where
  "ex_B = \<lparr>ident = 2, geometry = [(2, 0), (4, 0)], b_point = (2, 0), e_point = (4, 0)\<rparr>"

definition ex_C :: line_row where
  "ex_C = \<lparr>ident = 3, geometry = [(0, 10), (0, 11)], b_point = (0, 10), e_point = (0, 11)\<rparr>"

definition ex_features :: "(int \<times> point list) list" where
  "ex_features =
     [(0, [(0, -5), (0, 0)]), (1, [(0, 0), (1, 0)]), (2, [(2, 0), (4, 0)]), (3, [(0, 10), (0, 11)])]"

text \<open>The same network with the last coordinate of \<open>A\<close> repeated.\<close>

definition ex_A_degenerate :: line_row where
  "ex_A_degenerate =
     \<lparr>ident = 1, geometry = [(0, 0), (1, 0), (1, 0)], b_point = (0, 0), e_point = (1, 0)\<rparr>"

definition ex_features_degenerate :: "(int \<times> point list) list" where
  "ex_features_degenerate =
     [(0, [(0, -5), (0, 0)]), (1, [(0, 0), (1, 0), (1, 0)]), (2, [(2, 0), (4, 0)]),
      (3, [(0, 10), (0, 11)])]"

text \<open>
  A line \<open>D\<close> parallel to \<open>B\<close>, and the connector that the program accepts in the
  example network, from \<open>A\<close> to \<open>B\<close>.
\<close>

definition ex_D :: line_row where
  "ex_D = \<lparr>ident = 4, geometry = [(2, 1), (4, 1)], b_point = (2, 1), e_point = (4, 1)\<rparr>"

definition ex_A_to_B :: filtered_line where
  "ex_A_to_B = \<lparr>e_idx = 1, b_idx = 2, line_geom = [(1, 0), (2, 0)], angle = 0, angle_art = 0\<rparr>"

text \<open>
  Five gaps side by side: for \<open>k = 1, \<dots>, 5\<close> the line \<open>a\<^sub>k\<close> (id \<open>10 + k\<close>) runs east
  from \<open>(0, 10 k)\<close> to \<open>(1, 10 k)\<close> and the line \<open>b\<^sub>k\<close> (id \<open>k\<close>) runs east from
  \<open>(2, 10 k)\<close> to \<open>(4, 10 k)\<close>.
\<close>

definition ex_b1 :: line_row where
  "ex_b1 = \<lparr>ident = 1, geometry = [(2, 10), (4, 10)], b_point = (2, 10), e_point = (4, 10)\<rparr>"

definition ex_b2 :: line_row where
  "ex_b2 = \<lparr>ident = 2, geometry = [(2, 20), (4, 20)], b_point = (2, 20), e_point = (4, 20)\<rparr>"

definition ex_b3 :: line_row where
  "ex_b3 = \<lparr>ident = 3, geometry = [(2, 30), (4, 30)], b_point = (2, 30), e_point = (4, 30)\<rparr>"

definition ex_b4 :: line_row where
  "ex_b4 = \<lparr>ident = 4, geometry = [(2, 40), (4, 40)], b_point = (2, 40), e_point = (4, 40)\<rparr>"

definition ex_b5 :: line_row where
  "ex_b5 = \<lparr>ident = 5, geometry = [(2, 50), (4, 50)], b_point = (2, 50), e_point = (4, 50)\<rparr>"

definition ex_a1 :: line_row where
  "ex_a1 = \<lparr>ident = 11, geometry = [(0, 10), (1, 10)], b_point = (0, 10), e_point = (1, 10)\<rparr>"

definition ex_a2 :: line_row where
  "ex_a2 = \<lparr>ident = 12, geometry = [(0, 20), (1, 20)], b_point = (0, 20), e_point = (1, 20)\<rparr>"

definition ex_a3 :: line_row where
  "ex_a3 = \<lparr>ident = 13, geometry = [(0, 30), (1, 30)], b_point = (0, 30), e_point = (1, 30)\<rparr>"

definition ex_a4 :: line_row where
  "ex_a4 = \<lparr>ident = 14, geometry = [(0, 40), (1, 40)], b_point = (0, 40), e_point = (1, 40)\<rparr>"

definition ex_a5 :: line_row where
  "ex_a5 = \<lparr>ident = 15, geometry = [(0, 50), (1, 50)], b_point = (0, 50), e_point = (1, 50)\<rparr>"

definition ex_gaps :: "(int \<times> point list) list" where
  "ex_gaps =
     [(1, [(2, 10), (4, 10)]),
      (2, [(2, 20), (4, 20)]),
      (3, [(2, 30), (4, 30)]),
      (4, [(2, 40), (4, 40)]),
      (5, [(2, 50), (4, 50)]),
      (11, [(0, 10), (1, 10)]),
      (12, [(0, 20), (1, 20)]),
      (13, [(0, 30), (1, 30)]),
      (14, [(0, 40), (1, 40)]),
      (15, [(0, 50), (1, 50)])]"

definition ex_gap_connector :: "int \<Rightarrow> filtered_line" where
  "ex_gap_connector k =
     \<lparr>e_idx = 10 + k, b_idx = k, line_geom = [(1, 10 * real_of_int k), (2, 10 * real_of_int k)],
      angle = 0, angle_art = 0\<rparr>"

definition ex_gaps_lines :: "art_line list" where
  "ex_gaps_lines =
     [\<lparr>e_idx = 11, b_idx = 1, line_geom = [(1, 10), (2, 10)]\<rparr>,
      \<lparr>e_idx = 11, b_idx = 11, line_geom = [(1, 10), (0, 10)]\<rparr>,
      \<lparr>e_idx = 12, b_idx = 2, line_geom = [(1, 20), (2, 20)]\<rparr>,
      \<lparr>e_idx = 12, b_idx = 12, line_geom = [(1, 20), (0, 20)]\<rparr>,
      \<lparr>e_idx = 13, b_idx = 3, line_geom = [(1, 30), (2, 30)]\<rparr>,
      \<lparr>e_idx = 13, b_idx = 13, line_geom = [(1, 30), (0, 30)]\<rparr>,
      \<lparr>e_idx = 14, b_idx = 4, line_geom = [(1, 40), (2, 40)]\<rparr>,
      \<lparr>e_idx = 14, b_idx = 14, line_geom = [(1, 40), (0, 40)]\<rparr>,
      \<lparr>e_idx = 15, b_idx = 5, line_geom = [(1, 50), (2, 50)]\<rparr>,
      \<lparr>e_idx = 15, b_idx = 15, line_geom = [(1, 50), (0, 50)]\<rparr>]"

definition ex_gaps_round_1 :: loop_state where
  "ex_gaps_round_1 =
     initial_state [ex_b1, ex_b2, ex_b3, ex_b4, ex_b5, ex_a1, ex_a2, ex_a3, ex_a4, ex_a5]
                   [ex_b1, ex_b2, ex_b3, ex_b4, ex_b5, ex_a1, ex_a2, ex_a3, ex_a4, ex_a5]"

definition ex_gaps_round_2 :: loop_state where
  "ex_gaps_round_2 =
     \<lparr>result_lines = map ex_gap_connector [1, 2, 3, 4, 5], previous_result_length = 5,
      lines_no_end = [ex_b1, ex_b2, ex_b3, ex_b4, ex_b5],
      lines_no_begin = [ex_a1, ex_a2, ex_a3, ex_a4, ex_a5]\<rparr>"

text \<open>The state in which the run on the four-line network ends.\<close>

definition ex_final :: loop_state where
  "ex_final =
     \<lparr>result_lines = [ex_A_to_B], previous_result_length = 0,
      lines_no_end = [ex_B, ex_C], lines_no_begin = [ex_P, ex_C]\<rparr>"

text \<open>Three lines that form a ring with a spur: every end point is a start point.\<close>

definition ex_ring :: "(int \<times> point list) list" where
  "ex_ring = [(1, [(0, 0), (1, 0)]), (2, [(1, 0), (0, 0)]), (3, [(5, 5), (0, 0)])]"

definition ex_spur :: line_row where
  "ex_spur = \<lparr>ident = 3, geometry = [(5, 5), (0, 0)], b_point = (5, 5), e_point = (0, 0)\<rparr>"

section \<open>Exceptions in a mapped function\<close>

lemma mapE_Inr_map: "(\<And>x. x \<in> set xs \<Longrightarrow> f x = Inr (g x)) \<Longrightarrow> mapE f xs = Inr (map g xs)"
  by (induction xs) auto

lemma mapE_Inr_D:
  "mapE f xs = Inr ys \<Longrightarrow> length ys = length xs \<and> (\<forall>i<length xs. f (xs ! i) = Inr (ys ! i))"
proof (induction xs arbitrary: ys)
  case Nil
  then show ?case by simp
next
  case (Cons x xs)
  then show ?case
    by (auto split: sum.splits simp: nth_Cons split: nat.splits)
qed

lemma mapE_Inl_D: "mapE f xs = Inl e \<Longrightarrow> \<exists>x\<in>set xs. f x = Inl e"
  by (induction xs) (auto split: sum.splits)



lemma get_begin_error: "get_begin ps = Inl e \<Longrightarrow> e = IndexError"
  by (auto simp: get_begin_def split: if_splits)

lemma get_end_error: "get_end ps = Inl e \<Longrightarrow> e = IndexError"
  by (auto simp: get_end_def split: if_splits)

lemma get_lines_error: "get_lines df = Inl e \<Longrightarrow> e = IndexError"
  by (auto simp: get_lines_def Let_def split: sum.splits dest!: mapE_Inl_D get_begin_error get_end_error)


section \<open>Malformed geometry\<close>



section \<open>The nearest-neighbour search\<close>

lemma knn_row:
  fixes f :: "nat \<Rightarrow> real"
  assumes "n \<le> m"
  defines "row \<equiv> take n (sort_key f [0..<m])"
  shows "length row = n" and "distinct row" and "set row \<subseteq> {..<m}"
    and "sorted (map f row)"
    and "\<And>i k. i < m \<Longrightarrow> i \<notin> set row \<Longrightarrow> k \<in> set row \<Longrightarrow> f k \<le> f i"
proof -
  let ?s = "sort_key f [0..<m]"
  show "length row = n"
    using assms(1) by (simp add: row_def)
  show "distinct row"
    by (simp add: row_def)
  show "set row \<subseteq> {..<m}"
  proof
    fix x assume "x \<in> set row"
    then have "x \<in> set ?s"
      unfolding row_def by (rule in_set_takeD)
    then show "x \<in> {..<m}" by simp
  qed
  have srt: "sorted (map f (take n ?s @ drop n ?s))"
    by simp
  then show "sorted (map f row)"
    unfolding row_def by (simp only: map_append sorted_append)
  fix i k assume "i < m" and "i \<notin> set row" and "k \<in> set row"
  have "i \<in> set (take n ?s @ drop n ?s)"
    using \<open>i < m\<close> by simp
  then have "i \<in> set (drop n ?s)"
    using \<open>i \<notin> set row\<close> unfolding row_def set_append by blast
  then show "f k \<le> f i"
    using srt \<open>k \<in> set row\<close> unfolding row_def map_append sorted_append by auto
qed

lemma knn_first:
  fixes f :: "nat \<Rightarrow> real"
  assumes "0 < n" and "n \<le> m" and "i < m"
  shows "take n (sort_key f [0..<m]) ! 0 < m"
    and "f (take n (sort_key f [0..<m]) ! 0) \<le> f i"
proof -
  let ?row = "take n (sort_key f [0..<m])"
  have len: "length ?row = n"
    using assms(2) by (rule knn_row(1))
  then have mem: "?row ! 0 \<in> set ?row"
    using assms(1) by (metis nth_mem)
  with knn_row(3) [OF assms(2), of f] show "?row ! 0 < m"
    by blast
  show "f (?row ! 0) \<le> f i"
  proof (cases "i \<in> set ?row")
    case True
    then obtain j where j: "j < n" "?row ! j = i"
      using len by (metis in_set_conv_nth)
    have "sorted (map f ?row)"
      using assms(2) by (rule knn_row(4))
    then have "map f ?row ! 0 \<le> map f ?row ! j"
      using j(1) len by (intro sorted_nth_mono) simp_all
    then show ?thesis
      using j len assms(1) by simp
  next
    case False
    then show ?thesis
      using knn_row(5) [OF assms(2) assms(3) _ mem] by blast
  qed
qed

lemma insort_key_cong_set:
  "(\<And>y. y \<in> set (x # xs) \<Longrightarrow> f y = g y) \<Longrightarrow> insort_key f x xs = insort_key g x xs"
  by (induction xs) auto

lemma sort_key_cong_set:
  "(\<And>y. y \<in> set xs \<Longrightarrow> f y = g y) \<Longrightarrow> sort_key f xs = sort_key g xs"
proof (induction xs)
  case Nil
  then show ?case by simp
next
  case (Cons x xs)
  then have "sort_key f xs = sort_key g xs"
    by simp
  moreover have "insort_key f x (sort_key g xs) = insort_key g x (sort_key g xs)"
    using Cons.prems by (intro insort_key_cong_set) auto
  ultimately show ?case by simp
qed

lemma calculate_neighbors_small:
  "length no_end < 3 \<Longrightarrow> calculate_neighbors no_end no_begin = Inl ValueError"
  by (simp add: calculate_neighbors_def kneighbors_def Let_def)

lemma calculate_neighbors_no_query:
  "calculate_neighbors no_end [] = Inl ValueError"
  by (simp add: calculate_neighbors_def kneighbors_def Let_def)

lemma calculate_neighbors_ok:
  "3 \<le> length no_end \<Longrightarrow> no_begin \<noteq> [] \<Longrightarrow>
   calculate_neighbors no_end no_begin =
     Inr (map (\<lambda>r. take 3 (sort_key (\<lambda>i. euclidean (e_point (no_end ! i)) (b_point r))
                                [0..<length no_end])) no_begin)"
proof -
  assume a: "3 \<le> length no_end" "no_begin \<noteq> []"
  have "sort_key (\<lambda>i. euclidean (map e_point no_end ! i) q) [0..<length no_end] =
        sort_key (\<lambda>i. euclidean (e_point (no_end ! i)) q) [0..<length no_end]" for q
    by (rule sort_key_cong_set) simp
  then show ?thesis
    using a by (auto simp: calculate_neighbors_def kneighbors_def Let_def comp_def)
qed

text \<open>
  Claim C6, as amended. The search asks for three neighbours whatever the size of the
  pool. With at least three lines without end and at least one line without begin it
  returns, for every line without begin, three distinct positions of lines without end,
  nearest first, and no line outside of the three is nearer than one of them. With
  fewer than three lines without end, or no line without begin, it raises
  \<^verbatim>\<open>ValueError\<close>.
\<close>

theorem nearest_candidates_count_and_order:
  "(length no_end < 3 \<or> no_begin = [] \<longrightarrow>
      calculate_neighbors no_end no_begin = Inl ValueError) \<and>
   (3 \<le> length no_end \<and> no_begin \<noteq> [] \<longrightarrow>
      (\<exists>indices. calculate_neighbors no_end no_begin = Inr indices \<and>
         length indices = length no_begin \<and>
         (\<forall>j<length no_begin.
            length (indices ! j) = 3 \<and> distinct (indices ! j) \<and>
            (\<forall>k\<in>set (indices ! j). k < length no_end) \<and>
            sorted (map (\<lambda>i. euclidean (e_point (no_end ! i)) (b_point (no_begin ! j)))
                        (indices ! j)) \<and>
            (\<forall>i<length no_end. i \<notin> set (indices ! j) \<longrightarrow>
               (\<forall>k\<in>set (indices ! j).
                  euclidean (e_point (no_end ! k)) (b_point (no_begin ! j))
                    \<le> euclidean (e_point (no_end ! i)) (b_point (no_begin ! j)))))))"
proof (intro conjI impI)
  assume "length no_end < 3 \<or> no_begin = []"
  then show "calculate_neighbors no_end no_begin = Inl ValueError"
    using calculate_neighbors_small calculate_neighbors_no_query by blast
next
  assume a: "3 \<le> length no_end \<and> no_begin \<noteq> []"
  define row where "row r = take 3 (sort_key (\<lambda>i. euclidean (e_point (no_end ! i)) (b_point r))
                                [0..<length no_end])" for r :: line_row
  have eq: "calculate_neighbors no_end no_begin = Inr (map row no_begin)"
    using a calculate_neighbors_ok [of no_end no_begin] unfolding row_def by simp
  have le: "3 \<le> length no_end"
    using a by simp
  have "length (row r) = 3 \<and> distinct (row r) \<and> (\<forall>k\<in>set (row r). k < length no_end) \<and>
        sorted (map (\<lambda>i. euclidean (e_point (no_end ! i)) (b_point r)) (row r)) \<and>
        (\<forall>i<length no_end. i \<notin> set (row r) \<longrightarrow>
           (\<forall>k\<in>set (row r). euclidean (e_point (no_end ! k)) (b_point r)
                                \<le> euclidean (e_point (no_end ! i)) (b_point r)))" for r
    unfolding row_def
    using knn_row(1-4) [OF le, of "\<lambda>i. euclidean (e_point (no_end ! i)) (b_point r)"]
          knn_row(5) [OF le, of _ "\<lambda>i. euclidean (e_point (no_end ! i)) (b_point r)"]
    by (intro conjI) blast+
  then show "\<exists>indices. calculate_neighbors no_end no_begin = Inr indices \<and>
         length indices = length no_begin \<and>
         (\<forall>j<length no_begin.
            length (indices ! j) = 3 \<and> distinct (indices ! j) \<and>
            (\<forall>k\<in>set (indices ! j). k < length no_end) \<and>
            sorted (map (\<lambda>i. euclidean (e_point (no_end ! i)) (b_point (no_begin ! j)))
                        (indices ! j)) \<and>
            (\<forall>i<length no_end. i \<notin> set (indices ! j) \<longrightarrow>
               (\<forall>k\<in>set (indices ! j).
                  euclidean (e_point (no_end ! k)) (b_point (no_begin ! j))
                    \<le> euclidean (e_point (no_end ! i)) (b_point (no_begin ! j)))))"
    using eq by (intro exI [of _ "map row no_begin"]) simp
qed

theorem nearest_candidates_count_and_order_witness:
  "calculate_neighbors [ex_A, ex_B] [ex_P] = Inl ValueError \<and>
   (\<exists>indices. calculate_neighbors [ex_A, ex_B, ex_C] [ex_P, ex_B, ex_C] = Inr indices \<and>
      length indices = 3 \<and> length (indices ! 2) = 3 \<and> distinct (indices ! 2))"
  using nearest_candidates_count_and_order [of "[ex_A, ex_B]" "[ex_P]"]
        nearest_candidates_count_and_order [of "[ex_A, ex_B, ex_C]" "[ex_P, ex_B, ex_C]"]
  by auto

text \<open>
  With two lines without end the claim asks for two results per line without begin;
  the search raises instead.
\<close>

theorem nearest_candidates_small_pool_counterexample:
  "length [ex_A, ex_B] = 2 \<and> calculate_neighbors [ex_A, ex_B] [ex_P] = Inl ValueError"
  by (simp add: calculate_neighbors_def kneighbors_def Let_def)

section \<open>The example network\<close>

lemmas ex_rows = ex_P_def ex_A_def ex_B_def ex_C_def ex_D_def ex_A_degenerate_def ex_spur_def
lemmas upt3 = upt_rec [of 0] upt_rec [of 1] upt_rec [of 2] upt_rec [of 3]

lemma ex_get_lines:
  "get_lines (read_shp ex_features) = Inr ([ex_A, ex_B, ex_C], [ex_P, ex_B, ex_C])"
  by (simp add: ex_features_def ex_rows read_shp_def get_lines_def boundary_def get_begin_def get_end_def)

lemma ex_degenerate_get_lines:
  "get_lines (read_shp ex_features_degenerate) = Inr ([ex_A_degenerate, ex_B, ex_C], [ex_P, ex_B, ex_C])"
  by (simp add: ex_features_degenerate_def ex_rows read_shp_def get_lines_def boundary_def get_begin_def get_end_def)

lemma ex_ring_get_lines:
  "get_lines (read_shp ex_ring) = Inr ([], [ex_spur])"
  by (simp add: ex_ring_def ex_rows read_shp_def get_lines_def boundary_def get_begin_def get_end_def)

lemma ex_neighbors:
  "calculate_neighbors [ex_A, ex_B, ex_C] [ex_P, ex_B, ex_C] = Inr [[0, 1, 2], [0, 1, 2], [2, 0, 1]]"
  by (simp add: ex_rows calculate_neighbors_def kneighbors_def euclidean_def upt3 Let_def)

lemma ex_candidates:
  "round_candidates [ex_A, ex_B, ex_C] [ex_P, ex_B, ex_C] =
     Inr [\<lparr>e_idx = 1, b_idx = 0, line_geom = [(1, 0), (0, -5)]\<rparr>,
          \<lparr>e_idx = 1, b_idx = 2, line_geom = [(1, 0), (2, 0)]\<rparr>,
          \<lparr>e_idx = 3, b_idx = 3, line_geom = [(0, 11), (0, 10)]\<rparr>]"
  by (simp add: round_candidates_def ex_neighbors first_column_def convert_to_id_def
        generate_artificial_lines_def loc_def)
     (simp add: ex_rows)

lemma ex_cos:
  "calculate_cos [ex_P, ex_B, ex_C]
     [\<lparr>e_idx = 1, b_idx = 0, line_geom = [(1, 0), (0, -5)]\<rparr>,
          \<lparr>e_idx = 1, b_idx = 2, line_geom = [(1, 0), (2, 0)]\<rparr>,
          \<lparr>e_idx = 3, b_idx = 3, line_geom = [(0, 11), (0, 10)]\<rparr>]
      [ex_A, ex_B, ex_C] 5 =
   Inr [\<lparr>e_idx = 1, b_idx = 2, line_geom = [(1, 0), (2, 0)], angle = 0, angle_art = 0\<rparr>]"
  by (simp add: calculate_cos_def groupby_def group_row_def enumerate_eq_zip upt3
        candidate_angles_def loc_def ex_rows AngleBtw2Points_def atan2_def degrees_def accepted_def)

section \<open>A round without target\<close>

lemma loop_body_small_pool:
  "length (lines_no_end s) < 3 \<or> lines_no_begin s = [] \<Longrightarrow>
   loop_body angle_threshold s = Inl ValueError"
  using calculate_neighbors_small calculate_neighbors_no_query
  by (auto simp: loop_body_def round_candidates_def)

text \<open>
  Claim C7, as amended. When a round starts with no line without end, the search raises
  \<^verbatim>\<open>ValueError\<close>: the round ends with this exception and so does the loop.
\<close>

theorem empty_target_pool_raises:
  assumes "lines_no_end s = []"
  shows "loop_body angle_threshold s = Inl ValueError \<and>
         main_loop angle_threshold s = Some (Inl ValueError)"
proof -
  have "loop_body angle_threshold s = Inl ValueError"
    using assms by (intro loop_body_small_pool) simp
  then show ?thesis
    by (simp add: main_loop.simps)
qed

theorem empty_target_pool_raises_witness:
  "lines_no_end (initial_state [] [ex_spur]) = [] \<and>
   loop_body 5 (initial_state [] [ex_spur]) = Inl ValueError \<and>
   main_loop 5 (initial_state [] [ex_spur]) = Some (Inl ValueError)"
  using empty_target_pool_raises [of "initial_state [] [ex_spur]" 5]
  by (simp add: initial_state_def)

text \<open>
  In the ring with a spur no line is without end, so the first round starts with an empty
  target pool; the run ends with the exception, not with an empty result.
\<close>

theorem empty_target_pool_counterexample:
  "get_lines (read_shp ex_ring) = Inr ([], [ex_spur]) \<and>
   main ex_ring 5 = Some (Inl ValueError)"
  by (simp add: main_def ex_ring_get_lines main_loop.simps loop_body_small_pool initial_state_def)

section \<open>The selection within a group\<close>

lemma cos_loop_Fin:
  assumes "cos_loop nb ne (enumerate n grp) (Fin d0, Fin a0, Fin i0) = Inr st"
  shows "(st = (Fin d0, Fin a0, Fin i0) \<and>
          (\<forall>j<length grp. \<exists>d a. candidate_angles nb ne (grp ! j) = Inr (d, a) \<and> d0 \<le> d))
       \<or> (\<exists>k d a. k < length grp \<and> st = (Fin d, Fin a, Fin (n + k)) \<and>
             candidate_angles nb ne (grp ! k) = Inr (d, a) \<and> d < d0 \<and> least_min nb ne grp k d)"
  using assms
proof (induction grp arbitrary: n d0 a0 i0)
  case Nil
  then show ?case by simp
next
  case (Cons c grp)
  from Cons.prems obtain d a where ca: "candidate_angles nb ne c = Inr (d, a)"
    by (auto split: sum.splits)
  show ?case
  proof (cases "d < d0")
    case True
    then have run: "cos_loop nb ne (enumerate (Suc n) grp) (Fin d, Fin a, Fin n) = Inr st"
      using Cons.prems ca by simp
    from Cons.IH [OF run] show ?thesis
    proof
      assume keep: "st = (Fin d, Fin a, Fin n) \<and>
        (\<forall>j<length grp. \<exists>d' a'. candidate_angles nb ne (grp ! j) = Inr (d', a') \<and> d \<le> d')"
      have "least_min nb ne (c # grp) 0 d"
        unfolding least_min_def using keep ca by (auto simp: nth_Cons split: nat.splits)
      then show ?thesis
        using keep ca True by (intro disjI2 exI [of _ 0] exI [of _ d] exI [of _ a]) simp
    next
      assume "\<exists>k d' a'. k < length grp \<and> st = (Fin d', Fin a', Fin (Suc n + k)) \<and>
             candidate_angles nb ne (grp ! k) = Inr (d', a') \<and> d' < d \<and> least_min nb ne grp k d'"
      then obtain k d' a' where k: "k < length grp" "st = (Fin d', Fin a', Fin (Suc n + k))"
        "candidate_angles nb ne (grp ! k) = Inr (d', a')" "d' < d" "least_min nb ne grp k d'"
        by blast
      have "least_min nb ne (c # grp) (Suc k) d'"
        unfolding least_min_def using k(4,5) ca
        by (auto simp: nth_Cons least_min_def split: nat.splits)
      then show ?thesis
        using k True by (intro disjI2 exI [of _ "Suc k"] exI [of _ d'] exI [of _ a']) simp
    qed
  next
    case False
    then have run: "cos_loop nb ne (enumerate (Suc n) grp) (Fin d0, Fin a0, Fin i0) = Inr st"
      using Cons.prems ca by simp
    from Cons.IH [OF run] show ?thesis
    proof
      assume keep: "st = (Fin d0, Fin a0, Fin i0) \<and>
        (\<forall>j<length grp. \<exists>d' a'. candidate_angles nb ne (grp ! j) = Inr (d', a') \<and> d0 \<le> d')"
      then have "\<forall>j<length (c # grp). \<exists>d' a'.
          candidate_angles nb ne ((c # grp) ! j) = Inr (d', a') \<and> d0 \<le> d'"
        using ca False by (auto simp: nth_Cons split: nat.splits)
      then show ?thesis
        using keep by blast
    next
      assume "\<exists>k d' a'. k < length grp \<and> st = (Fin d', Fin a', Fin (Suc n + k)) \<and>
             candidate_angles nb ne (grp ! k) = Inr (d', a') \<and> d' < d0 \<and> least_min nb ne grp k d'"
      then obtain k d' a' where k: "k < length grp" "st = (Fin d', Fin a', Fin (Suc n + k))"
        "candidate_angles nb ne (grp ! k) = Inr (d', a')" "d' < d0" "least_min nb ne grp k d'"
        by blast
      have "least_min nb ne (c # grp) (Suc k) d'"
        unfolding least_min_def using k(4,5) ca False
        by (auto simp: nth_Cons least_min_def split: nat.splits)
      then show ?thesis
        using k by (intro disjI2 exI [of _ "Suc k"] exI [of _ d'] exI [of _ a']) simp
    qed
  qed
qed

lemma cos_loop_Inf:
  assumes "cos_loop nb ne (enumerate 0 grp) (Inf, Inf, Inf) = Inr st" and "grp \<noteq> []"
  shows "\<exists>k d a. k < length grp \<and> st = (Fin d, Fin a, Fin k) \<and>
           candidate_angles nb ne (grp ! k) = Inr (d, a) \<and> least_min nb ne grp k d"
proof -
  from assms(2) obtain c rest where grp: "grp = c # rest"
    by (cases grp) auto
  from assms(1) obtain d a where ca: "candidate_angles nb ne c = Inr (d, a)"
    unfolding grp by (auto split: sum.splits)
  then have run: "cos_loop nb ne (enumerate (Suc 0) rest) (Fin d, Fin a, Fin 0) = Inr st"
    using assms(1) unfolding grp by simp
  from cos_loop_Fin [OF run] show ?thesis
  proof
    assume keep: "st = (Fin d, Fin a, Fin 0) \<and>
        (\<forall>j<length rest. \<exists>d' a'. candidate_angles nb ne (rest ! j) = Inr (d', a') \<and> d \<le> d')"
    have "least_min nb ne (c # rest) 0 d"
      unfolding least_min_def using keep ca by (auto simp: nth_Cons split: nat.splits)
    then show ?thesis
      unfolding grp using keep ca by (intro exI [of _ 0] exI [of _ d] exI [of _ a]) simp
  next
    assume "\<exists>k d' a'. k < length rest \<and> st = (Fin d', Fin a', Fin (Suc 0 + k)) \<and>
             candidate_angles nb ne (rest ! k) = Inr (d', a') \<and> d' < d \<and> least_min nb ne rest k d'"
    then obtain k d' a' where k: "k < length rest" "st = (Fin d', Fin a', Fin (Suc 0 + k))"
        "candidate_angles nb ne (rest ! k) = Inr (d', a')" "d' < d" "least_min nb ne rest k d'"
      by blast
    have "least_min nb ne (c # rest) (Suc k) d'"
      unfolding least_min_def using k(4,5) ca
      by (auto simp: nth_Cons least_min_def split: nat.splits)
    then show ?thesis
      unfolding grp using k by (intro exI [of _ "Suc k"] exI [of _ d'] exI [of _ a']) simp
  qed
qed

lemma cos_loop_total:
  assumes "\<And>c. c \<in> set grp \<Longrightarrow> \<exists>d a. candidate_angles nb ne c = Inr (d, a)"
  shows "\<exists>st. cos_loop nb ne (enumerate n grp) (m, ma, mi) = Inr st"
  using assms
proof (induction grp arbitrary: n m ma mi)
  case Nil
  then show ?case by simp
next
  case (Cons c grp)
  then obtain d a where "candidate_angles nb ne c = Inr (d, a)"
    by (meson list.set_intros(1))
  moreover have "\<exists>st. cos_loop nb ne (enumerate (Suc n) grp) (m', ma', mi') = Inr st" for m' ma' mi'
    using Cons by simp
  ultimately show ?case
    by simp
qed

lemma group_row_Inr:
  assumes "group_row nb ne grp = Inr r"
  shows "\<exists>k<length grp. e_idx r = e_idx (grp ! k) \<and> b_idx r = b_idx (grp ! k) \<and>
           line_geom r = line_geom (grp ! k) \<and>
           candidate_angles nb ne (grp ! k) = Inr (angle r, angle_art r) \<and>
           least_min nb ne grp k (angle r)"
proof -
  from assms obtain st where st: "cos_loop nb ne (enumerate 0 grp) (Inf, Inf, Inf) = Inr st"
    by (auto simp: group_row_def split: sum.splits)
  have "grp \<noteq> []"
    using assms by (auto simp: group_row_def)
  from cos_loop_Inf [OF st this] obtain k d a where k: "k < length grp"
      "st = (Fin d, Fin a, Fin k)" "candidate_angles nb ne (grp ! k) = Inr (d, a)"
      "least_min nb ne grp k d"
    by blast
  have "r = \<lparr>e_idx = e_idx (grp ! k), b_idx = b_idx (grp ! k), line_geom = line_geom (grp ! k),
             angle = d, angle_art = a\<rparr>"
    using assms st k(1,2) by (simp add: group_row_def)
  then show ?thesis
    using k by auto
qed

lemma group_row_total:
  assumes "grp \<noteq> []"
    and "\<And>c. c \<in> set grp \<Longrightarrow> \<exists>d a. candidate_angles nb ne c = Inr (d, a)"
  shows "\<exists>r. group_row nb ne grp = Inr r"
proof -
  obtain st where st: "cos_loop nb ne (enumerate 0 grp) (Inf, Inf, Inf) = Inr st"
    using cos_loop_total [OF assms(2)] by blast
  from cos_loop_Inf [OF st assms(1)] obtain k d a where "k < length grp"
      "st = (Fin d, Fin a, Fin k)"
    by blast
  then show ?thesis
    using st by (simp add: group_row_def)
qed

section \<open>Lookups and the angles of a candidate\<close>

lemma loc_Inr_D: "loc df i = Inr r \<Longrightarrow> r \<in> set df \<and> ident r = i"
  by (auto simp: loc_def find_Some_iff split: option.splits)

lemma loc_error: "loc df i = Inl e \<Longrightarrow> e = KeyError \<and> i \<notin> ident ` set df"
  by (auto simp: loc_def find_None_iff split: option.splits)

lemma loc_found:
  assumes "distinct (map ident df)" and "r \<in> set df"
  shows "loc df (ident r) = Inr r"
proof (cases "loc df (ident r)")
  case (Inl e)
  then show ?thesis
    using assms(2) loc_error by blast
next
  case (Inr r')
  then have "r' \<in> set df" "ident r' = ident r"
    using loc_Inr_D by blast+
  then have "r' = r"
    using assms by (meson distinct_map inj_on_def)
  then show ?thesis
    using Inr by simp
qed

lemma loc_member: "i \<in> ident ` set df \<Longrightarrow> \<exists>r. loc df i = Inr r"
  by (cases "loc df i") (auto dest: loc_error)

lemma candidate_angles_eq:
  assumes "loc ne (e_idx c) = Inr t" and "loc nb (b_idx c) = Inr dst"
    and "2 \<le> length (geometry t)" and "2 \<le> length (geometry dst)" and "2 \<le> length (line_geom c)"
  shows "candidate_angles nb ne c =
           Inr (\<bar>target_bearing t - destination_bearing dst\<bar>,
                \<bar>connector_bearing c - destination_bearing dst\<bar>)"
proof -
  let ?g = "geometry t" and ?h = "geometry dst"
  have l1: "length (drop (length ?g - 2) ?g) = 2" and l2: "length (take 2 ?h) = 2"
    using assms(3,4) by simp_all
  have d0: "drop (length ?g - 2) ?g ! 0 = ?g ! (length ?g - 2)"
    using assms(3) by simp
  have "drop (length ?g - 2) ?g ! 1 = ?g ! (length ?g - 2 + 1)"
    using assms(3) by (intro nth_drop) simp
  moreover have "length ?g - 2 + 1 = length ?g - 1"
    using assms(3) by simp
  ultimately have d1: "drop (length ?g - 2) ?g ! 1 = ?g ! (length ?g - 1)"
    by (simp only:)
  have t0: "take 2 ?h ! 0 = ?h ! 0" and t1: "take 2 ?h ! 1 = ?h ! 1"
    by simp_all
  have "\<not> (length (drop (length ?g - 2) ?g) < 2 \<or> length (take 2 ?h) < 2 \<or> length (line_geom c) < 2)"
    using l1 l2 assms(5) by simp
  then show ?thesis
    unfolding candidate_angles_def Let_def target_bearing_def destination_bearing_def
      connector_bearing_def
    by (simp only: assms(1,2) sum.case if_False d0 d1 t0 t1)
qed

lemma candidate_angles_Inr:
  assumes "candidate_angles nb ne c = Inr (d, a)"
  shows "\<exists>t dst. loc ne (e_idx c) = Inr t \<and> loc nb (b_idx c) = Inr dst \<and>
           2 \<le> length (geometry t) \<and> 2 \<le> length (geometry dst) \<and> 2 \<le> length (line_geom c) \<and>
           d = \<bar>target_bearing t - destination_bearing dst\<bar> \<and>
           a = \<bar>connector_bearing c - destination_bearing dst\<bar>"
proof -
  from assms obtain t where t: "loc ne (e_idx c) = Inr t"
    by (auto simp: candidate_angles_def split: sum.splits)
  from assms t obtain dst where dst: "loc nb (b_idx c) = Inr dst"
    by (auto simp: candidate_angles_def split: sum.splits)
  have len: "2 \<le> length (geometry t)" "2 \<le> length (geometry dst)" "2 \<le> length (line_geom c)"
    using assms t dst by (auto simp: candidate_angles_def Let_def split: if_splits)
  from candidate_angles_eq [OF t dst len] assms
  have "d = \<bar>target_bearing t - destination_bearing dst\<bar>"
    and "a = \<bar>connector_bearing c - destination_bearing dst\<bar>"
    by simp_all
  then show ?thesis
    using t dst len by blast
qed

lemma candidate_angles_total:
  assumes "loc ne (e_idx c) = Inr t" and "loc nb (b_idx c) = Inr dst"
    and "2 \<le> length (geometry t)" and "2 \<le> length (geometry dst)" and "2 \<le> length (line_geom c)"
  shows "\<exists>d a. candidate_angles nb ne c = Inr (d, a)"
  using candidate_angles_eq [OF assms] by blast

section \<open>Groups\<close>

lemma groupby_names: "map fst (groupby df) = sort (remdups (map e_idx df))"
  by (simp add: groupby_def comp_def)

lemma groupby_distinct: "distinct (map fst (groupby df))"
  by (simp add: groupby_names)

lemma groupby_member:
  assumes "(name, grp) \<in> set (groupby df)"
  shows "grp = filter (\<lambda>r. e_idx r = name) df" and "grp \<noteq> []" and "name \<in> e_idx ` set df"
proof -
  show grp: "grp = filter (\<lambda>r. e_idx r = name) df" and name: "name \<in> e_idx ` set df"
    using assms by (auto simp: groupby_def)
  from name obtain c where "c \<in> set df" "e_idx c = name"
    by auto
  then have "c \<in> set grp"
    unfolding grp by simp
  then show "grp \<noteq> []"
    by auto
qed

lemma groupby_covers:
  assumes "c \<in> set df"
  shows "\<exists>grp. (e_idx c, grp) \<in> set (groupby df) \<and> c \<in> set grp"
  using assms by (auto simp: groupby_def intro!: image_eqI [of _ _ "e_idx c"])

lemma groupby_nonempty: "df \<noteq> [] \<Longrightarrow> groupby df \<noteq> []"
  using groupby_covers [of "hd df" df] by (cases df) auto

section \<open>The artificial lines of a round\<close>

lemma mapE_Inr_projr:
  assumes "mapE f xs = Inr ys"
  shows "ys = map (\<lambda>x. projr (f x)) xs" and "\<And>x. x \<in> set xs \<Longrightarrow> \<exists>y. f x = Inr y"
proof -
  show "ys = map (\<lambda>x. projr (f x)) xs"
    using assms by (induction xs arbitrary: ys) (auto split: sum.splits)
  show "\<exists>y. f x = Inr y" if "x \<in> set xs" for x
    using assms that by (induction xs arbitrary: ys) (auto split: sum.splits)
qed

lemma mapE_total:
  assumes "\<And>x. x \<in> set xs \<Longrightarrow> \<exists>y. f x = Inr y"
  shows "\<exists>ys. mapE f xs = Inr ys"
  using assms by (induction xs) (fastforce split: sum.splits)+

lemma generate_artificial_lines_Inr:
  assumes "generate_artificial_lines nbf ne = Inr art"
  shows "art = sort_key (\<lambda>a. (e_idx a, b_idx a))
                 (map (\<lambda>(r, f). connector (projr (loc ne f)) r) nbf)"
    and "\<And>r f. (r, f) \<in> set nbf \<Longrightarrow> \<exists>t. loc ne f = Inr t"
proof -
  define look where "look = (\<lambda>(r :: line_row, f). case loc ne f of Inl e \<Rightarrow> Inl e | Inr t \<Rightarrow> Inr (f, e_point t))"
  define mk :: "(int \<times> point) \<times> (int \<times> point) \<Rightarrow> art_line"
    where "mk = (\<lambda>((bi, bp), (ei, ep)). \<lparr>e_idx = ei, b_idx = bi, line_geom = [ep, bp]\<rparr>)"
  define bps where "bps = map (\<lambda>(r :: line_row, f :: int). (ident r, b_point r)) nbf"
  have gen: "generate_artificial_lines nbf ne =
      (case mapE look nbf of Inl e \<Rightarrow> Inl e
       | Inr end_points \<Rightarrow> Inr (sort_key (\<lambda>a. (e_idx a, b_idx a)) (map mk (zip bps end_points))))"
    unfolding generate_artificial_lines_def Let_def look_def mk_def bps_def ..
  from assms obtain end_points where ep: "mapE look nbf = Inr end_points"
    unfolding gen by (cases "mapE look nbf") simp_all
  have art: "art = sort_key (\<lambda>a. (e_idx a, b_idx a)) (map mk (zip bps end_points))"
    using assms unfolding gen ep by simp
  show found: "\<exists>t. loc ne f = Inr t" if mem: "(r, f) \<in> set nbf" for r f
  proof -
    obtain y where "look (r, f) = Inr y"
      using mapE_Inr_projr(2) [OF ep mem] by blast
    then show ?thesis
      unfolding look_def by (cases "loc ne f") simp_all
  qed
  have "map mk (zip bps (map (\<lambda>x. projr (look x)) xs)) =
        map (\<lambda>(r, f). connector (projr (loc ne f)) r) xs"
    if "set xs \<subseteq> set nbf" and "bps = map (\<lambda>(r :: line_row, f :: int). (ident r, b_point r)) xs" for xs bps
    using that
  proof (induction xs arbitrary: bps)
    case Nil
    then show ?case by simp
  next
    case (Cons x xs)
    obtain r f where rf: "x = (r, f)"
      by (cases x)
    then have "(r, f) \<in> set nbf"
      using Cons.prems(1) by simp
    then obtain t where t: "loc ne f = Inr t"
      using found by blast
    then have "ident t = f"
      using loc_Inr_D by blast
    then have "mk ((ident r, b_point r), projr (look (r, f))) = connector (projr (loc ne f)) r"
      using t by (simp add: mk_def look_def connector_def)
    moreover have "map mk (zip (map (\<lambda>(r, f). (ident r, b_point r)) xs) (map (\<lambda>x. projr (look x)) xs)) =
        map (\<lambda>(r, f). connector (projr (loc ne f)) r) xs"
      using Cons.prems(1) by (intro Cons.IH) simp_all
    ultimately show ?case
      unfolding Cons.prems(2) rf by simp
  qed
  from this [of nbf bps] have "map mk (zip bps (map (\<lambda>x. projr (look x)) nbf)) =
        map (\<lambda>(r, f). connector (projr (loc ne f)) r) nbf"
    by (simp add: bps_def)
  then show "art = sort_key (\<lambda>a. (e_idx a, b_idx a))
                 (map (\<lambda>(r, f). connector (projr (loc ne f)) r) nbf)"
    unfolding art mapE_Inr_projr(1) [OF ep] by simp
qed

lemma generate_artificial_lines_total:
  assumes "\<And>r f. (r, f) \<in> set nbf \<Longrightarrow> f \<in> ident ` set ne"
  shows "\<exists>art. generate_artificial_lines nbf ne = Inr art"
proof -
  let ?look = "\<lambda>(r, f). case loc ne f of Inl e \<Rightarrow> Inl e | Inr t \<Rightarrow> Inr (f, e_point t)"
  have "\<exists>y. ?look x = Inr y" if mem: "x \<in> set nbf" for x
  proof -
    obtain r f where rf: "x = (r, f)"
      by (cases x)
    then have "f \<in> ident ` set ne"
      using assms mem by blast
    then obtain t where "loc ne f = Inr t"
      using loc_member by blast
    then show ?thesis
      using rf by simp
  qed
  then obtain end_points where "mapE ?look nbf = Inr end_points"
    using mapE_total [of nbf ?look] by blast
  then show ?thesis
    by (simp add: generate_artificial_lines_def Let_def)
qed


lemma zip_map_same: "zip xs (map g xs) = map (\<lambda>x. (x, g x)) xs"
  by (induction xs) auto

lemma nearest_pos_props:
  assumes "3 \<le> length ne"
  shows "nearest_pos ne r < length ne"
    and "\<And>i. i < length ne \<Longrightarrow>
           euclidean (e_point (ne ! nearest_pos ne r)) (b_point r)
             \<le> euclidean (e_point (ne ! i)) (b_point r)"
proof -
  have pos: "0 < length ne"
    using assms by linarith
  show "nearest_pos ne r < length ne"
    unfolding nearest_pos_def
    using knn_first(1) [OF _ assms pos, of "\<lambda>i. euclidean (e_point (ne ! i)) (b_point r)"]
    by simp
  show "euclidean (e_point (ne ! nearest_pos ne r)) (b_point r)
          \<le> euclidean (e_point (ne ! i)) (b_point r)" if "i < length ne" for i
    unfolding nearest_pos_def
    using knn_first(2) [OF _ assms that, of "\<lambda>i. euclidean (e_point (ne ! i)) (b_point r)"]
    by simp
qed

lemma first_column_neighbors:
  assumes "3 \<le> length ne" and "nb \<noteq> []"
  shows "\<exists>indices. calculate_neighbors ne nb = Inr indices \<and>
           first_column indices = Inr (map (nearest_pos ne) nb)"
proof -
  define row where "row r = take 3 (sort_key (\<lambda>i. euclidean (e_point (ne ! i)) (b_point r))
                                [0..<length ne])" for r :: line_row
  have eq: "calculate_neighbors ne nb = Inr (map row nb)"
    using calculate_neighbors_ok [OF assms] unfolding row_def by simp
  have len: "length (row r) = 3" for r
    unfolding row_def using assms(1) by (rule knn_row(1))
  have "0 < length x" if "x \<in> set (map row nb)" for x
  proof -
    from that obtain r where "x = row r"
      by auto
    then show ?thesis
      by (simp only: len)
  qed
  then have "first_column (map row nb) = Inr (map (\<lambda>x. x ! 0) (map row nb))"
    unfolding first_column_def by (intro mapE_Inr_map) simp
  also have "map (\<lambda>x. x ! 0) (map row nb) = map (nearest_pos ne) nb"
    by (simp add: row_def nearest_pos_def)
  finally show ?thesis
    using eq by blast
qed

lemma convert_to_id_nearest:
  assumes "3 \<le> length ne"
  shows "convert_to_id (map (nearest_pos ne) nb) ne =
           Inr (map (\<lambda>r. ident (ne ! nearest_pos ne r)) nb)"
proof -
  have "convert_to_id (map (nearest_pos ne) nb) ne =
          Inr (map (\<lambda>x. ident (ne ! x)) (map (nearest_pos ne) nb))"
    unfolding convert_to_id_def using nearest_pos_props(1) [OF assms]
    by (intro mapE_Inr_map) auto
  then show ?thesis
    by (simp add: comp_def)
qed

lemma round_candidates_ok:
  assumes "distinct (map ident ne)" and "3 \<le> length ne" and "nb \<noteq> []"
  shows "round_candidates ne nb =
           Inr (sort_key (\<lambda>a. (e_idx a, b_idx a))
                  (map (\<lambda>r. connector (ne ! nearest_pos ne r) r) nb))"
proof -
  let ?first = "map (\<lambda>r. ident (ne ! nearest_pos ne r)) nb"
  obtain indices where ind: "calculate_neighbors ne nb = Inr indices"
      "first_column indices = Inr (map (nearest_pos ne) nb)"
    using first_column_neighbors [OF assms(2,3)] by blast
  have rc: "round_candidates ne nb = generate_artificial_lines (zip nb ?first) ne"
    by (simp add: round_candidates_def ind convert_to_id_nearest [OF assms(2)])
  have mem: "ne ! nearest_pos ne r \<in> set ne" for r
    using nearest_pos_props(1) [OF assms(2)] by simp
  have "\<exists>art. generate_artificial_lines (zip nb ?first) ne = Inr art"
  proof (rule generate_artificial_lines_total)
    fix r f assume "(r, f) \<in> set (zip nb ?first)"
    then have "f = ident (ne ! nearest_pos ne r)"
      by (auto simp: zip_map_same)
    then show "f \<in> ident ` set ne"
      using mem by blast
  qed
  then obtain art where art: "generate_artificial_lines (zip nb ?first) ne = Inr art"
    by blast
  have "map (\<lambda>(r, f). connector (projr (loc ne f)) r) (zip nb ?first) =
        map (\<lambda>r. connector (ne ! nearest_pos ne r) r) nb"
    unfolding zip_map_same map_map comp_def prod.case loc_found [OF assms(1) mem] sum.sel ..
  then have "art = sort_key (\<lambda>a. (e_idx a, b_idx a))
                  (map (\<lambda>r. connector (ne ! nearest_pos ne r) r) nb)"
    using generate_artificial_lines_Inr(1) [OF art] by (simp only:)
  then show ?thesis
    unfolding rc art by (simp only:)
qed

lemma round_candidates_error:
  assumes "distinct (map ident ne)" and "round_candidates ne nb = Inl e"
  shows "e = ValueError \<and> (length ne < 3 \<or> nb = [])"
proof (cases "length ne < 3 \<or> nb = []")
  case True
  then have "calculate_neighbors ne nb = Inl ValueError"
    using calculate_neighbors_small calculate_neighbors_no_query by blast
  then show ?thesis
    using assms(2) True by (simp add: round_candidates_def)
next
  case False
  then show ?thesis
    using round_candidates_ok [OF assms(1), of nb] assms(2) by simp
qed

lemma round_candidates_first_column:
  assumes "round_candidates ne nb = Inr art"
  shows "\<exists>indices column first. calculate_neighbors ne nb = Inr indices \<and>
           first_column indices = Inr column \<and> convert_to_id column ne = Inr first \<and>
           generate_artificial_lines (zip nb first) ne = Inr art"
  using assms by (auto simp: round_candidates_def split: sum.splits)

section \<open>One candidate per line without begin\<close>




section \<open>The rows that calculate_cos builds\<close>

lemma calculate_cos_Inr:
  assumes "calculate_cos nb art ne thr = Inr filtered"
  shows "\<exists>rows. mapE (\<lambda>(name, grp). group_row nb ne grp) (groupby art) = Inr rows \<and>
           rows \<noteq> [] \<and>
           filtered = filter (accepted thr) (sort_key (\<lambda>r. (e_idx r, b_idx r)) rows)"
  using assms by (auto simp: calculate_cos_def split: sum.splits if_splits)

lemma group_rows_nth:
  assumes "mapE (\<lambda>(name, grp). group_row nb ne grp) (groupby art) = Inr rows"
  shows "length rows = length (groupby art)"
    and "\<And>i. i < length (groupby art) \<Longrightarrow>
           group_row nb ne (snd (groupby art ! i)) = Inr (rows ! i)"
proof -
  from mapE_Inr_D [OF assms]
  have len: "length rows = length (groupby art)"
    and nth: "\<forall>i<length (groupby art).
                (\<lambda>(name, grp). group_row nb ne grp) (groupby art ! i) = Inr (rows ! i)"
    by blast+
  show "length rows = length (groupby art)"
    by (rule len)
  show "group_row nb ne (snd (groupby art ! i)) = Inr (rows ! i)" if "i < length (groupby art)" for i
    using nth that by (simp add: case_prod_beta)
qed

lemma group_rows_member:
  assumes "mapE (\<lambda>(name, grp). group_row nb ne grp) (groupby art) = Inr rows"
  shows "r \<in> set rows \<longleftrightarrow> (\<exists>name grp. (name, grp) \<in> set (groupby art) \<and> group_row nb ne grp = Inr r)"
proof
  assume "r \<in> set rows"
  then obtain i where i: "i < length rows" "rows ! i = r"
    by (auto simp: in_set_conv_nth)
  then have "i < length (groupby art)"
    using group_rows_nth(1) [OF assms] by simp
  then have "group_row nb ne (snd (groupby art ! i)) = Inr r" "groupby art ! i \<in> set (groupby art)"
    using group_rows_nth(2) [OF assms] i(2) by simp_all
  then show "\<exists>name grp. (name, grp) \<in> set (groupby art) \<and> group_row nb ne grp = Inr r"
    by (metis prod.collapse)
next
  assume "\<exists>name grp. (name, grp) \<in> set (groupby art) \<and> group_row nb ne grp = Inr r"
  then obtain name grp where g: "(name, grp) \<in> set (groupby art)" "group_row nb ne grp = Inr r"
    by blast
  then obtain i where i: "i < length (groupby art)" "groupby art ! i = (name, grp)"
    by (auto simp: in_set_conv_nth)
  then have "rows ! i = r"
    using group_rows_nth(2) [OF assms, of i] g(2) by simp
  then show "r \<in> set rows"
    using i(1) group_rows_nth(1) [OF assms] by (metis nth_mem)
qed

lemma group_row_source:
  assumes "(name, grp) \<in> set (groupby art)" and "group_row nb ne grp = Inr r"
  shows "\<exists>c\<in>set art. e_idx c = name \<and> e_idx r = name \<and> b_idx r = b_idx c \<and>
           line_geom r = line_geom c \<and> c \<in> set grp \<and>
           candidate_angles nb ne c = Inr (angle r, angle_art r)"
proof -
  from group_row_Inr [OF assms(2)] obtain k where k: "k < length grp"
      "e_idx r = e_idx (grp ! k)" "b_idx r = b_idx (grp ! k)" "line_geom r = line_geom (grp ! k)"
      "candidate_angles nb ne (grp ! k) = Inr (angle r, angle_art r)"
    by blast
  have "grp ! k \<in> set grp"
    using k(1) by simp
  then have "grp ! k \<in> set art" "e_idx (grp ! k) = name"
    unfolding groupby_member(1) [OF assms(1)] by simp_all
  then show ?thesis
    using k \<open>grp ! k \<in> set grp\<close> by (intro bexI [of _ "grp ! k"]) simp_all
qed

lemma group_rows_e_idx:
  assumes "mapE (\<lambda>(name, grp). group_row nb ne grp) (groupby art) = Inr rows"
  shows "map e_idx rows = map fst (groupby art)"
proof (rule nth_equalityI)
  show "length (map e_idx rows) = length (map fst (groupby art))"
    using group_rows_nth(1) [OF assms] by simp
next
  fix i assume "i < length (map e_idx rows)"
  then have i: "i < length (groupby art)"
    using group_rows_nth(1) [OF assms] by simp
  then have "(fst (groupby art ! i), snd (groupby art ! i)) \<in> set (groupby art)"
    by simp
  from group_row_source [OF this group_rows_nth(2) [OF assms i]]
  have "e_idx (rows ! i) = fst (groupby art ! i)"
    by blast
  then show "map e_idx rows ! i = map fst (groupby art) ! i"
    using i group_rows_nth(1) [OF assms] by simp
qed

lemma group_rows_distinct_e_idx:
  assumes "mapE (\<lambda>(name, grp). group_row nb ne grp) (groupby art) = Inr rows"
  shows "distinct (map e_idx rows)"
  unfolding group_rows_e_idx [OF assms] by (rule groupby_distinct)

lemma group_rows_distinct_b_idx:
  assumes "mapE (\<lambda>(name, grp). group_row nb ne grp) (groupby art) = Inr rows"
    and "distinct (map b_idx art)"
  shows "distinct (map b_idx rows)"
proof -
  have inj: "inj_on b_idx (set art)"
    using assms(2) by (simp add: distinct_map)
  have "i = j" if i: "i < length rows" and j: "j < length rows"
    and eq: "b_idx (rows ! i) = b_idx (rows ! j)" for i j
  proof -
    have li: "i < length (groupby art)" and lj: "j < length (groupby art)"
      using i j group_rows_nth(1) [OF assms(1)] by simp_all
    have gi: "(fst (groupby art ! i), snd (groupby art ! i)) \<in> set (groupby art)"
      and gj: "(fst (groupby art ! j), snd (groupby art ! j)) \<in> set (groupby art)"
      using li lj by simp_all
    from group_row_source [OF gi group_rows_nth(2) [OF assms(1) li]]
    obtain c where c: "c \<in> set art" "e_idx c = fst (groupby art ! i)" "b_idx (rows ! i) = b_idx c"
      by blast
    from group_row_source [OF gj group_rows_nth(2) [OF assms(1) lj]]
    obtain c' where c': "c' \<in> set art" "e_idx c' = fst (groupby art ! j)" "b_idx (rows ! j) = b_idx c'"
      by blast
    have "c = c'"
      using inj c(1,3) c'(1,3) eq by (simp add: inj_on_def)
    then have "map fst (groupby art) ! i = map fst (groupby art) ! j"
      using c(2) c'(2) li lj by simp
    then show "i = j"
      using groupby_distinct [of art] li lj by (simp add: nth_eq_iff_index_eq del: nth_map)
  qed
  then show ?thesis
    unfolding distinct_conv_nth by (metis length_map nth_map)
qed

lemma calculate_cos_total:
  assumes "art \<noteq> []"
    and "\<And>c. c \<in> set art \<Longrightarrow> \<exists>d a. candidate_angles nb ne c = Inr (d, a)"
  shows "\<exists>filtered. calculate_cos nb art ne thr = Inr filtered"
proof -
  have "\<exists>y. (\<lambda>(name, grp). group_row nb ne grp) x = Inr y" if mem: "x \<in> set (groupby art)" for x
  proof -
    obtain name grp where x: "x = (name, grp)"
      by (cases x)
    have "grp \<noteq> []" "set grp \<subseteq> set art"
      using groupby_member(1,2) [of name grp art] mem x by auto
    then have "\<exists>r. group_row nb ne grp = Inr r"
      using assms(2) by (intro group_row_total) auto
    then show ?thesis
      using x by simp
  qed
  then obtain rows where rows: "mapE (\<lambda>(name, grp). group_row nb ne grp) (groupby art) = Inr rows"
    using mapE_total [of "groupby art" "\<lambda>(name, grp). group_row nb ne grp"] by blast
  have "length rows = length (groupby art)"
    using group_rows_nth(1) [OF rows] .
  then have "rows \<noteq> []"
    using groupby_nonempty [OF assms(1)] by auto
  then show ?thesis
    using rows by (simp add: calculate_cos_def)
qed

lemma filtered_subset_rows:
  assumes "filtered = filter (accepted thr) (sort_key (\<lambda>r. (e_idx r, b_idx r)) rows)"
  shows "set filtered = {r \<in> set rows. accepted thr r}"
    and "distinct (map e_idx rows) \<Longrightarrow> distinct (map e_idx filtered)"
    and "distinct (map b_idx rows) \<Longrightarrow> distinct (map b_idx filtered)"
proof -
  show "set filtered = {r \<in> set rows. accepted thr r}"
    unfolding assms by auto
  have perm: "mset (map f (sort_key (\<lambda>r. (e_idx r, b_idx r)) rows)) = mset (map f rows)"
    for f :: "filtered_line \<Rightarrow> int"
    by simp
  show "distinct (map e_idx filtered)" if "distinct (map e_idx rows)"
  proof -
    have "distinct (map e_idx (sort_key (\<lambda>r. (e_idx r, b_idx r)) rows))"
      using that perm [of e_idx] by (metis mset_eq_imp_distinct_iff)
    then show ?thesis
      unfolding assms by (rule distinct_map_filter)
  qed
  show "distinct (map b_idx filtered)" if "distinct (map b_idx rows)"
  proof -
    have "distinct (map b_idx (sort_key (\<lambda>r. (e_idx r, b_idx r)) rows))"
      using that perm [of b_idx] by (metis mset_eq_imp_distinct_iff)
    then show ?thesis
      unfolding assms by (rule distinct_map_filter)
  qed
qed

section \<open>Bearings\<close>

lemma bearing_east: "AngleBtw2Points (x, y) (x + 1, y) = 0"
  by (simp add: AngleBtw2Points_def atan2_def degrees_def)

lemma bearing_south: "AngleBtw2Points (0, 0) (0, - 1) = - 90"
  by (simp add: AngleBtw2Points_def atan2_def degrees_def)

lemma bearing_same_point: "AngleBtw2Points p p = 0"
  by (simp add: AngleBtw2Points_def atan2_def degrees_def)

section \<open>The choice within a group\<close>

text \<open>
  Claim C2. For a group that is not empty and whose candidates all have their two lines
  in the pools, with at least two coordinates each, the filter builds exactly one row.
  The row is a candidate of the group whose difference between the bearing of the last
  segment of the target line and the bearing of the first segment of its destination
  line is minimal in the group; the row records this difference as \<open>angle\<close> and the
  difference between the bearing of the connector and the bearing of the destination
  line, for the same candidate, as \<open>angle_art\<close>. The bearing is the raw value of
  \<open>degrees (atan2 dy dx)\<close>, which can be negative.
\<close>

theorem group_selects_minimal_angle:
  assumes "grp \<noteq> []"
    and "\<forall>c\<in>set grp. \<exists>d a. candidate_angles no_begin no_end c = Inr (d, a)"
  shows "\<exists>r k. group_row no_begin no_end grp = Inr r \<and> k < length grp \<and>
           e_idx r = e_idx (grp ! k) \<and> b_idx r = b_idx (grp ! k) \<and>
           line_geom r = line_geom (grp ! k) \<and>
           (\<exists>t dst. loc no_end (e_idx (grp ! k)) = Inr t \<and>
              loc no_begin (b_idx (grp ! k)) = Inr dst \<and>
              angle r = \<bar>target_bearing t - destination_bearing dst\<bar> \<and>
              angle_art r = \<bar>connector_bearing (grp ! k) - destination_bearing dst\<bar>) \<and>
           (\<forall>c\<in>set grp. \<exists>t dst. loc no_end (e_idx c) = Inr t \<and>
              loc no_begin (b_idx c) = Inr dst \<and>
              angle r \<le> \<bar>target_bearing t - destination_bearing dst\<bar>) \<and>
           (\<forall>p q. AngleBtw2Points p q = degrees (atan2 (snd q - snd p) (fst q - fst p))) \<and>
           AngleBtw2Points (0, 0) (0, - 1) = - 90"
proof -
  obtain r where r: "group_row no_begin no_end grp = Inr r"
    using group_row_total [OF assms(1)] assms(2) by blast
  from group_row_Inr [OF r] obtain k where k: "k < length grp"
      "e_idx r = e_idx (grp ! k)" "b_idx r = b_idx (grp ! k)" "line_geom r = line_geom (grp ! k)"
      "candidate_angles no_begin no_end (grp ! k) = Inr (angle r, angle_art r)"
      "least_min no_begin no_end grp k (angle r)"
    by blast
  from candidate_angles_Inr [OF k(5)]
  have chosen: "\<exists>t dst. loc no_end (e_idx (grp ! k)) = Inr t \<and>
              loc no_begin (b_idx (grp ! k)) = Inr dst \<and>
              angle r = \<bar>target_bearing t - destination_bearing dst\<bar> \<and>
              angle_art r = \<bar>connector_bearing (grp ! k) - destination_bearing dst\<bar>"
    by blast
  have minimal: "\<exists>t dst. loc no_end (e_idx c) = Inr t \<and> loc no_begin (b_idx c) = Inr dst \<and>
              angle r \<le> \<bar>target_bearing t - destination_bearing dst\<bar>" if "c \<in> set grp" for c
  proof -
    from that obtain j where j: "j < length grp" "grp ! j = c"
      by (auto simp: in_set_conv_nth)
    then obtain d' a' where d': "candidate_angles no_begin no_end c = Inr (d', a')" "angle r \<le> d'"
      using k(6) unfolding least_min_def by blast
    from candidate_angles_Inr [OF d'(1)] d'(2) show ?thesis
      by blast
  qed
  have "\<forall>p q. AngleBtw2Points p q = degrees (atan2 (snd q - snd p) (fst q - fst p))"
    by (simp add: AngleBtw2Points_def)
  then show ?thesis
    using r k(1-4) chosen minimal bearing_south by blast
qed


lemma ex_angles_P:
  "candidate_angles [ex_P, ex_B, ex_C] [ex_A, ex_B, ex_C]
     \<lparr>e_idx = 1, b_idx = 0, line_geom = [(1, 0), (0, - 5)]\<rparr> =
   Inr (90, \<bar>(arctan 5 - pi) * (180 / pi) - 90\<bar>)"
  by (simp add: candidate_angles_def loc_def ex_rows AngleBtw2Points_def atan2_def degrees_def)

lemma ex_angles_B:
  "candidate_angles [ex_P, ex_B, ex_C] [ex_A, ex_B, ex_C]
     \<lparr>e_idx = 1, b_idx = 2, line_geom = [(1, 0), (2, 0)]\<rparr> = Inr (0, 0)"
  by (simp add: candidate_angles_def loc_def ex_rows AngleBtw2Points_def atan2_def degrees_def)

lemma ex_group_row:
  "group_row [ex_P, ex_B, ex_C] [ex_A, ex_B, ex_C]
     [\<lparr>e_idx = 1, b_idx = 0, line_geom = [(1, 0), (0, - 5)]\<rparr>,
      \<lparr>e_idx = 1, b_idx = 2, line_geom = [(1, 0), (2, 0)]\<rparr>] = Inr ex_A_to_B"
  by (simp add: group_row_def enumerate_eq_zip upt3 ex_angles_P ex_angles_B ex_A_to_B_def)

theorem group_selects_minimal_angle_witness:
  "\<exists>r. group_row [ex_P, ex_B, ex_C] [ex_A, ex_B, ex_C]
            [\<lparr>e_idx = 1, b_idx = 0, line_geom = [(1, 0), (0, - 5)]\<rparr>,
             \<lparr>e_idx = 1, b_idx = 2, line_geom = [(1, 0), (2, 0)]\<rparr>] = Inr r \<and>
          r = ex_A_to_B \<and> b_idx r = 2 \<and> angle r = 0 \<and> angle_art r = 0"
proof -
  let ?grp = "[\<lparr>e_idx = 1, b_idx = 0, line_geom = [(1, 0), (0, - 5)]\<rparr>,
               \<lparr>e_idx = 1, b_idx = 2, line_geom = [(1, 0), (2, 0)]\<rparr>]"
  have h1: "?grp \<noteq> []"
    by simp
  have h2: "\<forall>c\<in>set ?grp. \<exists>d a.
              candidate_angles [ex_P, ex_B, ex_C] [ex_A, ex_B, ex_C] c = Inr (d, a)"
    by (simp add: ex_angles_P ex_angles_B)
  from group_selects_minimal_angle [OF h1 h2] obtain r k where
      "group_row [ex_P, ex_B, ex_C] [ex_A, ex_B, ex_C] ?grp = Inr r" "k < length ?grp"
    by blast
  then show ?thesis
    by (auto simp: ex_group_row ex_A_to_B_def)
qed

section \<open>Ties\<close>










section \<open>Dropping matched lines\<close>

lemma drop_rows_Inr:
  assumes "drop_rows labels df = Inr df'"
  shows "df' = filter (\<lambda>r. ident r \<notin> set labels) df" and "set labels \<subseteq> ident ` set df"
  using assms by (auto simp: drop_rows_def split: if_splits)

lemma drop_rows_total:
  assumes "set labels \<subseteq> ident ` set df"
  shows "drop_rows labels df = Inr (filter (\<lambda>r. ident r \<notin> set labels) df)"
  using assms by (auto simp: drop_rows_def)

lemma drop_rows_shorter:
  assumes "set labels \<subseteq> ident ` set df" and "labels \<noteq> []"
  shows "length (filter (\<lambda>r. ident r \<notin> set labels) df) < length df"
proof -
  obtain l where "l \<in> set labels"
    using assms(2) by (cases labels) auto
  then obtain r where "r \<in> set df" "ident r \<in> set labels"
    using assms(1) by auto
  then show ?thesis
    by (intro length_filter_less [of r]) simp_all
qed

lemma drop_rows_length:
  assumes "distinct (map ident df)" and "distinct labels" and "set labels \<subseteq> ident ` set df"
  shows "length (filter (\<lambda>r. ident r \<notin> set labels) df) + length labels = length df"
proof -
  have inj: "inj_on ident (set df)" and dist: "distinct df"
    using assms(1) by (simp_all add: distinct_map)
  have img: "ident ` {r \<in> set df. ident r \<in> set labels} = set labels"
    using assms(3) by auto
  have "length (filter (\<lambda>r. ident r \<in> set labels) df) = card {r \<in> set df. ident r \<in> set labels}"
    using dist by (simp add: distinct_length_filter Int_def conj_commute)
  also have "\<dots> = card (ident ` {r \<in> set df. ident r \<in> set labels})"
    using inj by (intro card_image [symmetric]) (auto simp: inj_on_def)
  also have "\<dots> = length labels"
    unfolding img using assms(2) by (rule distinct_card)
  finally have "length (filter (\<lambda>r. ident r \<in> set labels) df) = length labels" .
  moreover have "length (filter (\<lambda>r. ident r \<in> set labels) df) +
      length (filter (\<lambda>r. \<not> ident r \<in> set labels) df) = length df"
    by (rule sum_length_filter_compl)
  ultimately show ?thesis
    by simp
qed

section \<open>One pass of the loop\<close>

lemma loop_body_Inr:
  assumes "loop_body thr s = Inr (s', f, stop)"
  shows "\<exists>art. round_candidates (lines_no_end s) (lines_no_begin s) = Inr art \<and>
           calculate_cos (lines_no_begin s) art (lines_no_end s) thr = Inr f"
    and "result_lines s' = result_lines s @ f"
    and "lines_no_begin s' = filter (\<lambda>r. ident r \<notin> set (map b_idx f)) (lines_no_begin s)"
    and "lines_no_end s' = filter (\<lambda>r. ident r \<notin> set (map e_idx f)) (lines_no_end s)"
    and "set (map b_idx f) \<subseteq> ident ` set (lines_no_begin s)"
    and "set (map e_idx f) \<subseteq> ident ` set (lines_no_end s)"
    and "stop \<longleftrightarrow> \<bar>int (previous_result_length s) - int (length (result_lines s @ f))\<bar> < 5"
    and "previous_result_length s' =
           (if stop then previous_result_length s else length (result_lines s'))"
proof -
  from assms obtain art where art: "round_candidates (lines_no_end s) (lines_no_begin s) = Inr art"
    unfolding loop_body_def by (cases "round_candidates (lines_no_end s) (lines_no_begin s)") simp_all
  from assms art obtain f' where f': "calculate_cos (lines_no_begin s) art (lines_no_end s) thr = Inr f'"
    unfolding loop_body_def
    by (cases "calculate_cos (lines_no_begin s) art (lines_no_end s) thr") simp_all
  from assms art f' obtain nb' where nb': "drop_rows (map b_idx f') (lines_no_begin s) = Inr nb'"
    unfolding loop_body_def
    by (cases "drop_rows (map b_idx f') (lines_no_begin s)") simp_all
  from assms art f' nb' obtain ne' where ne': "drop_rows (map e_idx f') (lines_no_end s) = Inr ne'"
    unfolding loop_body_def
    by (cases "drop_rows (map e_idx f') (lines_no_end s)") simp_all
  have eq: "(s', f, stop) =
      (\<lparr>result_lines = result_lines s @ f',
         previous_result_length =
           (if \<bar>int (previous_result_length s) - int (length (result_lines s @ f'))\<bar> < 5
            then previous_result_length s else length (result_lines s @ f')),
         lines_no_end = ne', lines_no_begin = nb'\<rparr>,
       f', \<bar>int (previous_result_length s) - int (length (result_lines s @ f'))\<bar> < 5)"
    using assms art f' nb' ne' by (auto simp: loop_body_def Let_def)
  then have f: "f = f'"
    by simp
  show "\<exists>art. round_candidates (lines_no_end s) (lines_no_begin s) = Inr art \<and>
           calculate_cos (lines_no_begin s) art (lines_no_end s) thr = Inr f"
    using art f' f by blast
  show "result_lines s' = result_lines s @ f"
    using eq f by simp
  show "lines_no_begin s' = filter (\<lambda>r. ident r \<notin> set (map b_idx f)) (lines_no_begin s)"
    using eq f drop_rows_Inr(1) [OF nb'] by simp
  show "lines_no_end s' = filter (\<lambda>r. ident r \<notin> set (map e_idx f)) (lines_no_end s)"
    using eq f drop_rows_Inr(1) [OF ne'] by simp
  show "set (map b_idx f) \<subseteq> ident ` set (lines_no_begin s)"
    using f drop_rows_Inr(2) [OF nb'] by simp
  show "set (map e_idx f) \<subseteq> ident ` set (lines_no_end s)"
    using f drop_rows_Inr(2) [OF ne'] by simp
  show "stop \<longleftrightarrow> \<bar>int (previous_result_length s) - int (length (result_lines s @ f))\<bar> < 5"
    using eq f by simp
  show "previous_result_length s' =
           (if stop then previous_result_length s else length (result_lines s'))"
    using eq f by simp
qed

lemma loop_body_accepted:
  assumes "loop_body thr s = Inr (s', f, stop)"
  shows "\<forall>r\<in>set f. accepted thr r" and "distinct (map e_idx f)"
proof -
  from loop_body_Inr(1) [OF assms] obtain art where
    cc: "calculate_cos (lines_no_begin s) art (lines_no_end s) thr = Inr f"
    by blast
  from calculate_cos_Inr [OF cc] obtain rows where
    rows: "mapE (\<lambda>(name, grp). group_row (lines_no_begin s) (lines_no_end s) grp) (groupby art) = Inr rows"
      "f = filter (accepted thr) (sort_key (\<lambda>r. (e_idx r, b_idx r)) rows)"
    by blast
  show "\<forall>r\<in>set f. accepted thr r"
    using filtered_subset_rows(1) [OF rows(2)] by blast
  show "distinct (map e_idx f)"
    using filtered_subset_rows(2) [OF rows(2)] group_rows_distinct_e_idx [OF rows(1)] by blast
qed

lemma round_candidates_Inr:
  assumes "distinct (map ident ne)" and "round_candidates ne nb = Inr art"
  shows "3 \<le> length ne" and "nb \<noteq> []"
    and "art = sort_key (\<lambda>a. (e_idx a, b_idx a))
                  (map (\<lambda>r. connector (ne ! nearest_pos ne r) r) nb)"
proof -
  have "\<not> (length ne < 3 \<or> nb = [])"
  proof
    assume "length ne < 3 \<or> nb = []"
    then have "calculate_neighbors ne nb = Inl ValueError"
      using calculate_neighbors_small calculate_neighbors_no_query by blast
    then show False
      using assms(2) by (simp add: round_candidates_def)
  qed
  then show "3 \<le> length ne" and "nb \<noteq> []"
    by simp_all
  then show "art = sort_key (\<lambda>a. (e_idx a, b_idx a))
                  (map (\<lambda>r. connector (ne ! nearest_pos ne r) r) nb)"
    using round_candidates_ok [OF assms(1)] assms(2) by simp
qed

lemma round_candidates_b_idx:
  assumes "distinct (map ident ne)" and "round_candidates ne nb = Inr art"
  shows "mset (map b_idx art) = mset (map ident nb)"
proof -
  have "mset art = mset (map (\<lambda>r. connector (ne ! nearest_pos ne r) r) nb)"
    unfolding round_candidates_Inr(3) [OF assms] by simp
  then have "mset (map b_idx art) =
        mset (map b_idx (map (\<lambda>r. connector (ne ! nearest_pos ne r) r) nb))"
    by (metis mset_map)
  also have "map b_idx (map (\<lambda>r. connector (ne ! nearest_pos ne r) r) nb) = map ident nb"
    by (simp add: connector_def)
  finally show ?thesis .
qed

lemma round_candidates_member:
  assumes "distinct (map ident ne)" and "round_candidates ne nb = Inr art" and "c \<in> set art"
  shows "\<exists>t\<in>set ne. \<exists>r\<in>set nb. c = connector t r"
proof -
  have "c \<in> set (map (\<lambda>r. connector (ne ! nearest_pos ne r) r) nb)"
    using assms(3) unfolding round_candidates_Inr(3) [OF assms(1,2)] by simp
  then obtain r where r: "r \<in> set nb" "c = connector (ne ! nearest_pos ne r) r"
    by auto
  have "ne ! nearest_pos ne r \<in> set ne"
    using nearest_pos_props(1) [OF round_candidates_Inr(1) [OF assms(1,2)]] by simp
  then show ?thesis
    using r by blast
qed

section \<open>Rounds on well-formed pools\<close>

lemma well_formed_pools_filter:
  assumes "well_formed_pools ne nb"
  shows "well_formed_pools (filter P ne) (filter Q nb)"
  using assms unfolding well_formed_pools_def by (auto intro: distinct_map_filter)

lemma calculate_cos_source:
  assumes "calculate_cos nb art ne thr = Inr f" and "r \<in> set f"
  shows "\<exists>c\<in>set art. e_idx r = e_idx c \<and> b_idx r = b_idx c \<and> line_geom r = line_geom c \<and>
           candidate_angles nb ne c = Inr (angle r, angle_art r)"
proof -
  from calculate_cos_Inr [OF assms(1)] obtain rows where
    rows: "mapE (\<lambda>(name, grp). group_row nb ne grp) (groupby art) = Inr rows"
      "f = filter (accepted thr) (sort_key (\<lambda>r. (e_idx r, b_idx r)) rows)"
    by blast
  have "r \<in> set rows"
    using filtered_subset_rows(1) [OF rows(2)] assms(2) by blast
  then obtain name grp where "(name, grp) \<in> set (groupby art)" "group_row nb ne grp = Inr r"
    using group_rows_member [OF rows(1)] by blast
  from group_row_source [OF this] show ?thesis
    by blast
qed

lemma loop_body_distinct_b_idx:
  assumes "distinct (map ident (lines_no_end s))" and "distinct (map ident (lines_no_begin s))"
    and "loop_body thr s = Inr (s', f, stop)"
  shows "distinct (map b_idx f)"
proof -
  from loop_body_Inr(1) [OF assms(3)] obtain art where
    art: "round_candidates (lines_no_end s) (lines_no_begin s) = Inr art"
    and cc: "calculate_cos (lines_no_begin s) art (lines_no_end s) thr = Inr f"
    by blast
  have "distinct (map b_idx art)"
    using round_candidates_b_idx [OF assms(1) art] assms(2) by (metis mset_eq_imp_distinct_iff)
  from calculate_cos_Inr [OF cc] obtain rows where
    rows: "mapE (\<lambda>(name, grp). group_row (lines_no_begin s) (lines_no_end s) grp) (groupby art) = Inr rows"
      "f = filter (accepted thr) (sort_key (\<lambda>r. (e_idx r, b_idx r)) rows)"
    by blast
  show ?thesis
    using filtered_subset_rows(3) [OF rows(2)]
      group_rows_distinct_b_idx [OF rows(1) \<open>distinct (map b_idx art)\<close>] by blast
qed

lemma connector_angles_total:
  assumes "well_formed_pools ne nb" and "t \<in> set ne" and "r \<in> set nb"
  shows "\<exists>d a. candidate_angles nb ne (connector t r) = Inr (d, a)"
proof -
  have "loc ne (e_idx (connector t r)) = Inr t" "loc nb (b_idx (connector t r)) = Inr r"
    using assms loc_found unfolding well_formed_pools_def by (simp_all add: connector_def)
  moreover have "2 \<le> length (geometry t)" "2 \<le> length (geometry r)"
    using assms unfolding well_formed_pools_def by auto
  moreover have "2 \<le> length (line_geom (connector t r))"
    by (simp add: connector_def)
  ultimately show ?thesis
    by (rule candidate_angles_total)
qed

lemma loop_body_total:
  assumes "well_formed_pools (lines_no_end s) (lines_no_begin s)"
    and "3 \<le> length (lines_no_end s)" and "lines_no_begin s \<noteq> []"
  shows "\<exists>s' f stop. loop_body thr s = Inr (s', f, stop)"
proof -
  let ?ne = "lines_no_end s" and ?nb = "lines_no_begin s"
  have dist: "distinct (map ident ?ne)"
    using assms(1) unfolding well_formed_pools_def by simp
  obtain art where art: "round_candidates ?ne ?nb = Inr art"
    using round_candidates_ok [OF dist assms(2,3)] by blast
  have members: "\<exists>t\<in>set ?ne. \<exists>r\<in>set ?nb. c = connector t r" if "c \<in> set art" for c
    using round_candidates_member [OF dist art that] .
  have "length art = length ?nb"
    unfolding round_candidates_Inr(3) [OF dist art] by simp
  then have "art \<noteq> []"
    using assms(3) by auto
  moreover have "\<exists>d a. candidate_angles ?nb ?ne c = Inr (d, a)" if "c \<in> set art" for c
    using members [OF that] connector_angles_total [OF assms(1)] by blast
  ultimately obtain f where f: "calculate_cos ?nb art ?ne thr = Inr f"
    using calculate_cos_total [of art ?nb ?ne thr] by blast
  have ids: "e_idx r \<in> ident ` set ?ne \<and> b_idx r \<in> ident ` set ?nb" if "r \<in> set f" for r
  proof -
    from calculate_cos_source [OF f that] obtain c where
      c: "c \<in> set art" "e_idx r = e_idx c" "b_idx r = b_idx c"
      by blast
    from members [OF c(1)] obtain t r' where "t \<in> set ?ne" "r' \<in> set ?nb" "c = connector t r'"
      by blast
    then show ?thesis
      using c(2,3) by (simp add: connector_def)
  qed
  have "drop_rows (map b_idx f) ?nb = Inr (filter (\<lambda>r. ident r \<notin> set (map b_idx f)) ?nb)"
    using ids by (intro drop_rows_total) auto
  moreover have "drop_rows (map e_idx f) ?ne = Inr (filter (\<lambda>r. ident r \<notin> set (map e_idx f)) ?ne)"
    using ids by (intro drop_rows_total) auto
  ultimately show ?thesis
    using art f by (simp add: loop_body_def Let_def)
qed

lemma loop_body_error:
  assumes "well_formed_pools (lines_no_end s) (lines_no_begin s)" and "loop_body thr s = Inl e"
  shows "e = ValueError \<and> (length (lines_no_end s) < 3 \<or> lines_no_begin s = [])"
proof (cases "length (lines_no_end s) < 3 \<or> lines_no_begin s = []")
  case True
  then show ?thesis
    using loop_body_small_pool [of s thr] assms(2) by simp
next
  case False
  then show ?thesis
    using loop_body_total [OF assms(1), of thr] assms(2) by auto
qed

lemma matched_once_step:
  assumes "matched_once s" and "loop_body thr s = Inr (s', f, stop)"
  shows "matched_once s'"
proof -
  note body = loop_body_Inr [OF assms(2)]
  have wf: "well_formed_pools (lines_no_end s) (lines_no_begin s)"
    and de: "distinct (map e_idx (result_lines s))" and db: "distinct (map b_idx (result_lines s))"
    and ie: "e_idx ` set (result_lines s) \<inter> ident ` set (lines_no_end s) = {}"
    and ib: "b_idx ` set (result_lines s) \<inter> ident ` set (lines_no_begin s) = {}"
    using assms(1) unfolding matched_once_def by simp_all
  have fe: "distinct (map e_idx f)"
    using loop_body_accepted(2) [OF assms(2)] .
  have fb: "distinct (map b_idx f)"
    using wf loop_body_distinct_b_idx [OF _ _ assms(2)] unfolding well_formed_pools_def by simp
  have "well_formed_pools (lines_no_end s') (lines_no_begin s')"
    unfolding body(3,4) using wf by (rule well_formed_pools_filter)
  moreover have "distinct (map e_idx (result_lines s'))"
  proof -
    have "e_idx ` set (result_lines s) \<inter> e_idx ` set f = {}"
      using ie body(6) by fastforce
    then show ?thesis
      unfolding body(2) using de fe by simp
  qed
  moreover have "distinct (map b_idx (result_lines s'))"
  proof -
    have "b_idx ` set (result_lines s) \<inter> b_idx ` set f = {}"
      using ib body(5) by fastforce
    then show ?thesis
      unfolding body(2) using db fb by simp
  qed
  moreover have "e_idx ` set (result_lines s') \<inter> ident ` set (lines_no_end s') = {}"
  proof -
    have False if x: "x \<in> set (result_lines s @ f)"
      and y: "y \<in> set (filter (\<lambda>r. ident r \<notin> set (map e_idx f)) (lines_no_end s))"
      and eq: "e_idx x = ident y" for x y
    proof (cases "x \<in> set f")
      case True
      then have "e_idx x \<in> set (map e_idx f)"
        by simp
      moreover have "ident y \<notin> set (map e_idx f)"
        using y by simp
      ultimately show False
        using eq by simp
    next
      case False
      then have "e_idx x \<in> e_idx ` set (result_lines s)"
        using x by simp
      moreover have "ident y \<in> ident ` set (lines_no_end s)"
        using y by simp
      ultimately show False
        using ie eq by (metis disjoint_iff)
    qed
    then show ?thesis
      unfolding body(2,4) by blast
  qed
  moreover have "b_idx ` set (result_lines s') \<inter> ident ` set (lines_no_begin s') = {}"
  proof -
    have False if x: "x \<in> set (result_lines s @ f)"
      and y: "y \<in> set (filter (\<lambda>r. ident r \<notin> set (map b_idx f)) (lines_no_begin s))"
      and eq: "b_idx x = ident y" for x y
    proof (cases "x \<in> set f")
      case True
      then have "b_idx x \<in> set (map b_idx f)"
        by simp
      moreover have "ident y \<notin> set (map b_idx f)"
        using y by simp
      ultimately show False
        using eq by simp
    next
      case False
      then have "b_idx x \<in> b_idx ` set (result_lines s)"
        using x by simp
      moreover have "ident y \<in> ident ` set (lines_no_begin s)"
        using y by simp
      ultimately show False
        using ib eq by (metis disjoint_iff)
    qed
    then show ?thesis
      unfolding body(2,3) by blast
  qed
  ultimately show ?thesis
    unfolding matched_once_def by simp
qed

lemma loop_body_pool_sizes:
  assumes "matched_once s" and "loop_body thr s = Inr (s', f, stop)"
  shows "length (lines_no_end s') + length f = length (lines_no_end s)"
    and "length (lines_no_begin s') + length f = length (lines_no_begin s)"
proof -
  note body = loop_body_Inr [OF assms(2)]
  have wf: "distinct (map ident (lines_no_end s))" "distinct (map ident (lines_no_begin s))"
    using assms(1) unfolding matched_once_def well_formed_pools_def by simp_all
  have fe: "distinct (map e_idx f)"
    using loop_body_accepted(2) [OF assms(2)] .
  have fb: "distinct (map b_idx f)"
    using loop_body_distinct_b_idx [OF wf assms(2)] .
  show "length (lines_no_end s') + length f = length (lines_no_end s)"
    unfolding body(4) using drop_rows_length [OF wf(1) fe body(6)] by simp
  show "length (lines_no_begin s') + length f = length (lines_no_begin s)"
    unfolding body(3) using drop_rows_length [OF wf(2) fb body(5)] by simp
qed

section \<open>The pools that get_lines returns\<close>

lemma boundary_two:
  assumes "1 < length (boundary g)"
  shows "boundary g = [hd g, last g]" and "2 \<le> length g" and "hd g \<noteq> last g"
proof -
  have ne: "g \<noteq> []" and diff: "hd g \<noteq> last g"
    using assms by (auto simp: boundary_def split: if_splits)
  then show "boundary g = [hd g, last g]" and "hd g \<noteq> last g"
    by (simp_all add: boundary_def)
  show "2 \<le> length g"
  proof (cases g)
    case Nil
    then show ?thesis using ne by simp
  next
    case (Cons a rest)
    then have "rest \<noteq> []"
      using diff by auto
    then show ?thesis
      using Cons by (cases rest) simp_all
  qed
qed

lemma zip3_map: "zip xs (zip (map f xs) (map g xs)) = map (\<lambda>x. (x, f x, g x)) xs"
  by (induction xs) auto

lemma get_lines_Inr:
  assumes "get_lines df = Inr (ne, nb)"
  shows "\<exists>rows. map ident rows = map fst df \<and>
           (\<forall>r\<in>set rows. 2 \<le> length (geometry r) \<and> b_point r = hd (geometry r) \<and>
              e_point r = last (geometry r) \<and> b_point r \<noteq> e_point r) \<and>
           ne = filter (\<lambda>r. e_point r \<notin> set (map b_point rows)) rows \<and>
           nb = filter (\<lambda>r. b_point r \<notin> set (map e_point rows)) rows"
proof -
  define fb where "fb = (\<lambda>x :: int \<times> point list. projr (case x of (i, g) \<Rightarrow> get_begin (boundary g)))"
  define fe where "fe = (\<lambda>x :: int \<times> point list. projr (case x of (i, g) \<Rightarrow> get_end (boundary g)))"
  define mk :: "(int \<times> point list) \<times> point \<times> point \<Rightarrow> line_row"
    where "mk = (\<lambda>((i, g), (b, e)). \<lparr>ident = i, geometry = g, b_point = b, e_point = e\<rparr>)"
  have gl: "get_lines df =
      (case mapE (\<lambda>(i, g). get_begin (boundary g)) df of
         Inl e \<Rightarrow> Inl e
       | Inr bs \<Rightarrow>
          (case mapE (\<lambda>(i, g). get_end (boundary g)) df of
             Inl e \<Rightarrow> Inl e
           | Inr es \<Rightarrow>
               Inr (filter (\<lambda>r. e_point r \<notin> set (map b_point (map mk (zip df (zip bs es)))))
                      (map mk (zip df (zip bs es))),
                    filter (\<lambda>r. b_point r \<notin> set (map e_point (map mk (zip df (zip bs es)))))
                      (map mk (zip df (zip bs es))))))"
    unfolding get_lines_def Let_def mk_def ..
  from assms obtain bs where bs: "mapE (\<lambda>(i, g). get_begin (boundary g)) df = Inr bs"
    unfolding gl by (cases "mapE (\<lambda>(i, g). get_begin (boundary g)) df") simp_all
  from assms bs obtain es where es: "mapE (\<lambda>(i, g). get_end (boundary g)) df = Inr es"
    unfolding gl by (cases "mapE (\<lambda>(i, g). get_end (boundary g)) df") simp_all
  define rows where "rows = map mk (zip df (zip bs es))"
  have "Inr (filter (\<lambda>r. e_point r \<notin> set (map b_point rows)) rows,
             filter (\<lambda>r. b_point r \<notin> set (map e_point rows)) rows) =
        (Inr (ne, nb) :: error + line_row list \<times> line_row list)"
    using assms unfolding gl bs es sum.case rows_def .
  then have pools: "ne = filter (\<lambda>r. e_point r \<notin> set (map b_point rows)) rows"
      "nb = filter (\<lambda>r. b_point r \<notin> set (map e_point rows)) rows"
    by (simp_all only: sum.inject prod.inject)
  have bs_eq: "bs = map fb df" and es_eq: "es = map fe df"
    unfolding fb_def fe_def using mapE_Inr_projr(1) [OF bs] mapE_Inr_projr(1) [OF es] by simp_all
  have rows_eq: "rows = map (\<lambda>x. mk (x, fb x, fe x)) df"
    unfolding rows_def bs_eq es_eq zip3_map by simp
  have two: "1 < length (boundary (snd x))" if mem: "x \<in> set df" for x
  proof -
    obtain y where "(case x of (i, g) \<Rightarrow> get_end (boundary g)) = Inr y"
      using mapE_Inr_projr(2) [OF es mem] by blast
    then show ?thesis
      by (cases x) (auto simp: get_end_def split: if_splits)
  qed
  have ends: "fb x = hd (snd x)" "fe x = last (snd x)" if mem: "x \<in> set df" for x
    using boundary_two(1) [OF two [OF mem]]
    by (cases x; simp add: fb_def fe_def get_begin_def get_end_def)+
  have "map ident rows = map fst df"
    unfolding rows_eq by (simp add: mk_def comp_def case_prod_beta)
  moreover have "\<forall>r\<in>set rows. 2 \<le> length (geometry r) \<and> b_point r = hd (geometry r) \<and>
              e_point r = last (geometry r) \<and> b_point r \<noteq> e_point r"
  proof
    fix r assume "r \<in> set rows"
    then obtain x where x: "x \<in> set df" "r = mk (x, fb x, fe x)"
      unfolding rows_eq by auto
    have "geometry r = snd x" "b_point r = fb x" "e_point r = fe x"
      unfolding x(2) mk_def by (cases x; simp)+
    then show "2 \<le> length (geometry r) \<and> b_point r = hd (geometry r) \<and>
              e_point r = last (geometry r) \<and> b_point r \<noteq> e_point r"
      using ends [OF x(1)] boundary_two(2,3) [OF two [OF x(1)]] by simp
  qed
  ultimately show ?thesis
    using pools by blast
qed

lemma get_lines_well_formed:
  assumes "get_lines df = Inr (ne, nb)" and "distinct (map fst df)"
  shows "well_formed_pools ne nb"
proof -
  from get_lines_Inr [OF assms(1)] obtain rows where rows: "map ident rows = map fst df"
      "\<forall>r\<in>set rows. 2 \<le> length (geometry r)"
      "ne = filter (\<lambda>r. e_point r \<notin> set (map b_point rows)) rows"
      "nb = filter (\<lambda>r. b_point r \<notin> set (map e_point rows)) rows"
    by blast
  have "distinct (map ident rows)"
    using rows(1) assms(2) by simp
  then have "distinct (map ident ne)" "distinct (map ident nb)"
    unfolding rows(3,4) by (simp_all add: distinct_map_filter)
  moreover have "\<forall>r \<in> set ne \<union> set nb. 2 \<le> length (geometry r)"
    unfolding rows(3,4) using rows(2) by auto
  ultimately show ?thesis
    unfolding well_formed_pools_def by simp
qed

lemma read_shp_distinct: "distinct (map fst (read_shp features)) = distinct (map fst features)"
proof -
  have "mset (map fst (read_shp features)) = mset (map fst features)"
    unfolding read_shp_def by simp
  then show ?thesis
    by (rule mset_eq_imp_distinct_iff)
qed

lemma initial_matched_once:
  assumes "get_lines (read_shp features) = Inr (ne, nb)" and "distinct (map fst features)"
  shows "matched_once (initial_state ne nb)"
proof -
  have "well_formed_pools ne nb"
    using assms(1) by (rule get_lines_well_formed) (simp add: read_shp_distinct assms(2))
  then show ?thesis
    unfolding matched_once_def initial_state_def by simp
qed

section \<open>The rounds of a run\<close>

lemma next_round_Some:
  "next_round thr s = Some s' \<longleftrightarrow> (\<exists>f. loop_body thr s = Inr (s', f, False))"
  by (auto simp: next_round_def split: sum.splits if_splits)

lemma round_start_prepend:
  assumes "round_start thr s' s1" and "next_round thr s = Some s'"
  shows "round_start thr s s1"
  using assms
proof (induction rule: round_start.induct)
  case first_round
  then show ?case
    using round_start.first_round round_start.later_round by blast
next
  case (later_round s1 s2)
  then show ?case
    using round_start.later_round by blast
qed

lemma round_start_trans:
  assumes "round_start thr s1 s2" and "round_start thr s0 s1"
  shows "round_start thr s0 s2"
  using assms by (induction rule: round_start.induct) (auto intro: round_start.later_round)

lemma round_start_matched_once:
  assumes "round_start thr s0 s" and "matched_once s0"
  shows "matched_once s"
  using assms
proof (induction rule: round_start.induct)
  case first_round
  then show ?case by simp
next
  case (later_round s s')
  then obtain f where "loop_body thr s = Inr (s', f, False)"
    using next_round_Some by blast
  then show ?case
    using later_round matched_once_step by blast
qed

lemma round_start_aligned:
  assumes "round_start thr s0 s"
    and "previous_result_length s0 = length (result_lines s0)"
  shows "previous_result_length s = length (result_lines s)"
  using assms
proof (induction rule: round_start.induct)
  case first_round
  then show ?case by simp
next
  case (later_round s s')
  then obtain f where "loop_body thr s = Inr (s', f, False)"
    using next_round_Some by blast
  from loop_body_Inr(8) [OF this] show ?case
    by simp
qed

lemma round_start_monotone:
  assumes "round_start thr s0 s"
  shows "set (result_lines s0) \<subseteq> set (result_lines s)"
    and "set (lines_no_end s) \<subseteq> set (lines_no_end s0)"
    and "set (lines_no_begin s) \<subseteq> set (lines_no_begin s0)"
  using assms
proof (induction rule: round_start.induct)
  case first_round
  {
    case 1 show ?case by simp
  next
    case 2 show ?case by simp
  next
    case 3 show ?case by simp
  }
next
  case (later_round s s')
  then obtain f where body: "loop_body thr s = Inr (s', f, False)"
    using next_round_Some by blast
  {
    case 1
    show ?case
      using later_round.IH(1) loop_body_Inr(2) [OF body] by auto
  next
    case 2
    show ?case
      using later_round.IH(2) loop_body_Inr(4) [OF body] by auto
  next
    case 3
    show ?case
      using later_round.IH(3) loop_body_Inr(3) [OF body] by auto
  }
qed

section \<open>The loop ends\<close>

lemma main_loop_Inl: "loop_body thr s = Inl e \<Longrightarrow> main_loop thr s = Some (Inl e)"
  by (subst main_loop.simps) simp

lemma main_loop_stop: "loop_body thr s = Inr (s', f, True) \<Longrightarrow> main_loop thr s = Some (Inr s')"
  by (subst main_loop.simps) simp

lemma main_loop_continue:
  "loop_body thr s = Inr (s', f, False) \<Longrightarrow> main_loop thr s = main_loop thr s'"
  by (subst main_loop.simps) simp

text \<open>
  From every state of the loop whose counter equals the number of accumulated connectors
  the run reaches the start of a last pass, and that pass ends the loop with an exception
  or with the break. The induction is on the size of the pool of lines without begin,
  which a pass that continues makes smaller.
\<close>

lemma main_loop_outcome_aligned:
  assumes "previous_result_length s = length (result_lines s)"
  shows "\<exists>s1. round_start thr s s1 \<and>
           ((\<exists>e. loop_body thr s1 = Inl e \<and> main_loop thr s = Some (Inl e)) \<or>
            (\<exists>sf f. loop_body thr s1 = Inr (sf, f, True) \<and> main_loop thr s = Some (Inr sf)))"
  using assms
proof (induction "length (lines_no_begin s)" arbitrary: s rule: less_induct)
  case less
  show ?case
  proof (cases "loop_body thr s")
    case (Inl e)
    then show ?thesis
      using main_loop_Inl round_start.first_round by blast
  next
    case (Inr p)
    obtain s' f stop where p: "p = (s', f, stop)"
      by (cases p)
    note body = Inr [unfolded p]
    show ?thesis
    proof (cases stop)
      case True
      then have "loop_body thr s = Inr (s', f, True)"
        using body by simp
      then show ?thesis
        using main_loop_stop round_start.first_round by blast
    next
      case False
      have "\<not> \<bar>int (previous_result_length s) - int (length (result_lines s @ f))\<bar> < 5"
        using loop_body_Inr(7) [OF body] False by simp
      then have "5 \<le> length f"
        using less.prems by simp
      then have "map b_idx f \<noteq> []"
        by auto
      then have shorter: "length (lines_no_begin s') < length (lines_no_begin s)"
        unfolding loop_body_Inr(3) [OF body]
        using loop_body_Inr(5) [OF body] by (intro drop_rows_shorter)
      have aligned: "previous_result_length s' = length (result_lines s')"
        using loop_body_Inr(8) [OF body] False by simp
      from less.hyps [OF shorter aligned] obtain s1 where s1: "round_start thr s' s1"
          "(\<exists>e. loop_body thr s1 = Inl e \<and> main_loop thr s' = Some (Inl e)) \<or>
           (\<exists>sf f. loop_body thr s1 = Inr (sf, f, True) \<and> main_loop thr s' = Some (Inr sf))"
        by blast
      have cont: "loop_body thr s = Inr (s', f, False)"
        using body False by simp
      have step: "next_round thr s = Some s'"
        using cont next_round_Some by blast
      have "round_start thr s s1"
        using s1(1) step by (rule round_start_prepend)
      moreover have "main_loop thr s = main_loop thr s'"
        using cont by (rule main_loop_continue)
      ultimately show ?thesis
        using s1(2) by auto
    qed
  qed
qed

lemma main_loop_outcome:
  "\<exists>s1. round_start thr s s1 \<and>
     ((\<exists>e. loop_body thr s1 = Inl e \<and> main_loop thr s = Some (Inl e)) \<or>
      (\<exists>sf f. loop_body thr s1 = Inr (sf, f, True) \<and> main_loop thr s = Some (Inr sf)))"
proof (cases "loop_body thr s")
  case (Inl e)
  then show ?thesis
    using main_loop_Inl round_start.first_round by blast
next
  case (Inr p)
  obtain s' f stop where p: "p = (s', f, stop)"
    by (cases p)
  note body = Inr [unfolded p]
  show ?thesis
  proof (cases stop)
    case True
    then have "loop_body thr s = Inr (s', f, True)"
      using body by simp
    then show ?thesis
      using main_loop_stop round_start.first_round by blast
  next
    case False
    have aligned: "previous_result_length s' = length (result_lines s')"
      using loop_body_Inr(8) [OF body] False by simp
    from main_loop_outcome_aligned [OF aligned] obtain s1 where s1: "round_start thr s' s1"
        "(\<exists>e. loop_body thr s1 = Inl e \<and> main_loop thr s' = Some (Inl e)) \<or>
         (\<exists>sf f. loop_body thr s1 = Inr (sf, f, True) \<and> main_loop thr s' = Some (Inr sf))"
      by blast
    have cont: "loop_body thr s = Inr (s', f, False)"
      using body False by simp
    have step: "next_round thr s = Some s'"
      using cont next_round_Some by blast
    have "round_start thr s s1"
      using s1(1) step by (rule round_start_prepend)
    moreover have "main_loop thr s = main_loop thr s'"
      using cont by (rule main_loop_continue)
    ultimately show ?thesis
      using s1(2) by auto
  qed
qed

lemma main_loop_terminates: "\<exists>r. main_loop thr s = Some r"
  using main_loop_outcome [of thr s] by blast

lemma main_terminates: "\<exists>r. main features thr = Some r"
proof (cases "get_lines (read_shp features)")
  case (Inl e)
  then show ?thesis
    by (simp add: main_def)
next
  case (Inr p)
  then show ?thesis
    using main_loop_terminates by (cases p) (simp add: main_def)
qed

section \<open>Runs on the examples\<close>

lemma ex_loop_body:
  "loop_body 5 (initial_state [ex_A, ex_B, ex_C] [ex_P, ex_B, ex_C]) =
     Inr (ex_final, [ex_A_to_B], True)"
  by (simp add: loop_body_def initial_state_def ex_candidates ex_cos ex_A_to_B_def ex_final_def
        drop_rows_def Let_def)
     (simp add: ex_rows)

lemma ex_main: "main ex_features 5 = Some (Inr ex_final)"
  by (simp add: main_def ex_get_lines main_loop_stop [OF ex_loop_body])

lemmas ex_gap_rows = ex_b1_def ex_b2_def ex_b3_def ex_b4_def ex_b5_def
  ex_a1_def ex_a2_def ex_a3_def ex_a4_def ex_a5_def

lemmas upt10 = upt_rec [of 0] upt_rec [of 1] upt_rec [of 2] upt_rec [of 3] upt_rec [of 4]
  upt_rec [of 5] upt_rec [of 6] upt_rec [of 7] upt_rec [of 8] upt_rec [of 9] upt_rec [of 10]

lemma ex_gaps_get_lines:
  "get_lines (read_shp ex_gaps) =
     Inr ([ex_b1, ex_b2, ex_b3, ex_b4, ex_b5, ex_a1, ex_a2, ex_a3, ex_a4, ex_a5],
          [ex_b1, ex_b2, ex_b3, ex_b4, ex_b5, ex_a1, ex_a2, ex_a3, ex_a4, ex_a5])"
  by (simp add: ex_gaps_def ex_gap_rows read_shp_def get_lines_def boundary_def get_begin_def
        get_end_def Let_def)

lemma sqrt_le_nonneg: "0 \<le> y \<Longrightarrow> sqrt x \<le> y \<longleftrightarrow> x \<le> y\<^sup>2"
  by (metis abs_of_nonneg real_sqrt_abs real_sqrt_le_iff)

lemma nonneg_le_sqrt: "0 \<le> y \<Longrightarrow> y \<le> sqrt x \<longleftrightarrow> y\<^sup>2 \<le> x"
  by (metis abs_of_nonneg real_sqrt_abs real_sqrt_le_iff)

lemma ex_gaps_neighbors_1:
  "calculate_neighbors [ex_b1, ex_b2, ex_b3, ex_b4, ex_b5, ex_a1, ex_a2, ex_a3, ex_a4, ex_a5]
     [ex_b1, ex_b2, ex_b3, ex_b4, ex_b5, ex_a1, ex_a2, ex_a3, ex_a4, ex_a5] =
   Inr [[5, 0, 6], [6, 1, 5], [7, 2, 6], [8, 3, 7], [9, 4, 8],
        [5, 0, 6], [6, 1, 5], [7, 2, 6], [8, 3, 7], [9, 4, 8]]"
  by (simp add: ex_gap_rows calculate_neighbors_def kneighbors_def euclidean_def upt10 Let_def
        sqrt_le_nonneg nonneg_le_sqrt)

lemma ex_gaps_first_column_1:
  "first_column [[5, 0, 6], [6, 1, 5], [7, 2, 6], [8, 3, 7], [9, 4, 8],
        [5, 0, 6], [6, 1, 5], [7, 2, 6], [8, 3, 7], [9, 4, 8]] =
     Inr [5, 6, 7, 8, 9, 5, 6, 7, 8, 9]"
  by (simp add: first_column_def)

lemma ex_gaps_convert_1:
  "convert_to_id [5, 6, 7, 8, 9, 5, 6, 7, 8, 9]
     [ex_b1, ex_b2, ex_b3, ex_b4, ex_b5, ex_a1, ex_a2, ex_a3, ex_a4, ex_a5] =
     Inr [11, 12, 13, 14, 15, 11, 12, 13, 14, 15]"
  by (simp add: convert_to_id_def ex_gap_rows)

lemma ex_gaps_lines_1:
  "generate_artificial_lines
     (zip [ex_b1, ex_b2, ex_b3, ex_b4, ex_b5, ex_a1, ex_a2, ex_a3, ex_a4, ex_a5]
          [11, 12, 13, 14, 15, 11, 12, 13, 14, 15])
     [ex_b1, ex_b2, ex_b3, ex_b4, ex_b5, ex_a1, ex_a2, ex_a3, ex_a4, ex_a5] = Inr ex_gaps_lines"
  by (simp add: generate_artificial_lines_def loc_def ex_gap_rows Let_def ex_gaps_lines_def)

lemma ex_gaps_candidates_1:
  "round_candidates [ex_b1, ex_b2, ex_b3, ex_b4, ex_b5, ex_a1, ex_a2, ex_a3, ex_a4, ex_a5]
     [ex_b1, ex_b2, ex_b3, ex_b4, ex_b5, ex_a1, ex_a2, ex_a3, ex_a4, ex_a5] = Inr ex_gaps_lines"
  by (simp only: round_candidates_def ex_gaps_neighbors_1 ex_gaps_first_column_1
        ex_gaps_convert_1 ex_gaps_lines_1 sum.case)

lemma ex_gaps_groups_1:
  "groupby ex_gaps_lines =
     [(11, [\<lparr>e_idx = 11, b_idx = 1, line_geom = [(1, 10), (2, 10)]\<rparr>,
            \<lparr>e_idx = 11, b_idx = 11, line_geom = [(1, 10), (0, 10)]\<rparr>]),
      (12, [\<lparr>e_idx = 12, b_idx = 2, line_geom = [(1, 20), (2, 20)]\<rparr>,
            \<lparr>e_idx = 12, b_idx = 12, line_geom = [(1, 20), (0, 20)]\<rparr>]),
      (13, [\<lparr>e_idx = 13, b_idx = 3, line_geom = [(1, 30), (2, 30)]\<rparr>,
            \<lparr>e_idx = 13, b_idx = 13, line_geom = [(1, 30), (0, 30)]\<rparr>]),
      (14, [\<lparr>e_idx = 14, b_idx = 4, line_geom = [(1, 40), (2, 40)]\<rparr>,
            \<lparr>e_idx = 14, b_idx = 14, line_geom = [(1, 40), (0, 40)]\<rparr>]),
      (15, [\<lparr>e_idx = 15, b_idx = 5, line_geom = [(1, 50), (2, 50)]\<rparr>,
            \<lparr>e_idx = 15, b_idx = 15, line_geom = [(1, 50), (0, 50)]\<rparr>])]"
  by (simp add: groupby_def ex_gaps_lines_def)

lemma ex_gaps_angles_1:
  "candidate_angles [ex_b1, ex_b2, ex_b3, ex_b4, ex_b5, ex_a1, ex_a2, ex_a3, ex_a4, ex_a5] [ex_b1, ex_b2, ex_b3, ex_b4, ex_b5, ex_a1, ex_a2, ex_a3, ex_a4, ex_a5]
     \<lparr>e_idx = 11, b_idx = 1, line_geom = [(1, 10), (2, 10)]\<rparr> = Inr (0, 0)"
  "candidate_angles [ex_b1, ex_b2, ex_b3, ex_b4, ex_b5, ex_a1, ex_a2, ex_a3, ex_a4, ex_a5] [ex_b1, ex_b2, ex_b3, ex_b4, ex_b5, ex_a1, ex_a2, ex_a3, ex_a4, ex_a5]
     \<lparr>e_idx = 11, b_idx = 11, line_geom = [(1, 10), (0, 10)]\<rparr> = Inr (0, 180)"
  "candidate_angles [ex_b1, ex_b2, ex_b3, ex_b4, ex_b5, ex_a1, ex_a2, ex_a3, ex_a4, ex_a5] [ex_b1, ex_b2, ex_b3, ex_b4, ex_b5, ex_a1, ex_a2, ex_a3, ex_a4, ex_a5]
     \<lparr>e_idx = 12, b_idx = 2, line_geom = [(1, 20), (2, 20)]\<rparr> = Inr (0, 0)"
  "candidate_angles [ex_b1, ex_b2, ex_b3, ex_b4, ex_b5, ex_a1, ex_a2, ex_a3, ex_a4, ex_a5] [ex_b1, ex_b2, ex_b3, ex_b4, ex_b5, ex_a1, ex_a2, ex_a3, ex_a4, ex_a5]
     \<lparr>e_idx = 12, b_idx = 12, line_geom = [(1, 20), (0, 20)]\<rparr> = Inr (0, 180)"
  "candidate_angles [ex_b1, ex_b2, ex_b3, ex_b4, ex_b5, ex_a1, ex_a2, ex_a3, ex_a4, ex_a5] [ex_b1, ex_b2, ex_b3, ex_b4, ex_b5, ex_a1, ex_a2, ex_a3, ex_a4, ex_a5]
     \<lparr>e_idx = 13, b_idx = 3, line_geom = [(1, 30), (2, 30)]\<rparr> = Inr (0, 0)"
  "candidate_angles [ex_b1, ex_b2, ex_b3, ex_b4, ex_b5, ex_a1, ex_a2, ex_a3, ex_a4, ex_a5] [ex_b1, ex_b2, ex_b3, ex_b4, ex_b5, ex_a1, ex_a2, ex_a3, ex_a4, ex_a5]
     \<lparr>e_idx = 13, b_idx = 13, line_geom = [(1, 30), (0, 30)]\<rparr> = Inr (0, 180)"
  "candidate_angles [ex_b1, ex_b2, ex_b3, ex_b4, ex_b5, ex_a1, ex_a2, ex_a3, ex_a4, ex_a5] [ex_b1, ex_b2, ex_b3, ex_b4, ex_b5, ex_a1, ex_a2, ex_a3, ex_a4, ex_a5]
     \<lparr>e_idx = 14, b_idx = 4, line_geom = [(1, 40), (2, 40)]\<rparr> = Inr (0, 0)"
  "candidate_angles [ex_b1, ex_b2, ex_b3, ex_b4, ex_b5, ex_a1, ex_a2, ex_a3, ex_a4, ex_a5] [ex_b1, ex_b2, ex_b3, ex_b4, ex_b5, ex_a1, ex_a2, ex_a3, ex_a4, ex_a5]
     \<lparr>e_idx = 14, b_idx = 14, line_geom = [(1, 40), (0, 40)]\<rparr> = Inr (0, 180)"
  "candidate_angles [ex_b1, ex_b2, ex_b3, ex_b4, ex_b5, ex_a1, ex_a2, ex_a3, ex_a4, ex_a5] [ex_b1, ex_b2, ex_b3, ex_b4, ex_b5, ex_a1, ex_a2, ex_a3, ex_a4, ex_a5]
     \<lparr>e_idx = 15, b_idx = 5, line_geom = [(1, 50), (2, 50)]\<rparr> = Inr (0, 0)"
  "candidate_angles [ex_b1, ex_b2, ex_b3, ex_b4, ex_b5, ex_a1, ex_a2, ex_a3, ex_a4, ex_a5] [ex_b1, ex_b2, ex_b3, ex_b4, ex_b5, ex_a1, ex_a2, ex_a3, ex_a4, ex_a5]
     \<lparr>e_idx = 15, b_idx = 15, line_geom = [(1, 50), (0, 50)]\<rparr> = Inr (0, 180)"
  by (simp_all add: candidate_angles_def loc_def ex_gap_rows AngleBtw2Points_def atan2_def
        degrees_def Let_def)

lemma ex_gaps_rows_1:
  "group_row [ex_b1, ex_b2, ex_b3, ex_b4, ex_b5, ex_a1, ex_a2, ex_a3, ex_a4, ex_a5] [ex_b1, ex_b2, ex_b3, ex_b4, ex_b5, ex_a1, ex_a2, ex_a3, ex_a4, ex_a5]
     [\<lparr>e_idx = 11, b_idx = 1, line_geom = [(1, 10), (2, 10)]\<rparr>,
      \<lparr>e_idx = 11, b_idx = 11, line_geom = [(1, 10), (0, 10)]\<rparr>] = Inr (ex_gap_connector 1)"
  "group_row [ex_b1, ex_b2, ex_b3, ex_b4, ex_b5, ex_a1, ex_a2, ex_a3, ex_a4, ex_a5] [ex_b1, ex_b2, ex_b3, ex_b4, ex_b5, ex_a1, ex_a2, ex_a3, ex_a4, ex_a5]
     [\<lparr>e_idx = 12, b_idx = 2, line_geom = [(1, 20), (2, 20)]\<rparr>,
      \<lparr>e_idx = 12, b_idx = 12, line_geom = [(1, 20), (0, 20)]\<rparr>] = Inr (ex_gap_connector 2)"
  "group_row [ex_b1, ex_b2, ex_b3, ex_b4, ex_b5, ex_a1, ex_a2, ex_a3, ex_a4, ex_a5] [ex_b1, ex_b2, ex_b3, ex_b4, ex_b5, ex_a1, ex_a2, ex_a3, ex_a4, ex_a5]
     [\<lparr>e_idx = 13, b_idx = 3, line_geom = [(1, 30), (2, 30)]\<rparr>,
      \<lparr>e_idx = 13, b_idx = 13, line_geom = [(1, 30), (0, 30)]\<rparr>] = Inr (ex_gap_connector 3)"
  "group_row [ex_b1, ex_b2, ex_b3, ex_b4, ex_b5, ex_a1, ex_a2, ex_a3, ex_a4, ex_a5] [ex_b1, ex_b2, ex_b3, ex_b4, ex_b5, ex_a1, ex_a2, ex_a3, ex_a4, ex_a5]
     [\<lparr>e_idx = 14, b_idx = 4, line_geom = [(1, 40), (2, 40)]\<rparr>,
      \<lparr>e_idx = 14, b_idx = 14, line_geom = [(1, 40), (0, 40)]\<rparr>] = Inr (ex_gap_connector 4)"
  "group_row [ex_b1, ex_b2, ex_b3, ex_b4, ex_b5, ex_a1, ex_a2, ex_a3, ex_a4, ex_a5] [ex_b1, ex_b2, ex_b3, ex_b4, ex_b5, ex_a1, ex_a2, ex_a3, ex_a4, ex_a5]
     [\<lparr>e_idx = 15, b_idx = 5, line_geom = [(1, 50), (2, 50)]\<rparr>,
      \<lparr>e_idx = 15, b_idx = 15, line_geom = [(1, 50), (0, 50)]\<rparr>] = Inr (ex_gap_connector 5)"
  by (simp_all add: group_row_def enumerate_eq_zip upt3 ex_gaps_angles_1 ex_gap_connector_def)

lemma ex_gaps_group_rows_1:
  "mapE (\<lambda>(name, grp). group_row [ex_b1, ex_b2, ex_b3, ex_b4, ex_b5, ex_a1, ex_a2, ex_a3, ex_a4, ex_a5] [ex_b1, ex_b2, ex_b3, ex_b4, ex_b5, ex_a1, ex_a2, ex_a3, ex_a4, ex_a5] grp) (groupby ex_gaps_lines) =
     Inr (map ex_gap_connector [1, 2, 3, 4, 5])"
  by (simp add: ex_gaps_groups_1 ex_gaps_rows_1)

lemma ex_gaps_accepted_1:
  "filter (accepted 5) (sort_key (\<lambda>r. (e_idx r, b_idx r)) (map ex_gap_connector [1, 2, 3, 4, 5])) =
     map ex_gap_connector [1, 2, 3, 4, 5]"
  by (simp add: ex_gap_connector_def accepted_def)

lemma ex_gaps_cos_1:
  "calculate_cos [ex_b1, ex_b2, ex_b3, ex_b4, ex_b5, ex_a1, ex_a2, ex_a3, ex_a4, ex_a5] ex_gaps_lines
     [ex_b1, ex_b2, ex_b3, ex_b4, ex_b5, ex_a1, ex_a2, ex_a3, ex_a4, ex_a5] 5 =
   Inr (map ex_gap_connector [1, 2, 3, 4, 5])"
  unfolding calculate_cos_def ex_gaps_group_rows_1 sum.case ex_gaps_accepted_1
  by simp

lemma ex_gaps_drop_1:
  "drop_rows (map b_idx (map ex_gap_connector [1, 2, 3, 4, 5])) [ex_b1, ex_b2, ex_b3, ex_b4, ex_b5, ex_a1, ex_a2, ex_a3, ex_a4, ex_a5] =
     Inr [ex_a1, ex_a2, ex_a3, ex_a4, ex_a5]"
  "drop_rows (map e_idx (map ex_gap_connector [1, 2, 3, 4, 5])) [ex_b1, ex_b2, ex_b3, ex_b4, ex_b5, ex_a1, ex_a2, ex_a3, ex_a4, ex_a5] =
     Inr [ex_b1, ex_b2, ex_b3, ex_b4, ex_b5]"
  by (simp_all add: drop_rows_def ex_gap_connector_def ex_gap_rows)

lemma ex_gaps_loop_body_1:
  "loop_body 5 ex_gaps_round_1 = Inr (ex_gaps_round_2, map ex_gap_connector [1, 2, 3, 4, 5], False)"
proof -
  have fields: "lines_no_end ex_gaps_round_1 = [ex_b1, ex_b2, ex_b3, ex_b4, ex_b5, ex_a1, ex_a2, ex_a3, ex_a4, ex_a5]"
      "lines_no_begin ex_gaps_round_1 = [ex_b1, ex_b2, ex_b3, ex_b4, ex_b5, ex_a1, ex_a2, ex_a3, ex_a4, ex_a5]"
      "result_lines ex_gaps_round_1 = []" "previous_result_length ex_gaps_round_1 = 0"
    by (simp_all add: ex_gaps_round_1_def initial_state_def)
  show ?thesis
    by (simp only: loop_body_def fields ex_gaps_candidates_1 sum.case ex_gaps_cos_1
          ex_gaps_drop_1 Let_def)
       (simp add: ex_gaps_round_2_def)
qed

lemma ex_gaps_neighbors_2:
  "calculate_neighbors [ex_b1, ex_b2, ex_b3, ex_b4, ex_b5] [ex_a1, ex_a2, ex_a3, ex_a4, ex_a5] =
     Inr [[0, 1, 2], [1, 0, 2], [2, 1, 3], [3, 2, 4], [4, 3, 2]]"
  by (simp add: ex_gap_rows calculate_neighbors_def kneighbors_def euclidean_def upt10 Let_def
        sqrt_le_nonneg nonneg_le_sqrt)

lemma ex_gaps_first_column_2:
  "first_column [[0, 1, 2], [1, 0, 2], [2, 1, 3], [3, 2, 4], [4, 3, 2]] = Inr [0, 1, 2, 3, 4]"
  by (simp add: first_column_def)

lemma ex_gaps_convert_2:
  "convert_to_id [0, 1, 2, 3, 4] [ex_b1, ex_b2, ex_b3, ex_b4, ex_b5] = Inr [1, 2, 3, 4, 5]"
  by (simp add: convert_to_id_def ex_gap_rows)

lemma ex_gaps_lines_2:
  "generate_artificial_lines (zip [ex_a1, ex_a2, ex_a3, ex_a4, ex_a5] [1, 2, 3, 4, 5]) [ex_b1, ex_b2, ex_b3, ex_b4, ex_b5] =
     Inr [\<lparr>e_idx = 1, b_idx = 11, line_geom = [(4, 10), (0, 10)]\<rparr>,
      \<lparr>e_idx = 2, b_idx = 12, line_geom = [(4, 20), (0, 20)]\<rparr>,
      \<lparr>e_idx = 3, b_idx = 13, line_geom = [(4, 30), (0, 30)]\<rparr>,
      \<lparr>e_idx = 4, b_idx = 14, line_geom = [(4, 40), (0, 40)]\<rparr>,
      \<lparr>e_idx = 5, b_idx = 15, line_geom = [(4, 50), (0, 50)]\<rparr>]"
  by (simp add: generate_artificial_lines_def loc_def ex_gap_rows Let_def)

lemma ex_gaps_candidates_2:
  "round_candidates [ex_b1, ex_b2, ex_b3, ex_b4, ex_b5] [ex_a1, ex_a2, ex_a3, ex_a4, ex_a5] =
     Inr [\<lparr>e_idx = 1, b_idx = 11, line_geom = [(4, 10), (0, 10)]\<rparr>,
      \<lparr>e_idx = 2, b_idx = 12, line_geom = [(4, 20), (0, 20)]\<rparr>,
      \<lparr>e_idx = 3, b_idx = 13, line_geom = [(4, 30), (0, 30)]\<rparr>,
      \<lparr>e_idx = 4, b_idx = 14, line_geom = [(4, 40), (0, 40)]\<rparr>,
      \<lparr>e_idx = 5, b_idx = 15, line_geom = [(4, 50), (0, 50)]\<rparr>]"
  by (simp only: round_candidates_def ex_gaps_neighbors_2 ex_gaps_first_column_2
        ex_gaps_convert_2 ex_gaps_lines_2 sum.case)

lemma ex_gaps_groups_2:
  "groupby [\<lparr>e_idx = 1, b_idx = 11, line_geom = [(4, 10), (0, 10)]\<rparr>,
      \<lparr>e_idx = 2, b_idx = 12, line_geom = [(4, 20), (0, 20)]\<rparr>,
      \<lparr>e_idx = 3, b_idx = 13, line_geom = [(4, 30), (0, 30)]\<rparr>,
      \<lparr>e_idx = 4, b_idx = 14, line_geom = [(4, 40), (0, 40)]\<rparr>,
      \<lparr>e_idx = 5, b_idx = 15, line_geom = [(4, 50), (0, 50)]\<rparr>] =
     [(1, [\<lparr>e_idx = 1, b_idx = 11, line_geom = [(4, 10), (0, 10)]\<rparr>]), (2, [\<lparr>e_idx = 2, b_idx = 12, line_geom = [(4, 20), (0, 20)]\<rparr>]), (3, [\<lparr>e_idx = 3, b_idx = 13, line_geom = [(4, 30), (0, 30)]\<rparr>]), (4, [\<lparr>e_idx = 4, b_idx = 14, line_geom = [(4, 40), (0, 40)]\<rparr>]), (5, [\<lparr>e_idx = 5, b_idx = 15, line_geom = [(4, 50), (0, 50)]\<rparr>])]"
  by (simp add: groupby_def)

lemma ex_gaps_angles_2:
  "candidate_angles [ex_a1, ex_a2, ex_a3, ex_a4, ex_a5] [ex_b1, ex_b2, ex_b3, ex_b4, ex_b5]
     \<lparr>e_idx = 1, b_idx = 11, line_geom = [(4, 10), (0, 10)]\<rparr> = Inr (0, 180)"
  "candidate_angles [ex_a1, ex_a2, ex_a3, ex_a4, ex_a5] [ex_b1, ex_b2, ex_b3, ex_b4, ex_b5]
     \<lparr>e_idx = 2, b_idx = 12, line_geom = [(4, 20), (0, 20)]\<rparr> = Inr (0, 180)"
  "candidate_angles [ex_a1, ex_a2, ex_a3, ex_a4, ex_a5] [ex_b1, ex_b2, ex_b3, ex_b4, ex_b5]
     \<lparr>e_idx = 3, b_idx = 13, line_geom = [(4, 30), (0, 30)]\<rparr> = Inr (0, 180)"
  "candidate_angles [ex_a1, ex_a2, ex_a3, ex_a4, ex_a5] [ex_b1, ex_b2, ex_b3, ex_b4, ex_b5]
     \<lparr>e_idx = 4, b_idx = 14, line_geom = [(4, 40), (0, 40)]\<rparr> = Inr (0, 180)"
  "candidate_angles [ex_a1, ex_a2, ex_a3, ex_a4, ex_a5] [ex_b1, ex_b2, ex_b3, ex_b4, ex_b5]
     \<lparr>e_idx = 5, b_idx = 15, line_geom = [(4, 50), (0, 50)]\<rparr> = Inr (0, 180)"
  by (simp_all add: candidate_angles_def loc_def ex_gap_rows AngleBtw2Points_def atan2_def
        degrees_def Let_def)

lemma ex_gaps_rows_2:
  "group_row [ex_a1, ex_a2, ex_a3, ex_a4, ex_a5] [ex_b1, ex_b2, ex_b3, ex_b4, ex_b5]
     [\<lparr>e_idx = 1, b_idx = 11, line_geom = [(4, 10), (0, 10)]\<rparr>] =
     Inr \<lparr>e_idx = 1, b_idx = 11, line_geom = [(4, 10), (0, 10)], angle = 0, angle_art = 180\<rparr>"
  "group_row [ex_a1, ex_a2, ex_a3, ex_a4, ex_a5] [ex_b1, ex_b2, ex_b3, ex_b4, ex_b5]
     [\<lparr>e_idx = 2, b_idx = 12, line_geom = [(4, 20), (0, 20)]\<rparr>] =
     Inr \<lparr>e_idx = 2, b_idx = 12, line_geom = [(4, 20), (0, 20)], angle = 0, angle_art = 180\<rparr>"
  "group_row [ex_a1, ex_a2, ex_a3, ex_a4, ex_a5] [ex_b1, ex_b2, ex_b3, ex_b4, ex_b5]
     [\<lparr>e_idx = 3, b_idx = 13, line_geom = [(4, 30), (0, 30)]\<rparr>] =
     Inr \<lparr>e_idx = 3, b_idx = 13, line_geom = [(4, 30), (0, 30)], angle = 0, angle_art = 180\<rparr>"
  "group_row [ex_a1, ex_a2, ex_a3, ex_a4, ex_a5] [ex_b1, ex_b2, ex_b3, ex_b4, ex_b5]
     [\<lparr>e_idx = 4, b_idx = 14, line_geom = [(4, 40), (0, 40)]\<rparr>] =
     Inr \<lparr>e_idx = 4, b_idx = 14, line_geom = [(4, 40), (0, 40)], angle = 0, angle_art = 180\<rparr>"
  "group_row [ex_a1, ex_a2, ex_a3, ex_a4, ex_a5] [ex_b1, ex_b2, ex_b3, ex_b4, ex_b5]
     [\<lparr>e_idx = 5, b_idx = 15, line_geom = [(4, 50), (0, 50)]\<rparr>] =
     Inr \<lparr>e_idx = 5, b_idx = 15, line_geom = [(4, 50), (0, 50)], angle = 0, angle_art = 180\<rparr>"
  by (simp_all add: group_row_def enumerate_eq_zip upt3 ex_gaps_angles_2)

lemma ex_gaps_group_rows_2:
  "mapE (\<lambda>(name, grp). group_row [ex_a1, ex_a2, ex_a3, ex_a4, ex_a5] [ex_b1, ex_b2, ex_b3, ex_b4, ex_b5] grp)
     (groupby [\<lparr>e_idx = 1, b_idx = 11, line_geom = [(4, 10), (0, 10)]\<rparr>,
      \<lparr>e_idx = 2, b_idx = 12, line_geom = [(4, 20), (0, 20)]\<rparr>,
      \<lparr>e_idx = 3, b_idx = 13, line_geom = [(4, 30), (0, 30)]\<rparr>,
      \<lparr>e_idx = 4, b_idx = 14, line_geom = [(4, 40), (0, 40)]\<rparr>,
      \<lparr>e_idx = 5, b_idx = 15, line_geom = [(4, 50), (0, 50)]\<rparr>]) =
     Inr [\<lparr>e_idx = 1, b_idx = 11, line_geom = [(4, 10), (0, 10)], angle = 0, angle_art = 180\<rparr>,
      \<lparr>e_idx = 2, b_idx = 12, line_geom = [(4, 20), (0, 20)], angle = 0, angle_art = 180\<rparr>,
      \<lparr>e_idx = 3, b_idx = 13, line_geom = [(4, 30), (0, 30)], angle = 0, angle_art = 180\<rparr>,
      \<lparr>e_idx = 4, b_idx = 14, line_geom = [(4, 40), (0, 40)], angle = 0, angle_art = 180\<rparr>,
      \<lparr>e_idx = 5, b_idx = 15, line_geom = [(4, 50), (0, 50)], angle = 0, angle_art = 180\<rparr>]"
  unfolding ex_gaps_groups_2 by (simp add: ex_gaps_rows_2)

lemma ex_gaps_accepted_2:
  "filter (accepted 5) (sort_key (\<lambda>r. (e_idx r, b_idx r))
     [\<lparr>e_idx = 1, b_idx = 11, line_geom = [(4, 10), (0, 10)], angle = 0, angle_art = 180\<rparr>,
      \<lparr>e_idx = 2, b_idx = 12, line_geom = [(4, 20), (0, 20)], angle = 0, angle_art = 180\<rparr>,
      \<lparr>e_idx = 3, b_idx = 13, line_geom = [(4, 30), (0, 30)], angle = 0, angle_art = 180\<rparr>,
      \<lparr>e_idx = 4, b_idx = 14, line_geom = [(4, 40), (0, 40)], angle = 0, angle_art = 180\<rparr>,
      \<lparr>e_idx = 5, b_idx = 15, line_geom = [(4, 50), (0, 50)], angle = 0, angle_art = 180\<rparr>]) = []"
  by (simp add: accepted_def)

lemma ex_gaps_cos_2:
  "calculate_cos [ex_a1, ex_a2, ex_a3, ex_a4, ex_a5]
     [\<lparr>e_idx = 1, b_idx = 11, line_geom = [(4, 10), (0, 10)]\<rparr>,
      \<lparr>e_idx = 2, b_idx = 12, line_geom = [(4, 20), (0, 20)]\<rparr>,
      \<lparr>e_idx = 3, b_idx = 13, line_geom = [(4, 30), (0, 30)]\<rparr>,
      \<lparr>e_idx = 4, b_idx = 14, line_geom = [(4, 40), (0, 40)]\<rparr>,
      \<lparr>e_idx = 5, b_idx = 15, line_geom = [(4, 50), (0, 50)]\<rparr>]
     [ex_b1, ex_b2, ex_b3, ex_b4, ex_b5] 5 = Inr []"
  unfolding calculate_cos_def ex_gaps_group_rows_2 sum.case ex_gaps_accepted_2
  by simp

lemma ex_gaps_loop_body_2:
  "loop_body 5 ex_gaps_round_2 = Inr (ex_gaps_round_2, [], True)"
proof -
  have fields: "lines_no_end ex_gaps_round_2 = [ex_b1, ex_b2, ex_b3, ex_b4, ex_b5]"
      "lines_no_begin ex_gaps_round_2 = [ex_a1, ex_a2, ex_a3, ex_a4, ex_a5]"
      "previous_result_length ex_gaps_round_2 = 5"
    by (simp_all add: ex_gaps_round_2_def)
  have len: "length (result_lines ex_gaps_round_2) = 5"
    by (simp add: ex_gaps_round_2_def)
  have drop: "drop_rows (map b_idx ([] :: filtered_line list)) [ex_a1, ex_a2, ex_a3, ex_a4, ex_a5] = Inr [ex_a1, ex_a2, ex_a3, ex_a4, ex_a5]"
      "drop_rows (map e_idx ([] :: filtered_line list)) [ex_b1, ex_b2, ex_b3, ex_b4, ex_b5] = Inr [ex_b1, ex_b2, ex_b3, ex_b4, ex_b5]"
    by (simp_all add: drop_rows_def)
  show ?thesis
    by (simp only: loop_body_def fields ex_gaps_candidates_2 sum.case ex_gaps_cos_2 drop Let_def)
       (simp add: len, simp add: ex_gaps_round_2_def)
qed

lemma ex_gaps_next_round: "next_round 5 ex_gaps_round_1 = Some ex_gaps_round_2"
  by (simp add: next_round_def ex_gaps_loop_body_1)

lemma ex_gaps_main: "main ex_gaps 5 = Some (Inr ex_gaps_round_2)"
proof -
  have "main_loop 5 ex_gaps_round_1 = main_loop 5 ex_gaps_round_2"
    using ex_gaps_loop_body_1 by (rule main_loop_continue)
  also have "\<dots> = Some (Inr ex_gaps_round_2)"
    using ex_gaps_loop_body_2 by (rule main_loop_stop)
  finally show ?thesis
    by (simp add: main_def ex_gaps_get_lines ex_gaps_round_1_def)
qed

section \<open>The acceptance rule\<close>

lemma round_start_accepted:
  assumes "round_start thr s0 s" and "\<forall>r\<in>set (result_lines s0). accepted thr r"
  shows "\<forall>r\<in>set (result_lines s). accepted thr r"
  using assms
proof (induction rule: round_start.induct)
  case first_round
  then show ?case by simp
next
  case (later_round s s')
  then obtain f where body: "loop_body thr s = Inr (s', f, False)"
    using next_round_Some by blast
  show ?case
    unfolding loop_body_Inr(2) [OF body]
    using later_round loop_body_accepted(1) [OF body] by auto
qed

lemma main_Inr:
  assumes "main features thr = Some (Inr sf)"
  shows "\<exists>ne nb s1 f. get_lines (read_shp features) = Inr (ne, nb) \<and>
           round_start thr (initial_state ne nb) s1 \<and> loop_body thr s1 = Inr (sf, f, True)"
proof -
  from assms obtain ne nb where gl: "get_lines (read_shp features) = Inr (ne, nb)"
    unfolding main_def by (cases "get_lines (read_shp features)") auto
  then have ml: "main_loop thr (initial_state ne nb) = Some (Inr sf)"
    using assms by (simp add: main_def)
  from main_loop_outcome [of thr "initial_state ne nb"] obtain s1 where
    s1: "round_start thr (initial_state ne nb) s1"
      "(\<exists>e. loop_body thr s1 = Inl e \<and> main_loop thr (initial_state ne nb) = Some (Inl e)) \<or>
       (\<exists>sf f. loop_body thr s1 = Inr (sf, f, True) \<and>
          main_loop thr (initial_state ne nb) = Some (Inr sf))"
    by blast
  from s1(2) ml obtain f where "loop_body thr s1 = Inr (sf, f, True)"
    by auto
  then show ?thesis
    using gl s1(1) by blast
qed

lemma main_Inl:
  assumes "main features thr = Some (Inl e)"
  shows "get_lines (read_shp features) = Inl e \<or>
         (\<exists>ne nb s1. get_lines (read_shp features) = Inr (ne, nb) \<and>
            round_start thr (initial_state ne nb) s1 \<and> loop_body thr s1 = Inl e)"
proof (cases "get_lines (read_shp features)")
  case (Inl e')
  then show ?thesis
    using assms by (simp add: main_def)
next
  case (Inr p)
  obtain ne nb where p: "p = (ne, nb)"
    by (cases p)
  have ml: "main_loop thr (initial_state ne nb) = Some (Inl e)"
    using assms Inr p by (simp add: main_def)
  from main_loop_outcome [of thr "initial_state ne nb"] obtain s1 where
    s1: "round_start thr (initial_state ne nb) s1"
      "(\<exists>e. loop_body thr s1 = Inl e \<and> main_loop thr (initial_state ne nb) = Some (Inl e)) \<or>
       (\<exists>sf f. loop_body thr s1 = Inr (sf, f, True) \<and>
          main_loop thr (initial_state ne nb) = Some (Inr sf))"
    by blast
  from s1(2) ml have "loop_body thr s1 = Inl e"
    by auto
  then show ?thesis
    using Inr p s1(1) by blast
qed

text \<open>
  Claim C1. For every group of candidates the filter builds one row, and the row is in
  the output of \<^verbatim>\<open>calculate_cos\<close> exactly when its \<open>angle\<close> (the difference between
  the bearings of the target line and of the destination line) is below the threshold,
  its \<open>angle_art\<close> (the difference between the bearings of the connector and of the
  destination line) is below the threshold, and its source id differs from its
  destination id. Every row of the output is the row of a group. No connector that a
  run accumulates has the same id as source and as destination, and all of them pass
  the two angle tests.
\<close>

theorem chosen_candidate_accepted_iff:
  "(calculate_cos no_begin artificial_lines no_end angle_treshold = Inr filtered \<and>
    (name, grp) \<in> set (groupby artificial_lines) \<longrightarrow>
      (\<exists>r. group_row no_begin no_end grp = Inr r \<and>
         (r \<in> set filtered \<longleftrightarrow>
            angle r < angle_treshold \<and> angle_art r < angle_treshold \<and> e_idx r \<noteq> b_idx r) \<and>
         (\<exists>c\<in>set grp. \<exists>t dst.
            e_idx r = e_idx c \<and> b_idx r = b_idx c \<and>
            loc no_end (e_idx c) = Inr t \<and> loc no_begin (b_idx c) = Inr dst \<and>
            angle r = \<bar>target_bearing t - destination_bearing dst\<bar> \<and>
            angle_art r = \<bar>connector_bearing c - destination_bearing dst\<bar>))) \<and>
   (calculate_cos no_begin artificial_lines no_end angle_treshold = Inr filtered \<longrightarrow>
      (\<forall>r\<in>set filtered. e_idx r \<noteq> b_idx r \<and>
         (\<exists>name grp. (name, grp) \<in> set (groupby artificial_lines) \<and>
            group_row no_begin no_end grp = Inr r))) \<and>
   (main features angle_treshold = Some (Inr final) \<longrightarrow>
      (\<forall>r\<in>set (result_lines final).
         e_idx r \<noteq> b_idx r \<and> angle r < angle_treshold \<and> angle_art r < angle_treshold))"
proof (intro conjI impI)
  assume a: "calculate_cos no_begin artificial_lines no_end angle_treshold = Inr filtered \<and>
    (name, grp) \<in> set (groupby artificial_lines)"
  from calculate_cos_Inr [of no_begin artificial_lines no_end angle_treshold filtered] a
  obtain rows where rows:
      "mapE (\<lambda>(name, grp). group_row no_begin no_end grp) (groupby artificial_lines) = Inr rows"
      "filtered = filter (accepted angle_treshold) (sort_key (\<lambda>r. (e_idx r, b_idx r)) rows)"
    by blast
  have mem: "(name, grp) \<in> set (groupby artificial_lines)"
    using a by simp
  obtain r where r: "group_row no_begin no_end grp = Inr r"
    using mapE_Inr_projr(2) [OF rows(1) mem] by auto
  have "r \<in> set rows"
    using group_rows_member [OF rows(1)] mem r by blast
  then have iff: "r \<in> set filtered \<longleftrightarrow>
      angle r < angle_treshold \<and> angle_art r < angle_treshold \<and> e_idx r \<noteq> b_idx r"
    using filtered_subset_rows(1) [OF rows(2)] by (auto simp: accepted_def)
  from group_row_source [OF mem r] obtain c where c: "c \<in> set grp" "e_idx r = e_idx c"
      "b_idx r = b_idx c" "candidate_angles no_begin no_end c = Inr (angle r, angle_art r)"
    by blast
  from candidate_angles_Inr [OF c(4)] obtain t dst where
      "loc no_end (e_idx c) = Inr t" "loc no_begin (b_idx c) = Inr dst"
      "angle r = \<bar>target_bearing t - destination_bearing dst\<bar>"
      "angle_art r = \<bar>connector_bearing c - destination_bearing dst\<bar>"
    by blast
  then have "\<exists>c\<in>set grp. \<exists>t dst.
            e_idx r = e_idx c \<and> b_idx r = b_idx c \<and>
            loc no_end (e_idx c) = Inr t \<and> loc no_begin (b_idx c) = Inr dst \<and>
            angle r = \<bar>target_bearing t - destination_bearing dst\<bar> \<and>
            angle_art r = \<bar>connector_bearing c - destination_bearing dst\<bar>"
    using c(1-3) by blast
  then show "\<exists>r. group_row no_begin no_end grp = Inr r \<and>
         (r \<in> set filtered \<longleftrightarrow>
            angle r < angle_treshold \<and> angle_art r < angle_treshold \<and> e_idx r \<noteq> b_idx r) \<and>
         (\<exists>c\<in>set grp. \<exists>t dst.
            e_idx r = e_idx c \<and> b_idx r = b_idx c \<and>
            loc no_end (e_idx c) = Inr t \<and> loc no_begin (b_idx c) = Inr dst \<and>
            angle r = \<bar>target_bearing t - destination_bearing dst\<bar> \<and>
            angle_art r = \<bar>connector_bearing c - destination_bearing dst\<bar>)"
    using r iff by blast
next
  assume a: "calculate_cos no_begin artificial_lines no_end angle_treshold = Inr filtered"
  from calculate_cos_Inr [OF a] obtain rows where rows:
      "mapE (\<lambda>(name, grp). group_row no_begin no_end grp) (groupby artificial_lines) = Inr rows"
      "filtered = filter (accepted angle_treshold) (sort_key (\<lambda>r. (e_idx r, b_idx r)) rows)"
    by blast
  show "\<forall>r\<in>set filtered. e_idx r \<noteq> b_idx r \<and>
         (\<exists>name grp. (name, grp) \<in> set (groupby artificial_lines) \<and>
            group_row no_begin no_end grp = Inr r)"
  proof
    fix r assume "r \<in> set filtered"
    then have "r \<in> set rows" "accepted angle_treshold r"
      using filtered_subset_rows(1) [OF rows(2)] by auto
    then show "e_idx r \<noteq> b_idx r \<and>
         (\<exists>name grp. (name, grp) \<in> set (groupby artificial_lines) \<and>
            group_row no_begin no_end grp = Inr r)"
      using group_rows_member [OF rows(1)] by (auto simp: accepted_def)
  qed
next
  assume "main features angle_treshold = Some (Inr final)"
  from main_Inr [OF this] obtain ne nb s1 f where
      s1: "round_start angle_treshold (initial_state ne nb) s1"
      and body: "loop_body angle_treshold s1 = Inr (final, f, True)"
    by blast
  have "\<forall>r\<in>set (result_lines (initial_state ne nb)). accepted angle_treshold r"
    by (simp add: initial_state_def)
  then have "\<forall>r\<in>set (result_lines s1). accepted angle_treshold r"
    using round_start_accepted [OF s1] by blast
  then have "\<forall>r\<in>set (result_lines final). accepted angle_treshold r"
    unfolding loop_body_Inr(2) [OF body] using loop_body_accepted(1) [OF body] by auto
  then show "\<forall>r\<in>set (result_lines final).
         e_idx r \<noteq> b_idx r \<and> angle r < angle_treshold \<and> angle_art r < angle_treshold"
    by (auto simp: accepted_def)
qed

lemma ex_group_member:
  "(1, [\<lparr>e_idx = 1, b_idx = 0, line_geom = [(1, 0), (0, - 5)]\<rparr>,
        \<lparr>e_idx = 1, b_idx = 2, line_geom = [(1, 0), (2, 0)]\<rparr>]) \<in>
   set (groupby [\<lparr>e_idx = 1, b_idx = 0, line_geom = [(1, 0), (0, - 5)]\<rparr>,
                 \<lparr>e_idx = 1, b_idx = 2, line_geom = [(1, 0), (2, 0)]\<rparr>,
                 \<lparr>e_idx = 3, b_idx = 3, line_geom = [(0, 11), (0, 10)]\<rparr>])"
  by (simp add: groupby_def)

theorem chosen_candidate_accepted_iff_witness:
  "(\<exists>r. group_row [ex_P, ex_B, ex_C] [ex_A, ex_B, ex_C]
           [\<lparr>e_idx = 1, b_idx = 0, line_geom = [(1, 0), (0, - 5)]\<rparr>,
            \<lparr>e_idx = 1, b_idx = 2, line_geom = [(1, 0), (2, 0)]\<rparr>] = Inr r \<and>
         r \<in> set [ex_A_to_B] \<and> angle r < 5 \<and> angle_art r < 5 \<and> e_idx r \<noteq> b_idx r) \<and>
   ex_A_to_B \<in> set (result_lines ex_final) \<and>
   e_idx ex_A_to_B \<noteq> b_idx ex_A_to_B \<and> angle ex_A_to_B < 5 \<and> angle_art ex_A_to_B < 5"
proof -
  let ?grp = "[\<lparr>e_idx = 1, b_idx = 0, line_geom = [(1, 0), (0, - 5)]\<rparr>,
               \<lparr>e_idx = 1, b_idx = 2, line_geom = [(1, 0), (2, 0)]\<rparr>]"
  let ?art = "[\<lparr>e_idx = 1, b_idx = 0, line_geom = [(1, 0), (0, - 5)]\<rparr>,
               \<lparr>e_idx = 1, b_idx = 2, line_geom = [(1, 0), (2, 0)]\<rparr>,
               \<lparr>e_idx = 3, b_idx = 3, line_geom = [(0, 11), (0, 10)]\<rparr>]"
  have cos: "calculate_cos [ex_P, ex_B, ex_C] ?art [ex_A, ex_B, ex_C] 5 = Inr [ex_A_to_B]"
    using ex_cos by (simp add: ex_A_to_B_def)
  note rule = chosen_candidate_accepted_iff
    [of "[ex_P, ex_B, ex_C]" ?art "[ex_A, ex_B, ex_C]" 5 "[ex_A_to_B]" 1 ?grp ex_features ex_final]
  have "\<exists>r. group_row [ex_P, ex_B, ex_C] [ex_A, ex_B, ex_C] ?grp = Inr r \<and>
         (r \<in> set [ex_A_to_B] \<longleftrightarrow> angle r < 5 \<and> angle_art r < 5 \<and> e_idx r \<noteq> b_idx r)"
    using rule cos ex_group_member by blast
  then have "r \<in> set [ex_A_to_B] \<longleftrightarrow> angle r < 5 \<and> angle_art r < 5 \<and> e_idx r \<noteq> b_idx r"
    if "r = ex_A_to_B" for r
    using that ex_group_row by simp
  then have first: "\<exists>r. group_row [ex_P, ex_B, ex_C] [ex_A, ex_B, ex_C] ?grp = Inr r \<and>
         r \<in> set [ex_A_to_B] \<and> angle r < 5 \<and> angle_art r < 5 \<and> e_idx r \<noteq> b_idx r"
    using ex_group_row by simp
  have mem: "ex_A_to_B \<in> set (result_lines ex_final)"
    by (simp add: ex_final_def)
  have "\<forall>r\<in>set (result_lines ex_final).
      e_idx r \<noteq> b_idx r \<and> angle r < 5 \<and> angle_art r < 5"
    using rule ex_main by blast
  then have "e_idx ex_A_to_B \<noteq> b_idx ex_A_to_B \<and> angle ex_A_to_B < 5 \<and> angle_art ex_A_to_B < 5"
    using mem by blast
  then show ?thesis
    using first mem by blast
qed

section \<open>Matched ids leave the pools\<close>

text \<open>
  Claim C4. In every round of a run on an input with unique ids, each connector that the
  round accepts has its source id in the pool of lines without end and its destination
  id in the pool of lines without begin, as the pools are when the round starts. After
  the round no id is the source of two accumulated connectors and none the destination
  of two, and in every later round all connectors accumulated so far are still
  accumulated while their source ids are absent from the pool of lines without end and
  their destination ids from the pool of lines without begin.
\<close>

theorem matched_ids_leave_their_pools:
  assumes "get_lines (read_shp features) = Inr (no_end, no_begin)"
    and "distinct (map fst features)"
    and "round_start angle_threshold (initial_state no_end no_begin) s"
    and "loop_body angle_threshold s = Inr (s', accepted_lines, stop)"
  shows "result_lines s' = result_lines s @ accepted_lines \<and>
         (\<forall>c\<in>set accepted_lines.
            e_idx c \<in> ident ` set (lines_no_end s) \<and>
            b_idx c \<in> ident ` set (lines_no_begin s)) \<and>
         distinct (map e_idx (result_lines s')) \<and>
         distinct (map b_idx (result_lines s')) \<and>
         (\<forall>s''. round_start angle_threshold s' s'' \<longrightarrow>
            (\<forall>c\<in>set (result_lines s').
               c \<in> set (result_lines s'') \<and>
               e_idx c \<notin> ident ` set (lines_no_end s'') \<and>
               b_idx c \<notin> ident ` set (lines_no_begin s'')))"
proof -
  have "matched_once (initial_state no_end no_begin)"
    using assms(1,2) by (rule initial_matched_once)
  then have "matched_once s"
    using assms(3) round_start_matched_once by blast
  then have inv: "matched_once s'"
    using assms(4) by (rule matched_once_step)
  note body = loop_body_Inr [OF assms(4)]
  have at_acceptance: "\<forall>c\<in>set accepted_lines.
      e_idx c \<in> ident ` set (lines_no_end s) \<and> b_idx c \<in> ident ` set (lines_no_begin s)"
    using body(5,6) by auto
  have later: "c \<in> set (result_lines s'') \<and>
               e_idx c \<notin> ident ` set (lines_no_end s'') \<and>
               b_idx c \<notin> ident ` set (lines_no_begin s'')"
    if reach: "round_start angle_threshold s' s''" and c: "c \<in> set (result_lines s')" for s'' c
  proof -
    have c'': "c \<in> set (result_lines s'')"
      using round_start_monotone(1) [OF reach] c by blast
    have "matched_once s''"
      using reach inv by (rule round_start_matched_once)
    then have "e_idx ` set (result_lines s'') \<inter> ident ` set (lines_no_end s'') = {}"
        "b_idx ` set (result_lines s'') \<inter> ident ` set (lines_no_begin s'') = {}"
      unfolding matched_once_def by simp_all
    then show ?thesis
      using c'' by blast
  qed
  show ?thesis
  proof (intro conjI allI impI ballI)
    show "result_lines s' = result_lines s @ accepted_lines"
      by (rule body(2))
    show "e_idx c \<in> ident ` set (lines_no_end s)" if "c \<in> set accepted_lines" for c
      using at_acceptance that by blast
    show "b_idx c \<in> ident ` set (lines_no_begin s)" if "c \<in> set accepted_lines" for c
      using at_acceptance that by blast
    show "distinct (map e_idx (result_lines s'))"
      using inv unfolding matched_once_def by simp
    show "distinct (map b_idx (result_lines s'))"
      using inv unfolding matched_once_def by simp
  next
    fix s'' c
    assume reach: "round_start angle_threshold s' s''" and c: "c \<in> set (result_lines s')"
    show "c \<in> set (result_lines s'')"
      using later [OF reach c] by simp
    show "e_idx c \<notin> ident ` set (lines_no_end s'')"
      using later [OF reach c] by simp
    show "b_idx c \<notin> ident ` set (lines_no_begin s'')"
      using later [OF reach c] by simp
  qed
qed

theorem matched_ids_leave_their_pools_witness:
  "result_lines ex_gaps_round_2 = result_lines ex_gaps_round_1 @ map ex_gap_connector [1, 2, 3, 4, 5] \<and>
   e_idx (ex_gap_connector 3) \<in> ident ` set (lines_no_end ex_gaps_round_1) \<and>
   b_idx (ex_gap_connector 3) \<in> ident ` set (lines_no_begin ex_gaps_round_1) \<and>
   distinct (map e_idx (result_lines ex_gaps_round_2)) \<and>
   distinct (map b_idx (result_lines ex_gaps_round_2)) \<and>
   ex_gap_connector 3 \<in> set (result_lines ex_gaps_round_2) \<and>
   e_idx (ex_gap_connector 3) \<notin> ident ` set (lines_no_end ex_gaps_round_2) \<and>
   b_idx (ex_gap_connector 3) \<notin> ident ` set (lines_no_begin ex_gaps_round_2)"
proof -
  have h1: "get_lines (read_shp ex_gaps) =
      Inr ([ex_b1, ex_b2, ex_b3, ex_b4, ex_b5, ex_a1, ex_a2, ex_a3, ex_a4, ex_a5],
           [ex_b1, ex_b2, ex_b3, ex_b4, ex_b5, ex_a1, ex_a2, ex_a3, ex_a4, ex_a5])"
    by (rule ex_gaps_get_lines)
  have h2: "distinct (map fst ex_gaps)"
    by (simp add: ex_gaps_def)
  have h3: "round_start 5
      (initial_state [ex_b1, ex_b2, ex_b3, ex_b4, ex_b5, ex_a1, ex_a2, ex_a3, ex_a4, ex_a5]
                     [ex_b1, ex_b2, ex_b3, ex_b4, ex_b5, ex_a1, ex_a2, ex_a3, ex_a4, ex_a5])
      ex_gaps_round_1"
    unfolding ex_gaps_round_1_def by (rule round_start.first_round)
  have h5: "round_start 5 ex_gaps_round_2 ex_gaps_round_2"
    by (rule round_start.first_round)
  have m1: "ex_gap_connector 3 \<in> set (map ex_gap_connector [1, 2, 3, 4, 5])"
    by simp
  have m2: "ex_gap_connector 3 \<in> set (result_lines ex_gaps_round_2)"
    by (simp add: ex_gaps_round_2_def)
  note r = matched_ids_leave_their_pools [OF h1 h2 h3 ex_gaps_loop_body_1]
  note at_acceptance = r [THEN conjunct2, THEN conjunct1]
  note later = r [THEN conjunct2, THEN conjunct2, THEN conjunct2, THEN conjunct2]
  have a: "e_idx (ex_gap_connector 3) \<in> ident ` set (lines_no_end ex_gaps_round_1) \<and>
      b_idx (ex_gap_connector 3) \<in> ident ` set (lines_no_begin ex_gaps_round_1)"
    using at_acceptance m1 by blast
  have b: "e_idx (ex_gap_connector 3) \<notin> ident ` set (lines_no_end ex_gaps_round_2) \<and>
      b_idx (ex_gap_connector 3) \<notin> ident ` set (lines_no_begin ex_gaps_round_2)"
    using later h5 m2 by blast
  show ?thesis
    using r [THEN conjunct1] a
      r [THEN conjunct2, THEN conjunct2, THEN conjunct1]
      r [THEN conjunct2, THEN conjunct2, THEN conjunct2, THEN conjunct1] m2 b
    by (intro conjI) simp_all
qed

section \<open>The convergence loop\<close>

lemma main_outcome:
  assumes "distinct (map fst features)"
  shows "(\<exists>final. main features thr = Some (Inr final)) \<or>
         main features thr = Some (Inl IndexError) \<or>
         main features thr = Some (Inl ValueError)"
proof -
  obtain r where r: "main features thr = Some r"
    using main_terminates by blast
  show ?thesis
  proof (cases r)
    case (Inr final)
    then show ?thesis
      using r by simp
  next
    case (Inl e)
    then have m: "main features thr = Some (Inl e)"
      using r by simp
    from main_Inl [OF m] show ?thesis
    proof
      assume "get_lines (read_shp features) = Inl e"
      then have "e = IndexError"
        by (rule get_lines_error)
      then show ?thesis
        using m by simp
    next
      assume "\<exists>ne nb s1. get_lines (read_shp features) = Inr (ne, nb) \<and>
            round_start thr (initial_state ne nb) s1 \<and> loop_body thr s1 = Inl e"
      then obtain ne nb s1 where gl: "get_lines (read_shp features) = Inr (ne, nb)"
          and reach: "round_start thr (initial_state ne nb) s1"
          and body: "loop_body thr s1 = Inl e"
        by blast
      have "matched_once s1"
        using reach initial_matched_once [OF gl assms] by (rule round_start_matched_once)
      then have "well_formed_pools (lines_no_end s1) (lines_no_begin s1)"
        unfolding matched_once_def by simp
      then have "e = ValueError"
        using loop_body_error body by blast
      then show ?thesis
        using m by simp
    qed
  qed
qed

lemma round_of_run:
  assumes "get_lines (read_shp features) = Inr (no_end, no_begin)"
    and "distinct (map fst features)"
    and "round_start thr (initial_state no_end no_begin) s"
  shows "matched_once s" and "previous_result_length s = length (result_lines s)"
proof -
  show "matched_once s"
    using assms(3) initial_matched_once [OF assms(1,2)] by (rule round_start_matched_once)
  show "previous_result_length s = length (result_lines s)"
    using assms(3) by (rule round_start_aligned) (simp add: initial_state_def)
qed

lemma aligned_stop_iff:
  assumes "previous_result_length s = length (result_lines s)"
    and "loop_body thr s = Inr (s', f, stop)"
  shows "stop \<longleftrightarrow> length f < 5"
    and "stop \<longleftrightarrow> \<bar>int (length (result_lines s')) - int (previous_result_length s)\<bar> < 5"
proof -
  note body = loop_body_Inr [OF assms(2)]
  show "stop \<longleftrightarrow> length f < 5"
    using body(7) assms(1) by simp
  show "stop \<longleftrightarrow> \<bar>int (length (result_lines s')) - int (previous_result_length s)\<bar> < 5"
    unfolding body(2) using body(7) by (simp add: abs_minus_commute)
qed

text \<open>
  Claim C3, as amended. A run ends after finitely many passes of the loop, for every
  input. With unique ids it ends at the break, or with the exception of \<^verbatim>\<open>get_lines\<close>,
  or with the \<^verbatim>\<open>ValueError\<close> of the search, which a pass raises exactly when it starts
  with fewer than three lines without end or with no line without begin. A pass that
  does not raise searches, synthesizes and filters over the current pools, appends the
  accepted connectors, drops their destination ids and source ids from the two pools,
  and breaks exactly when the accumulated count differs from the previous count by less
  than 5, that is when it accepted fewer than 5 connectors. A pass that continues sets
  the previous count to the accumulated count, accepted at least 5 connectors and
  removed as many lines from each pool.
\<close>

theorem loop_rounds_and_termination:
  "(\<exists>r. main features angle_threshold = Some r) \<and>
   (distinct (map fst features) \<longrightarrow>
      (\<exists>final. main features angle_threshold = Some (Inr final)) \<or>
      main features angle_threshold = Some (Inl IndexError) \<or>
      main features angle_threshold = Some (Inl ValueError)) \<and>
   (get_lines (read_shp features) = Inr (no_end, no_begin) \<and> distinct (map fst features) \<and>
    round_start angle_threshold (initial_state no_end no_begin) s \<longrightarrow>
      (\<forall>e. loop_body angle_threshold s = Inl e \<longrightarrow>
         e = ValueError \<and> (length (lines_no_end s) < 3 \<or> lines_no_begin s = [])) \<and>
      (3 \<le> length (lines_no_end s) \<and> lines_no_begin s \<noteq> [] \<longrightarrow>
         (\<exists>s' f stop. loop_body angle_threshold s = Inr (s', f, stop))) \<and>
      (\<forall>s' f stop. loop_body angle_threshold s = Inr (s', f, stop) \<longrightarrow>
         (\<exists>art. round_candidates (lines_no_end s) (lines_no_begin s) = Inr art \<and>
            calculate_cos (lines_no_begin s) art (lines_no_end s) angle_threshold = Inr f) \<and>
         result_lines s' = result_lines s @ f \<and>
         lines_no_begin s' = filter (\<lambda>r. ident r \<notin> set (map b_idx f)) (lines_no_begin s) \<and>
         lines_no_end s' = filter (\<lambda>r. ident r \<notin> set (map e_idx f)) (lines_no_end s) \<and>
         (stop \<longleftrightarrow>
            \<bar>int (length (result_lines s')) - int (previous_result_length s)\<bar> < 5) \<and>
         (stop \<longleftrightarrow> length f < 5) \<and>
         (stop \<longrightarrow> main_loop angle_threshold s = Some (Inr s')) \<and>
         (\<not> stop \<longrightarrow>
            previous_result_length s' = length (result_lines s') \<and>
            main_loop angle_threshold s = main_loop angle_threshold s' \<and>
            round_start angle_threshold (initial_state no_end no_begin) s' \<and>
            5 \<le> length f \<and>
            length (lines_no_end s') + length f = length (lines_no_end s) \<and>
            length (lines_no_begin s') + length f = length (lines_no_begin s))))"
proof (intro conjI impI allI)
  show "\<exists>r. main features angle_threshold = Some r"
    by (rule main_terminates)
next
  assume "distinct (map fst features)"
  then show "(\<exists>final. main features angle_threshold = Some (Inr final)) \<or>
      main features angle_threshold = Some (Inl IndexError) \<or>
      main features angle_threshold = Some (Inl ValueError)"
    by (rule main_outcome)
next
  fix e
  assume a: "get_lines (read_shp features) = Inr (no_end, no_begin) \<and>
    distinct (map fst features) \<and> round_start angle_threshold (initial_state no_end no_begin) s"
    and e: "loop_body angle_threshold s = Inl e"
  have "matched_once s"
    using a round_of_run(1) by blast
  then have wf: "well_formed_pools (lines_no_end s) (lines_no_begin s)"
    unfolding matched_once_def by simp
  from loop_body_error [OF wf e]
  show "e = ValueError" and "length (lines_no_end s) < 3 \<or> lines_no_begin s = []"
    by simp_all
next
  assume a: "get_lines (read_shp features) = Inr (no_end, no_begin) \<and>
    distinct (map fst features) \<and> round_start angle_threshold (initial_state no_end no_begin) s"
    and big: "3 \<le> length (lines_no_end s) \<and> lines_no_begin s \<noteq> []"
  have "matched_once s"
    using a round_of_run(1) by blast
  then have wf: "well_formed_pools (lines_no_end s) (lines_no_begin s)"
    unfolding matched_once_def by simp
  show "\<exists>s' f stop. loop_body angle_threshold s = Inr (s', f, stop)"
    using loop_body_total [OF wf] big by blast
next
  fix s' f stop
  assume a: "get_lines (read_shp features) = Inr (no_end, no_begin) \<and>
    distinct (map fst features) \<and> round_start angle_threshold (initial_state no_end no_begin) s"
    and b: "loop_body angle_threshold s = Inr (s', f, stop)"
  have inv: "matched_once s" and al: "previous_result_length s = length (result_lines s)"
    using a round_of_run by blast+
  note body = loop_body_Inr [OF b]
  show "\<exists>art. round_candidates (lines_no_end s) (lines_no_begin s) = Inr art \<and>
            calculate_cos (lines_no_begin s) art (lines_no_end s) angle_threshold = Inr f"
    by (rule body(1))
  show "result_lines s' = result_lines s @ f"
    by (rule body(2))
  show "lines_no_begin s' = filter (\<lambda>r. ident r \<notin> set (map b_idx f)) (lines_no_begin s)"
    by (rule body(3))
  show "lines_no_end s' = filter (\<lambda>r. ident r \<notin> set (map e_idx f)) (lines_no_end s)"
    by (rule body(4))
  show "stop \<longleftrightarrow> \<bar>int (length (result_lines s')) - int (previous_result_length s)\<bar> < 5"
    using al b by (rule aligned_stop_iff(2))
  show iff: "stop \<longleftrightarrow> length f < 5"
    using al b by (rule aligned_stop_iff(1))
  show "main_loop angle_threshold s = Some (Inr s')" if st: stop
  proof -
    have "loop_body angle_threshold s = Inr (s', f, True)"
      using b st by simp
    then show ?thesis
      by (rule main_loop_stop)
  qed
  {
    assume ns: "\<not> stop"
    then have cont: "loop_body angle_threshold s = Inr (s', f, False)"
      using b by simp
    show "previous_result_length s' = length (result_lines s')"
      using body(8) ns by simp
    show "main_loop angle_threshold s = main_loop angle_threshold s'"
      using cont by (rule main_loop_continue)
    show "round_start angle_threshold (initial_state no_end no_begin) s'"
      using a cont next_round_Some round_start.later_round by blast
    show "5 \<le> length f"
      using iff ns by simp
    show "length (lines_no_end s') + length f = length (lines_no_end s)"
      using inv b by (rule loop_body_pool_sizes(1))
    show "length (lines_no_begin s') + length f = length (lines_no_begin s)"
      using inv b by (rule loop_body_pool_sizes(2))
  }
qed


theorem loop_rounds_and_termination_witness:
  "(\<exists>r. main ex_gaps 5 = Some r) \<and>
   5 \<le> length (map ex_gap_connector [1, 2, 3, 4, 5]) \<and>
   previous_result_length ex_gaps_round_2 = length (result_lines ex_gaps_round_2) \<and>
   length (lines_no_end ex_gaps_round_2) + length (map ex_gap_connector [1, 2, 3, 4, 5]) =
     length (lines_no_end ex_gaps_round_1) \<and>
   length (lines_no_begin ex_gaps_round_2) + length (map ex_gap_connector [1, 2, 3, 4, 5]) =
     length (lines_no_begin ex_gaps_round_1)"
proof -
  note r = loop_rounds_and_termination
    [of ex_gaps 5 "[ex_b1, ex_b2, ex_b3, ex_b4, ex_b5, ex_a1, ex_a2, ex_a3, ex_a4, ex_a5]"
        "[ex_b1, ex_b2, ex_b3, ex_b4, ex_b5, ex_a1, ex_a2, ex_a3, ex_a4, ex_a5]" ex_gaps_round_1]
  have h: "get_lines (read_shp ex_gaps) =
        Inr ([ex_b1, ex_b2, ex_b3, ex_b4, ex_b5, ex_a1, ex_a2, ex_a3, ex_a4, ex_a5],
             [ex_b1, ex_b2, ex_b3, ex_b4, ex_b5, ex_a1, ex_a2, ex_a3, ex_a4, ex_a5]) \<and>
      distinct (map fst ex_gaps) \<and>
      round_start 5 (initial_state [ex_b1, ex_b2, ex_b3, ex_b4, ex_b5, ex_a1, ex_a2, ex_a3, ex_a4, ex_a5]
                       [ex_b1, ex_b2, ex_b3, ex_b4, ex_b5, ex_a1, ex_a2, ex_a3, ex_a4, ex_a5]) ex_gaps_round_1"
    unfolding ex_gaps_round_1_def [symmetric]
    by (intro conjI ex_gaps_get_lines round_start.first_round) (simp add: ex_gaps_def)
  have round: "\<forall>s' f stop. loop_body 5 ex_gaps_round_1 = Inr (s', f, stop) \<longrightarrow>
         (\<exists>art. round_candidates (lines_no_end ex_gaps_round_1) (lines_no_begin ex_gaps_round_1) = Inr art \<and>
            calculate_cos (lines_no_begin ex_gaps_round_1) art (lines_no_end ex_gaps_round_1) 5 = Inr f) \<and>
         result_lines s' = result_lines ex_gaps_round_1 @ f \<and>
         lines_no_begin s' = filter (\<lambda>r. ident r \<notin> set (map b_idx f)) (lines_no_begin ex_gaps_round_1) \<and>
         lines_no_end s' = filter (\<lambda>r. ident r \<notin> set (map e_idx f)) (lines_no_end ex_gaps_round_1) \<and>
         (stop \<longleftrightarrow>
            \<bar>int (length (result_lines s')) - int (previous_result_length ex_gaps_round_1)\<bar> < 5) \<and>
         (stop \<longleftrightarrow> length f < 5) \<and>
         (stop \<longrightarrow> main_loop 5 ex_gaps_round_1 = Some (Inr s')) \<and>
         (\<not> stop \<longrightarrow>
            previous_result_length s' = length (result_lines s') \<and>
            main_loop 5 ex_gaps_round_1 = main_loop 5 s' \<and>
            round_start 5 (initial_state [ex_b1, ex_b2, ex_b3, ex_b4, ex_b5, ex_a1, ex_a2, ex_a3, ex_a4, ex_a5]
                             [ex_b1, ex_b2, ex_b3, ex_b4, ex_b5, ex_a1, ex_a2, ex_a3, ex_a4, ex_a5]) s' \<and>
            5 \<le> length f \<and>
            length (lines_no_end s') + length f = length (lines_no_end ex_gaps_round_1) \<and>
            length (lines_no_begin s') + length f = length (lines_no_begin ex_gaps_round_1))"
    using r [THEN conjunct2, THEN conjunct2] h by blast
  have "\<not> False \<longrightarrow>
            previous_result_length ex_gaps_round_2 = length (result_lines ex_gaps_round_2) \<and>
            main_loop 5 ex_gaps_round_1 = main_loop 5 ex_gaps_round_2 \<and>
            round_start 5 (initial_state [ex_b1, ex_b2, ex_b3, ex_b4, ex_b5, ex_a1, ex_a2, ex_a3, ex_a4, ex_a5]
                             [ex_b1, ex_b2, ex_b3, ex_b4, ex_b5, ex_a1, ex_a2, ex_a3, ex_a4, ex_a5]) ex_gaps_round_2 \<and>
            5 \<le> length (map ex_gap_connector [1, 2, 3, 4, 5]) \<and>
            length (lines_no_end ex_gaps_round_2) + length (map ex_gap_connector [1, 2, 3, 4, 5]) =
              length (lines_no_end ex_gaps_round_1) \<and>
            length (lines_no_begin ex_gaps_round_2) + length (map ex_gap_connector [1, 2, 3, 4, 5]) =
              length (lines_no_begin ex_gaps_round_1)"
    using round ex_gaps_loop_body_1 by blast
  then show ?thesis
    using r [THEN conjunct1] by blast
qed

text \<open>
  A single isolated line is a well-formed input. The first round starts with one line
  without end, the search raises, and the loop does not reach the break.
\<close>

theorem isolated_line_counterexample:
  "get_lines (read_shp [(1, [(0, 0), (1, 0)])]) = Inr ([ex_A], [ex_A]) \<and>
   main [(1, [(0, 0), (1, 0)])] 5 = Some (Inl ValueError)"
proof -
  have gl: "get_lines (read_shp [(1, [(0, 0), (1, 0)])]) = Inr ([ex_A], [ex_A])"
    by (simp add: ex_rows read_shp_def get_lines_def boundary_def get_begin_def get_end_def
          Let_def)
  have "loop_body 5 (initial_state [ex_A] [ex_A]) = Inl ValueError"
    by (rule loop_body_small_pool) (simp add: initial_state_def)
  then have "main_loop 5 (initial_state [ex_A] [ex_A]) = Some (Inl ValueError)"
    by (rule main_loop_Inl)
  then show ?thesis
    using gl by (simp add: main_def)
qed

section \<open>Segments of length zero\<close>

lemma ex_degenerate_candidates:
  "round_candidates [ex_A_degenerate, ex_B, ex_C] [ex_P, ex_B, ex_C] =
     Inr [\<lparr>e_idx = 1, b_idx = 0, line_geom = [(1, 0), (0, -5)]\<rparr>,
          \<lparr>e_idx = 1, b_idx = 2, line_geom = [(1, 0), (2, 0)]\<rparr>,
          \<lparr>e_idx = 3, b_idx = 3, line_geom = [(0, 11), (0, 10)]\<rparr>]"
  by (simp add: round_candidates_def calculate_neighbors_def kneighbors_def euclidean_def upt3
        first_column_def convert_to_id_def generate_artificial_lines_def loc_def ex_rows Let_def)

lemma ex_degenerate_angles:
  "candidate_angles [ex_P, ex_B, ex_C] [ex_A_degenerate, ex_B, ex_C]
     \<lparr>e_idx = 1, b_idx = 2, line_geom = [(1, 0), (2, 0)]\<rparr> = Inr (0, 0)"
  by (simp add: candidate_angles_def loc_def ex_rows AngleBtw2Points_def atan2_def degrees_def)

lemma ex_degenerate_cos:
  "calculate_cos [ex_P, ex_B, ex_C]
     [\<lparr>e_idx = 1, b_idx = 0, line_geom = [(1, 0), (0, -5)]\<rparr>,
      \<lparr>e_idx = 1, b_idx = 2, line_geom = [(1, 0), (2, 0)]\<rparr>,
      \<lparr>e_idx = 3, b_idx = 3, line_geom = [(0, 11), (0, 10)]\<rparr>]
     [ex_A_degenerate, ex_B, ex_C] 5 = Inr [ex_A_to_B]"
  by (simp add: calculate_cos_def groupby_def group_row_def enumerate_eq_zip upt3
        candidate_angles_def loc_def ex_rows AngleBtw2Points_def atan2_def degrees_def
        accepted_def ex_A_to_B_def)

lemma ex_degenerate_loop_body:
  "loop_body 5 (initial_state [ex_A_degenerate, ex_B, ex_C] [ex_P, ex_B, ex_C]) =
     Inr (ex_final, [ex_A_to_B], True)"
proof -
  have drop: "drop_rows (map b_idx [ex_A_to_B]) [ex_P, ex_B, ex_C] = Inr [ex_P, ex_C]"
      "drop_rows (map e_idx [ex_A_to_B]) [ex_A_degenerate, ex_B, ex_C] = Inr [ex_B, ex_C]"
    by (simp_all add: drop_rows_def ex_A_to_B_def ex_rows)
  have fields: "lines_no_end (initial_state [ex_A_degenerate, ex_B, ex_C] [ex_P, ex_B, ex_C]) =
        [ex_A_degenerate, ex_B, ex_C]"
      "lines_no_begin (initial_state [ex_A_degenerate, ex_B, ex_C] [ex_P, ex_B, ex_C]) =
        [ex_P, ex_B, ex_C]"
      "result_lines (initial_state [ex_A_degenerate, ex_B, ex_C] [ex_P, ex_B, ex_C]) = []"
      "previous_result_length (initial_state [ex_A_degenerate, ex_B, ex_C] [ex_P, ex_B, ex_C]) = 0"
    by (simp_all add: initial_state_def)
  show ?thesis
    by (simp only: loop_body_def fields ex_degenerate_candidates sum.case ex_degenerate_cos
          drop Let_def)
       (simp add: ex_final_def)
qed

lemma ex_degenerate_main: "main ex_features_degenerate 5 = Some (Inr ex_final)"
  by (simp add: main_def ex_degenerate_get_lines main_loop_stop [OF ex_degenerate_loop_body])

text \<open>
  Claim C8, as amended. The bearing of a segment of length zero is not undefined: it is
  \<open>0\<close>, the value of \<open>atan2 0 0\<close>, and no exception is raised. A candidate with such
  a segment is not set aside; its two angle differences are computed with \<open>0\<close> in the
  place of that bearing, and it goes through the selection and the acceptance test with
  them like any other candidate.
\<close>

theorem zero_length_segment_has_bearing_zero:
  "AngleBtw2Points p p = 0 \<and>
   (candidate_angles no_begin no_end c = Inr (d, a) \<longrightarrow>
      (\<exists>t dst. loc no_end (e_idx c) = Inr t \<and> loc no_begin (b_idx c) = Inr dst \<and>
         (geometry t ! (length (geometry t) - 2) = geometry t ! (length (geometry t) - 1) \<longrightarrow>
            d = \<bar>destination_bearing dst\<bar>) \<and>
         (geometry dst ! 0 = geometry dst ! 1 \<longrightarrow>
            d = \<bar>target_bearing t\<bar> \<and> a = \<bar>connector_bearing c\<bar>) \<and>
         (line_geom c ! 0 = line_geom c ! 1 \<longrightarrow> a = \<bar>destination_bearing dst\<bar>)))"
proof (intro conjI impI)
  show "AngleBtw2Points p p = 0"
    by (rule bearing_same_point)
next
  assume "candidate_angles no_begin no_end c = Inr (d, a)"
  from candidate_angles_Inr [OF this] obtain t dst where
      t: "loc no_end (e_idx c) = Inr t" and dst: "loc no_begin (b_idx c) = Inr dst"
      and d: "d = \<bar>target_bearing t - destination_bearing dst\<bar>"
      and a: "a = \<bar>connector_bearing c - destination_bearing dst\<bar>"
    by blast
  have "d = \<bar>destination_bearing dst\<bar>"
    if "geometry t ! (length (geometry t) - 2) = geometry t ! (length (geometry t) - 1)"
    using that d by (simp add: target_bearing_def bearing_same_point)
  moreover have "d = \<bar>target_bearing t\<bar> \<and> a = \<bar>connector_bearing c\<bar>"
    if "geometry dst ! 0 = geometry dst ! 1"
    using that d a by (simp add: destination_bearing_def bearing_same_point)
  moreover have "a = \<bar>destination_bearing dst\<bar>" if "line_geom c ! 0 = line_geom c ! 1"
    using that a by (simp add: connector_bearing_def bearing_same_point)
  ultimately show "\<exists>t dst. loc no_end (e_idx c) = Inr t \<and> loc no_begin (b_idx c) = Inr dst \<and>
         (geometry t ! (length (geometry t) - 2) = geometry t ! (length (geometry t) - 1) \<longrightarrow>
            d = \<bar>destination_bearing dst\<bar>) \<and>
         (geometry dst ! 0 = geometry dst ! 1 \<longrightarrow>
            d = \<bar>target_bearing t\<bar> \<and> a = \<bar>connector_bearing c\<bar>) \<and>
         (line_geom c ! 0 = line_geom c ! 1 \<longrightarrow> a = \<bar>destination_bearing dst\<bar>)"
    using t dst by blast
qed

theorem zero_length_segment_has_bearing_zero_witness:
  "AngleBtw2Points (1, 0) (1, 0) = 0 \<and>
   loc [ex_A_degenerate, ex_B, ex_C] 1 = Inr ex_A_degenerate \<and>
   loc [ex_P, ex_B, ex_C] 2 = Inr ex_B \<and>
   geometry ex_A_degenerate ! (length (geometry ex_A_degenerate) - 2) =
     geometry ex_A_degenerate ! (length (geometry ex_A_degenerate) - 1) \<and>
   (0::real) = \<bar>destination_bearing ex_B\<bar>"
proof -
  let ?c = "\<lparr>e_idx = 1, b_idx = 2, line_geom = [(1, 0), (2, 0)]\<rparr>"
  note r = zero_length_segment_has_bearing_zero
    [of "(1, 0)" "[ex_P, ex_B, ex_C]" "[ex_A_degenerate, ex_B, ex_C]" ?c 0 0]
  have lt: "loc [ex_A_degenerate, ex_B, ex_C] 1 = Inr ex_A_degenerate"
    and ld: "loc [ex_P, ex_B, ex_C] 2 = Inr ex_B"
    by (simp_all add: loc_def ex_rows)
  have deg: "geometry ex_A_degenerate ! (length (geometry ex_A_degenerate) - 2) =
     geometry ex_A_degenerate ! (length (geometry ex_A_degenerate) - 1)"
    by (simp add: ex_A_degenerate_def)
  from r [THEN conjunct2] ex_degenerate_angles obtain t dst where
      "loc [ex_A_degenerate, ex_B, ex_C] (e_idx ?c) = Inr t"
      "loc [ex_P, ex_B, ex_C] (b_idx ?c) = Inr dst"
      "geometry t ! (length (geometry t) - 2) = geometry t ! (length (geometry t) - 1) \<longrightarrow>
         (0::real) = \<bar>destination_bearing dst\<bar>"
    by blast
  then have "(0::real) = \<bar>destination_bearing ex_B\<bar>"
    using lt ld deg by simp
  then show ?thesis
    using r [THEN conjunct1] lt ld deg by blast
qed

text \<open>
  The last segment of the line \<open>A\<close> has length zero. The run accepts the connector from
  \<open>A\<close> to \<open>B\<close> all the same, with both angle differences equal to \<open>0\<close>.
\<close>

theorem zero_length_segment_counterexample:
  "geometry ex_A_degenerate ! 1 = geometry ex_A_degenerate ! 2 \<and>
   get_lines (read_shp ex_features_degenerate) =
     Inr ([ex_A_degenerate, ex_B, ex_C], [ex_P, ex_B, ex_C]) \<and>
   main ex_features_degenerate 5 = Some (Inr ex_final) \<and>
   result_lines ex_final = [ex_A_to_B] \<and>
   e_idx ex_A_to_B = ident ex_A_degenerate"
  by (simp add: ex_degenerate_get_lines ex_degenerate_main)
     (simp add: ex_A_degenerate_def ex_final_def ex_A_to_B_def)

end
